(* ===== verification/Prelude.thy ===== *)
theory Prelude
  imports Main "HOL-Library.Word" "HOL-Library.Char_ord" "HOL-Library.List_Lexorder"
begin

text \<open>
  Shared vocabulary of the development: fallible results, machine integers, the part of Rust's
  standard library the modelled code calls (\<open>checked_add\<close>, \<open>checked_mul\<close>, \<open>str::trim\<close>), the
  interface of the third-party \<open>time\<close> crate, and the identifiers that every component passes
  around.

  \<^item> A Rust \<open>Result<T, E>\<close> is \<open>'e + 'a\<close>, with \<open>Inl\<close> the error; the \<open>?\<close> operator is
    \<open>res_bind\<close>.
  \<^item> A Rust \<open>String\<close> or path is a \<^typ>\<open>string\<close>: the list of its UTF-8 bytes.
  \<^item> \<open>u64\<close> and \<open>u32\<close> are words of that width.
\<close>

section \<open>Results\<close>

named_theorems result_simps \<open>rewriting of chained fallible steps\<close>

fun res_bind :: "'e + 'a \<Rightarrow> ('a \<Rightarrow> 'e + 'b) \<Rightarrow> 'e + 'b" where
  "res_bind (Inl e) k = Inl e"
| "res_bind (Inr x) k = k x"

definition ensure :: "bool \<Rightarrow> 'e \<Rightarrow> 'e + unit" where
  "ensure c e = (if c then Inr () else Inl e)"

definition is_ok :: "'e + 'a \<Rightarrow> bool" where
  "is_ok r = (case r of Inl _ \<Rightarrow> False | Inr _ \<Rightarrow> True)"

lemma res_bind_Inr_iff [result_simps]:
  "res_bind m k = Inr y \<longleftrightarrow> (\<exists>x. m = Inr x \<and> k x = Inr y)"
  by (cases m) auto

lemma res_bind_Inl_iff:
  "res_bind m k = Inl e \<longleftrightarrow> m = Inl e \<or> (\<exists>x. m = Inr x \<and> k x = Inl e)"
  by (cases m) auto

lemma ensure_Inr_iff [result_simps]: "ensure c e = Inr u \<longleftrightarrow> c"
  by (simp add: ensure_def)

lemma ensure_Inl_iff [result_simps]: "ensure c e = Inl e' \<longleftrightarrow> \<not> c \<and> e' = e"
  by (auto simp: ensure_def)

lemma if_Inl_Inr_iff [result_simps]: "(if c then Inl e else r) = Inr y \<longleftrightarrow> \<not> c \<and> r = Inr y"
  by simp

lemma ensure_True [simp]: "c \<Longrightarrow> ensure c e = Inr ()"
  by (simp add: ensure_def)

lemma ensure_False [simp]: "\<not> c \<Longrightarrow> ensure c e = Inl e"
  by (simp add: ensure_def)

lemma is_ok_simps [simp]: "is_ok (Inr x)" "\<not> is_ok (Inl e)"
  by (simp_all add: is_ok_def)

lemma is_ok_iff: "is_ok r \<longleftrightarrow> (\<exists>x. r = Inr x)"
  by (cases r) auto

section \<open>Machine integers\<close>

type_synonym u64 = "64 word"
type_synonym u32 = "32 word"

definition checked_add :: "'w::len word \<Rightarrow> 'w word \<Rightarrow> 'w word option" where
  "checked_add a b = (if unat a + unat b < 2 ^ LENGTH('w) then Some (a + b) else None)"

definition checked_mul :: "'w::len word \<Rightarrow> 'w word \<Rightarrow> 'w word option" where
  "checked_mul a b = (if unat a * unat b < 2 ^ LENGTH('w) then Some (a * b) else None)"

lemma checked_add_Some_iff:
  "checked_add a b = Some c \<longleftrightarrow> unat a + unat b < 2 ^ LENGTH('w) \<and> unat c = unat a + unat b"
  for a b c :: "'w::len word"
proof -
  have "unat (a + b) = unat a + unat b" if "unat a + unat b < 2 ^ LENGTH('w)"
    using that by (simp add: unat_word_ariths)
  then show ?thesis
    by (auto simp: checked_add_def word_unat_eq_iff)
qed

lemma checked_add_None_iff:
  "checked_add a b = None \<longleftrightarrow> 2 ^ LENGTH('w) \<le> unat a + unat b"
  for a b :: "'w::len word"
  by (auto simp: checked_add_def)

lemma checked_mul_Some_iff:
  "checked_mul a b = Some c \<longleftrightarrow> unat a * unat b < 2 ^ LENGTH('w) \<and> unat c = unat a * unat b"
  for a b c :: "'w::len word"
proof -
  have "unat (a * b) = unat a * unat b" if "unat a * unat b < 2 ^ LENGTH('w)"
    using that by (simp add: unat_word_ariths)
  then show ?thesis
    by (auto simp: checked_mul_def word_unat_eq_iff)
qed

lemma unat_max_word: "unat (- 1 :: 'w::len word) = 2 ^ LENGTH('w) - 1"
  by (simp add: unsigned_minus_1_eq_mask mask_eq_exp_minus_1)

lemma checked_Suc: "checked_add a 1 = Some c \<longleftrightarrow> unat c = Suc (unat a)" for a c :: u64
  using unsigned_less [of c, where ?'a = nat] by (auto simp: checked_add_Some_iff)

lemma checked_Suc_None: "checked_add a 1 = None \<longleftrightarrow> a = - 1" for a :: u64
  using unsigned_less [of a, where ?'a = nat]
  by (auto simp: checked_add_None_iff word_unat_eq_iff unat_max_word)

text \<open>\<open>saturating_add\<close> and \<open>saturating_sub\<close>.\<close>

definition saturating_add :: "'w::len word \<Rightarrow> 'w word \<Rightarrow> 'w word" where
  "saturating_add a b = (if uint a + uint b < 2 ^ LENGTH('w) then a + b else - 1)"

definition saturating_sub :: "'w::len word \<Rightarrow> 'w word \<Rightarrow> 'w word" where
  "saturating_sub a b = (if b \<le> a then a - b else 0)"

lemma unat_saturating_add:
  "unat (saturating_add a b) = min (unat a + unat b) (2 ^ LENGTH('w) - 1)" for a b :: "'w::len word"
proof -
  have "uint a + uint b < 2 ^ LENGTH('w) \<longleftrightarrow> unat a + unat b < 2 ^ LENGTH('w)"
  proof -
    have "unat a + unat b < 2 ^ LENGTH('w) \<longleftrightarrow> int (unat a + unat b) < int (2 ^ LENGTH('w))"
      by (simp only: of_nat_less_iff)
    then show ?thesis
      by simp
  qed
  moreover have "unat (a + b) = unat a + unat b" if "unat a + unat b < 2 ^ LENGTH('w)"
    using that by (simp add: unat_word_ariths)
  ultimately show ?thesis
    by (auto simp: saturating_add_def unat_max_word min_def)
qed

lemma unat_saturating_sub: "unat (saturating_sub a b) = unat a - unat b" for a b :: "'w::len word"
  by (simp add: saturating_sub_def unat_sub word_le_nat_alt)

text \<open>
  \<open>u64::try_from (n :: usize)\<close>: \<open>None\<close> when the length does not fit.
\<close>

definition u64_of_len :: "nat \<Rightarrow> u64 option" where
  "u64_of_len n = (if n < 2 ^ 64 then Some (of_nat n) else None)"

lemma u64_of_len_Some: "u64_of_len n = Some w \<Longrightarrow> unat w = n"
  by (auto simp: u64_of_len_def unat_of_nat split: if_splits)

lemma u64_of_len_le: "n \<le> unat (r :: u64) \<Longrightarrow> \<exists>w. u64_of_len n = Some w \<and> unat w = n"
proof -
  assume "n \<le> unat r"
  moreover have "unat r < 2 ^ LENGTH(64)"
    by (rule unsigned_less)
  ultimately have "n < 2 ^ 64"
    by simp
  then show ?thesis
    by (auto simp: u64_of_len_def unat_of_nat)
qed

text \<open>Evaluation compares binary integers instead of unary naturals.\<close>

lemma checked_add_code [code]:
  "checked_add a b = (if uint a + uint b < 2 ^ LENGTH('w) then Some (a + b) else None)"
  for a b :: "'w::len word"
proof -
  have "unat a + unat b < 2 ^ LENGTH('w) \<longleftrightarrow> uint a + uint b < 2 ^ LENGTH('w)"
  proof -
    have "unat a + unat b < 2 ^ LENGTH('w) \<longleftrightarrow> int (unat a + unat b) < int (2 ^ LENGTH('w))"
      by (simp only: of_nat_less_iff)
    then show ?thesis
      by simp
  qed
  then show ?thesis
    by (simp add: checked_add_def)
qed

lemma checked_mul_code [code]:
  "checked_mul a b = (if uint a * uint b < 2 ^ LENGTH('w) then Some (a * b) else None)"
  for a b :: "'w::len word"
proof -
  have "unat a * unat b < 2 ^ LENGTH('w) \<longleftrightarrow> uint a * uint b < 2 ^ LENGTH('w)"
  proof -
    have "unat a * unat b < 2 ^ LENGTH('w) \<longleftrightarrow> int (unat a * unat b) < int (2 ^ LENGTH('w))"
      by (simp only: of_nat_less_iff)
    then show ?thesis
      by simp
  qed
  then show ?thesis
    by (simp add: checked_mul_def)
qed

lemma u64_of_len_code [code]:
  "u64_of_len n = (if int n < 2 ^ 64 then Some (of_nat n) else None)"
proof -
  have "n < 2 ^ 64 \<longleftrightarrow> int n < 2 ^ 64"
  proof -
    have "n < 2 ^ 64 \<longleftrightarrow> int n < int (2 ^ 64)"
      by (simp only: of_nat_less_iff)
    then show ?thesis
      by simp
  qed
  then show ?thesis
    by (simp add: u64_of_len_def)
qed

section \<open>Strings\<close>

text \<open>
  \<open>s.trim().is_empty()\<close>: every character of \<open>s\<close> has the Unicode property White_Space. On the
  UTF-8 bytes these are U+0009 to U+000D and U+0020 (one byte), U+0085 and U+00A0 (two bytes),
  U+1680, U+2000 to U+200A, U+2028, U+2029, U+202F, U+205F and U+3000 (three bytes).
\<close>

definition white_space_1 :: "nat \<Rightarrow> bool" where
  "white_space_1 a \<longleftrightarrow> 9 \<le> a \<and> a \<le> 13 \<or> a = 32"

definition white_space_2 :: "nat \<Rightarrow> nat \<Rightarrow> bool" where
  "white_space_2 a b \<longleftrightarrow> a = 194 \<and> (b = 133 \<or> b = 160)"

definition white_space_3 :: "nat \<Rightarrow> nat \<Rightarrow> nat \<Rightarrow> bool" where
  "white_space_3 a b c \<longleftrightarrow>
     a = 225 \<and> b = 154 \<and> c = 128
     \<or> a = 226 \<and> b = 128 \<and> (128 \<le> c \<and> c \<le> 138 \<or> c = 168 \<or> c = 169 \<or> c = 175)
     \<or> a = 226 \<and> b = 129 \<and> c = 159
     \<or> a = 227 \<and> b = 128 \<and> c = 128"

fun blank_bytes :: "nat list \<Rightarrow> bool" where
  "blank_bytes [] = True"
| "blank_bytes (a # r) =
     (if white_space_1 a then blank_bytes r
      else case r of
          [] \<Rightarrow> False
        | b # r' \<Rightarrow>
            if white_space_2 a b then blank_bytes r'
            else (case r' of
                [] \<Rightarrow> False
              | c # r'' \<Rightarrow> white_space_3 a b c \<and> blank_bytes r''))"

definition trim_is_empty :: "string \<Rightarrow> bool" where
  "trim_is_empty s = blank_bytes (map of_char s)"

lemma trim_is_empty_Nil [simp]: "trim_is_empty []"
  by (simp add: trim_is_empty_def)

lemma blank_bytes_ascii: "32 < a \<Longrightarrow> a < 128 \<Longrightarrow> \<not> blank_bytes (a # r)"
  by (simp add: white_space_1_def white_space_2_def white_space_3_def split: list.splits)

lemma not_trim_is_empty_ascii:
  "32 < (of_char c :: nat) \<Longrightarrow> (of_char c :: nat) < 128 \<Longrightarrow> \<not> trim_is_empty (c # s)"
  by (simp add: trim_is_empty_def blank_bytes_ascii del: blank_bytes.simps)

text \<open>\<open>value.split(sep)\<close>: always at least one segment.\<close>

fun split_on :: "char \<Rightarrow> string \<Rightarrow> string list" where
  "split_on sep [] = [[]]"
| "split_on sep (c # cs) =
     (if c = sep then [] # split_on sep cs
      else case split_on sep cs of
          [] \<Rightarrow> [[c]]
        | s # ss \<Rightarrow> (c # s) # ss)"

lemma split_on_ne [simp]: "split_on sep s \<noteq> []"
  by (induction s) (auto split: list.splits)

text \<open>The decimal rendering of an unsigned integer (\<open>{}\<close> in a format string).\<close>

fun show_nat :: "nat \<Rightarrow> string" where
  "show_nat n =
     (if n < 10 then [char_of (48 + n)] else show_nat (n div 10) @ [char_of (48 + n mod 10)])"

declare show_nat.simps [simp del]

section \<open>Ordered maps\<close>

text \<open>
  A \<open>BTreeMap\<close> is the list of its entries in key order; lookup is \<open>map_of\<close>.
\<close>

fun btree_insert :: "'k::linorder \<Rightarrow> 'v \<Rightarrow> ('k \<times> 'v) list \<Rightarrow> ('k \<times> 'v) list" where
  "btree_insert k v [] = [(k, v)]"
| "btree_insert k v ((a, b) # m) =
     (if k < a then (k, v) # (a, b) # m
      else if k = a then (k, v) # m
      else (a, b) # btree_insert k v m)"

lemma map_of_btree_insert [simp]: "map_of (btree_insert k v m) = (map_of m)(k \<mapsto> v)"
  by (induction k v m rule: btree_insert.induct) (auto simp: fun_eq_iff)

lemma set_fst_btree_insert: "fst ` set (btree_insert k v m) = insert k (fst ` set m)"
  by (induction k v m rule: btree_insert.induct) auto

lemma sorted_btree_insert:
  "sorted_wrt (<) (map fst m) \<Longrightarrow> sorted_wrt (<) (map fst (btree_insert k v m))"
proof (induction k v m rule: btree_insert.induct)
  case (2 k v a b m)
  have "a < x" if "\<not> k < a" "k \<noteq> a" "x \<in> fst ` set (btree_insert k v m)" for x
    using that 2(2) by (auto simp: set_fst_btree_insert)
  with 2 show ?case by (force simp: image_iff)
qed simp

section \<open>Stable spellings\<close>

text \<open>
  Every enum the runtime stores has an \<open>ALL\<close> table and an \<open>as_str\<close> spelling, and is read back
  by the first entry of the table whose spelling is the stored text. The locale states what makes
  that reading right, once for all of them.
\<close>

definition find_spelling :: "'a list \<Rightarrow> ('a \<Rightarrow> string) \<Rightarrow> string \<Rightarrow> 'a option" where
  "find_spelling all spell v = find (\<lambda>k. spell k = v) all"

locale stable_spelling =
  fixes all :: "'a list" and spell :: "'a \<Rightarrow> string"
  assumes complete: "k \<in> set all"
    and distinct_spellings: "distinct (map spell all)"
begin

lemma spell_inject: "spell k = spell l \<longleftrightarrow> k = l"
  using distinct_spellings complete [of k] complete [of l]
  by (auto simp: distinct_map dest: inj_onD)

lemma find_spelling_spell: "find_spelling all spell (spell k) = Some k"
proof -
  have "find_spelling all spell (spell k) \<noteq> None"
    using complete [of k] by (auto simp: find_spelling_def find_None_iff)
  then obtain l where l: "find_spelling all spell (spell k) = Some l"
    by blast
  then have "spell l = spell k"
    by (auto simp: find_spelling_def find_Some_iff)
  with l show ?thesis
    by (simp add: spell_inject)
qed

lemma find_spelling_sound: "find_spelling all spell v = Some k \<Longrightarrow> spell k = v"
  by (auto simp: find_spelling_def find_Some_iff)

lemma find_spelling_iff: "find_spelling all spell v = Some k \<longleftrightarrow> v = spell k"
  using find_spelling_spell find_spelling_sound by blast

end

section \<open>The \<open>time\<close> crate\<close>

text \<open>
  \<open>time::OffsetDateTime\<close> is third-party code: the model takes its three operations as an
  argument. \<open>instant\<close> is what its comparisons compare (two values are equal, ordered or
  maximal by the instant they denote, whatever their offsets), \<open>is_utc\<close> is
  \<open>offset() == UtcOffset::UTC\<close>, and \<open>to_utc\<close> is \<open>to_offset(UtcOffset::UTC)\<close>.
  \<open>time_laws\<close> is the documented behaviour the runtime relies on.
\<close>

record 't time_ops =
  instant :: "'t \<Rightarrow> int"
  is_utc :: "'t \<Rightarrow> bool"
  to_utc :: "'t \<Rightarrow> 't"

definition time_laws :: "'t time_ops \<Rightarrow> bool" where
  "time_laws T \<longleftrightarrow>
     (\<forall>t. is_utc T (to_utc T t)) \<and> (\<forall>t. instant T (to_utc T t) = instant T t)"

text \<open>\<open>Ord::max\<close> keeps its argument (here \<open>b\<close>) when the two compare equal.\<close>

definition time_max :: "'t time_ops \<Rightarrow> 't \<Rightarrow> 't \<Rightarrow> 't" where
  "time_max T a b = (if instant T b < instant T a then a else b)"

lemma time_max_instant: "instant T (time_max T a b) = max (instant T a) (instant T b)"
  by (auto simp: time_max_def)

lemma time_max_utc: "is_utc T a \<Longrightarrow> is_utc T b \<Longrightarrow> is_utc T (time_max T a b)"
  by (simp add: time_max_def)

lemma time_laws_simps [simp]:
  "time_laws T \<Longrightarrow> is_utc T (to_utc T t)"
  "time_laws T \<Longrightarrow> instant T (to_utc T t) = instant T t"
  by (simp_all add: time_laws_def)

text \<open>A concrete instance, for witnesses: an instant with an offset in minutes.\<close>

definition offset_time :: "(int \<times> int) time_ops" where
  "offset_time = \<lparr>instant = fst, is_utc = (\<lambda>t. snd t = 0), to_utc = (\<lambda>t. (fst t, 0))\<rparr>"

lemma offset_time_laws: "time_laws offset_time"
  by (simp add: time_laws_def offset_time_def)

section \<open>Identifiers\<close>

text \<open>Every identifier is a newtype over a 128-bit UUID.\<close>

type_synonym uuid = "128 word"

datatype task_id = TaskId uuid
datatype run_id = RunId uuid
datatype step_id = StepId uuid
datatype tool_call_id = ToolCallId uuid
datatype approval_id = ApprovalId uuid
datatype project_id = ProjectId uuid

end
