(* ===== verification/Tool_Contract.thy ===== *)
theory Tool_Contract
  imports Prelude
begin

text \<open>
  The declared contract of a tool: risk levels, identifiers, versions, capabilities, environment
  names and the published descriptor.

  Source: \<open>harkness-runtime/src/tool/descriptor.rs\<close> and \<open>tool/identifier.rs\<close>. The semantic
  version parser is the third-party \<open>semver\<close> crate: its versions are the type \<open>'w\<close> and its parser
  is an argument of \<open>ToolVersion_new\<close>. JSON schemas are opaque values of type \<open>'v\<close>.
\<close>

section \<open>Risk levels\<close>

datatype risk_level =
  Observe | WorkspaceWrite | Execute | Network | RemoteWrite | Destructive

primrec risk_rank :: "risk_level \<Rightarrow> nat" where
  "risk_rank Observe = 0"
| "risk_rank WorkspaceWrite = 1"
| "risk_rank Execute = 2"
| "risk_rank Network = 3"
| "risk_rank RemoteWrite = 4"
| "risk_rank Destructive = 5"

text \<open>The derived \<open>Ord\<close> orders the constructors as they are declared.\<close>

instantiation risk_level :: linorder
begin

definition less_eq_risk_level :: "risk_level \<Rightarrow> risk_level \<Rightarrow> bool" where
  "less_eq_risk_level a b = (risk_rank a \<le> risk_rank b)"

definition less_risk_level :: "risk_level \<Rightarrow> risk_level \<Rightarrow> bool" where
  "less_risk_level a b = (risk_rank a < risk_rank b)"

instance
proof
  fix a b :: risk_level
  show "a \<le> b \<Longrightarrow> b \<le> a \<Longrightarrow> a = b"
    by (cases a; cases b) (simp_all add: less_eq_risk_level_def)
qed (auto simp: less_eq_risk_level_def less_risk_level_def)

end

definition RiskLevel_ALL :: "risk_level list" where
  "RiskLevel_ALL = [Observe, WorkspaceWrite, Execute, Network, RemoteWrite, Destructive]"

primrec RiskLevel_as_str :: "risk_level \<Rightarrow> string" where
  "RiskLevel_as_str Observe = ''observe''"
| "RiskLevel_as_str WorkspaceWrite = ''workspace_write''"
| "RiskLevel_as_str Execute = ''execute''"
| "RiskLevel_as_str Network = ''network''"
| "RiskLevel_as_str RemoteWrite = ''remote_write''"
| "RiskLevel_as_str Destructive = ''destructive''"

definition RiskLevel_lowest :: risk_level where
  "RiskLevel_lowest = Observe"

definition mutates_state :: "risk_level \<Rightarrow> bool" where
  "mutates_state r = (case r of Observe \<Rightarrow> False | _ \<Rightarrow> True)"

definition RiskLevel_from_str :: "string \<Rightarrow> risk_level option" where
  "RiskLevel_from_str v = find_spelling RiskLevel_ALL RiskLevel_as_str v"

interpretation risk_spelling: stable_spelling RiskLevel_ALL RiskLevel_as_str
proof
  fix k show "k \<in> set RiskLevel_ALL" by (cases k) (simp_all add: RiskLevel_ALL_def)
qed (simp add: RiskLevel_ALL_def)

lemma risk_max_ge [simp]: "a \<le> max a (b :: risk_level)" "b \<le> max a b"
  by simp_all

lemma mutates_state_iff: "mutates_state r \<longleftrightarrow> r \<noteq> Observe"
  by (cases r) (simp_all add: mutates_state_def)

lemma mutates_state_mono: "a \<le> b \<Longrightarrow> mutates_state a \<Longrightarrow> mutates_state b"
  by (cases a; cases b) (simp_all add: mutates_state_def less_eq_risk_level_def)

lemma Observe_least [simp]: "Observe \<le> r"
  by (simp add: less_eq_risk_level_def)

definition remote_or_destructive :: "risk_level \<Rightarrow> bool" where
  "remote_or_destructive r = (case r of RemoteWrite \<Rightarrow> True | Destructive \<Rightarrow> True | _ \<Rightarrow> False)"

lemma remote_or_destructive_iff: "remote_or_destructive r \<longleftrightarrow> RemoteWrite \<le> r"
  by (cases r) (simp_all add: remote_or_destructive_def less_eq_risk_level_def)

section \<open>Timeouts\<close>

text \<open>A \<open>Duration\<close> is a number of nanoseconds.\<close>

datatype tool_timeout = After nat | OnlyByCancellation

definition duration_from_secs :: "nat \<Rightarrow> nat" where
  "duration_from_secs s = s * 1000000000"

definition ToolTimeout_for_risk :: "risk_level \<Rightarrow> tool_timeout" where
  "ToolTimeout_for_risk r =
     (case r of
        Observe \<Rightarrow> After (duration_from_secs 30)
      | WorkspaceWrite \<Rightarrow> After (duration_from_secs 120)
      | Execute \<Rightarrow> After (duration_from_secs 120)
      | Destructive \<Rightarrow> After (duration_from_secs 120)
      | Network \<Rightarrow> OnlyByCancellation
      | RemoteWrite \<Rightarrow> OnlyByCancellation)"

definition ToolTimeout_limit :: "tool_timeout \<Rightarrow> nat option" where
  "ToolTimeout_limit t = (case t of After l \<Rightarrow> Some l | OnlyByCancellation \<Rightarrow> None)"

section \<open>Identifiers\<close>

definition MAX_IDENTIFIER_LENGTH :: nat where "MAX_IDENTIFIER_LENGTH = 64"

text \<open>\<open>value.chars().count()\<close>: UTF-8 bytes that are not continuation bytes.\<close>

definition chars_count :: "string \<Rightarrow> nat" where
  "chars_count s = length (filter (\<lambda>c. \<not> (128 \<le> (of_char c :: nat) \<and> (of_char c :: nat) < 192)) s)"

definition is_ascii_lowercase :: "char \<Rightarrow> bool" where
  "is_ascii_lowercase c \<longleftrightarrow> 97 \<le> (of_char c :: nat) \<and> (of_char c :: nat) \<le> 122"

definition is_ascii_uppercase :: "char \<Rightarrow> bool" where
  "is_ascii_uppercase c \<longleftrightarrow> 65 \<le> (of_char c :: nat) \<and> (of_char c :: nat) \<le> 90"

definition is_ascii_digit :: "char \<Rightarrow> bool" where
  "is_ascii_digit c \<longleftrightarrow> 48 \<le> (of_char c :: nat) \<and> (of_char c :: nat) \<le> 57"

definition segment_char :: "char \<Rightarrow> bool" where
  "segment_char c \<longleftrightarrow> is_ascii_lowercase c \<or> is_ascii_digit c \<or> c = CHR ''_''"

fun validate_segments :: "string list \<Rightarrow> string + unit" where
  "validate_segments [] = Inr ()"
| "validate_segments (seg # segs) =
     (case seg of
        [] \<Rightarrow> Inl ''every dot-separated segment must be non-empty''
      | first # rest \<Rightarrow>
          if \<not> is_ascii_lowercase first
          then Inl ''every segment must start with a lowercase ASCII letter''
          else if \<not> list_all segment_char rest
          then Inl ''segments accept only lowercase ASCII letters, digits, and underscores''
          else validate_segments segs)"

definition validate_identifier :: "string \<Rightarrow> nat \<Rightarrow> string + unit" where
  "validate_identifier value minimum_segments =
     (if value = [] then Inl ''it must not be empty''
      else if MAX_IDENTIFIER_LENGTH < chars_count value
      then Inl ''it is longer than 64 characters''
      else res_bind (validate_segments (split_on (CHR ''.'') value)) (\<lambda>_.
        if length (split_on (CHR ''.'') value) < minimum_segments
        then Inl ''it must name at least a namespace and a verb, as in fs.read''
        else Inr ()))"

datatype tool_id = ToolId (tool_id_str: string)
datatype capability = Capability (capability_str: string)
datatype 'w tool_version = ToolVersion 'w

datatype registry_error =
    InvalidToolId string string
  | InvalidCapability string string
  | InvalidToolVersion string string

definition ToolId_new :: "string \<Rightarrow> registry_error + tool_id" where
  "ToolId_new value =
     (case validate_identifier value 2 of
        Inl reason \<Rightarrow> Inl (InvalidToolId value reason)
      | Inr _ \<Rightarrow> Inr (ToolId value))"

definition Capability_new :: "string \<Rightarrow> registry_error + capability" where
  "Capability_new value =
     (case validate_identifier value 1 of
        Inl reason \<Rightarrow> Inl (InvalidCapability value reason)
      | Inr _ \<Rightarrow> Inr (Capability value))"

text \<open>
  \<open>semver_parse\<close> stands for \<open>semver::Version::parse\<close>, with its error rendered as text, and
  \<open>has_build\<close> for \<open>!version.build.is_empty()\<close>.
\<close>

definition ToolVersion_new ::
  "(string \<Rightarrow> string + 'w) \<Rightarrow> ('w \<Rightarrow> bool) \<Rightarrow> string \<Rightarrow> registry_error + 'w tool_version" where
  "ToolVersion_new semver_parse has_build value =
     (if MAX_IDENTIFIER_LENGTH < chars_count value
      then Inl (InvalidToolVersion value ''it is longer than 64 characters'')
      else case semver_parse value of
          Inr version \<Rightarrow>
            if has_build version
            then Inl (InvalidToolVersion value
              (''build metadata is ignored for semantic-version precedence, so it cannot ''
               @ ''distinguish one tool version from another; bump the patch version instead''))
            else Inr (ToolVersion version)
        | Inl error \<Rightarrow> Inl (InvalidToolVersion value error))"

record 'w tool_identity =
  identity_id :: tool_id
  identity_version :: "'w tool_version"

subsection \<open>What an accepted identifier looks like\<close>

lemma set_split_on: "set s \<subseteq> insert sep (\<Union> (set ` set (split_on sep s)))"
proof (induction s)
  case (Cons c s)
  then show ?case by (cases "split_on sep s") auto
qed simp

lemma validate_segments_ok:
  "validate_segments segs = Inr u \<Longrightarrow> seg \<in> set segs \<Longrightarrow>
     seg \<noteq> [] \<and> is_ascii_lowercase (hd seg) \<and> list_all segment_char seg"
  by (induction segs) (auto simp: segment_char_def split: list.splits if_splits)

lemma segment_char_not_continuation: "segment_char c \<Longrightarrow> (of_char c :: nat) < 128"
  by (auto simp: segment_char_def is_ascii_lowercase_def is_ascii_digit_def)

lemma chars_count_ascii: "\<forall>c \<in> set s. (of_char c :: nat) < 128 \<Longrightarrow> chars_count s = length s"
  unfolding chars_count_def by (subst filter_True) auto

lemma validate_identifier_chars:
  assumes "validate_identifier v n = Inr u"
  shows "\<forall>c \<in> set v. segment_char c \<or> c = CHR ''.''"
proof
  fix c assume c: "c \<in> set v"
  from assms have ok: "validate_segments (split_on (CHR ''.'') v) = Inr ()"
    by (auto simp: validate_identifier_def result_simps split: if_splits)
  show "segment_char c \<or> c = CHR ''.''"
  proof (cases "c = CHR ''.''")
    case False
    with c set_split_on [of v "CHR ''.''"] obtain seg
      where "seg \<in> set (split_on (CHR ''.'') v)" "c \<in> set seg" by blast
    with validate_segments_ok [OF ok] show ?thesis by (auto simp: list_all_iff)
  qed simp
qed

lemma validate_identifier_length:
  assumes "validate_identifier v n = Inr u"
  shows "0 < length v \<and> length v \<le> 64 \<and> n \<le> length (split_on (CHR ''.'') v)"
proof -
  have "\<forall>c \<in> set v. (of_char c :: nat) < 128"
    using validate_identifier_chars [OF assms] segment_char_not_continuation by auto
  then have "chars_count v = length v"
    by (rule chars_count_ascii)
  with assms show ?thesis
    by (auto simp: validate_identifier_def MAX_IDENTIFIER_LENGTH_def result_simps split: if_splits)
qed

section \<open>Environment names\<close>

datatype environment_error = EnvironmentInvalidName string string
datatype environment_name = EnvironmentName (environment_name_str: string)

definition MAX_ENVIRONMENT_NAME_LENGTH :: nat where "MAX_ENVIRONMENT_NAME_LENGTH = 128"

definition is_ascii_alphabetic :: "char \<Rightarrow> bool" where
  "is_ascii_alphabetic c \<longleftrightarrow> is_ascii_lowercase c \<or> is_ascii_uppercase c"

definition to_ascii_uppercase :: "string \<Rightarrow> string" where
  "to_ascii_uppercase s =
     map (\<lambda>c. if is_ascii_lowercase c then char_of ((of_char c :: nat) - 32) else c) s"

definition environment_name_valid :: "string \<Rightarrow> bool" where
  "environment_name_valid name =
     (case name of
        [] \<Rightarrow> False
      | first # rest \<Rightarrow>
          (first = CHR ''_'' \<or> is_ascii_alphabetic first)
          \<and> list_all (\<lambda>b. b = CHR ''_'' \<or> is_ascii_alphabetic b \<or> is_ascii_digit b) rest)"

definition EnvironmentName_new :: "string \<Rightarrow> environment_error + environment_name" where
  "EnvironmentName_new name =
     (if name = [] then Inl (EnvironmentInvalidName name ''it must not be empty'')
      else if MAX_ENVIRONMENT_NAME_LENGTH < length name
      then Inl (EnvironmentInvalidName name ''it is longer than 128 bytes'')
      else if \<not> environment_name_valid name
      then Inl (EnvironmentInvalidName name ''it must match [A-Za-z_][A-Za-z0-9_]*'')
      else Inr (EnvironmentName (to_ascii_uppercase name)))"

section \<open>The published descriptor\<close>

record ('w, 'v) tool_descriptor =
  descriptor_identity :: "'w tool_identity"
  descriptor_title :: string
  descriptor_description :: string
  descriptor_risk :: risk_level
  descriptor_capabilities :: "capability list"
  descriptor_environment :: "environment_name list"
  descriptor_timeout :: tool_timeout
  descriptor_spawns_processes :: bool
  descriptor_input_schema :: 'v
  descriptor_output_schema :: 'v

abbreviation descriptor_id :: "('w, 'v) tool_descriptor \<Rightarrow> tool_id" where
  "descriptor_id d \<equiv> identity_id (descriptor_identity d)"

end
