(* ===== verification/Trust.thy ===== *)
theory Trust
  imports Tool_Contract
begin

text \<open>
  Workspace trust, the environment a child process inherits, and the classification of one
  concrete request.

  Source: \<open>harkness-runtime/src/trust.rs\<close>. The filesystem is the environment: what
  \<open>fs::canonicalize\<close> answers at the moment of a call is an argument (\<open>None\<close> for an I/O error),
  and so is what \<open>std::env::var_os\<close> reads from the parent. Path containment, which walks the
  filesystem, has its own theory \<open>Path_Boundary\<close>; here a \<open>ContainedPath\<close> is represented by the
  canonical path it carries.
\<close>

section \<open>Workspace trust\<close>

datatype trust_state = Untrusted | Trusted

primrec TrustState_as_str :: "trust_state \<Rightarrow> string" where
  "TrustState_as_str Untrusted = ''untrusted''"
| "TrustState_as_str Trusted = ''trusted''"

definition TrustState_from_stored :: "string \<Rightarrow> trust_state option" where
  "TrustState_from_stored v =
     (if v = ''untrusted'' then Some Untrusted
      else if v = ''trusted'' then Some Trusted
      else None)"

record 't workspace_trust =
  trust_project_id :: project_id
  trust_canonical_root :: string
  trust_state_of :: trust_state
  trust_decided_at :: 't

datatype boundary_error =
    OutsideAllowedRoots string "string list"
  | SymlinkEscapes string string
  | RootUnavailable string string
  | CandidateUnavailable string string

text \<open>
  \<open>canonicalize\<close> answers the canonical path or the rendered I/O error, \<open>is_dir\<close> whether the
  canonical path has directory metadata.
\<close>

definition canonical_root ::
  "(string \<Rightarrow> string + string) \<Rightarrow> (string \<Rightarrow> bool) \<Rightarrow> string \<Rightarrow> boundary_error + string" where
  "canonical_root canonicalize is_dir root =
     (case canonicalize root of
        Inl reason \<Rightarrow> Inl (RootUnavailable root reason)
      | Inr canonical \<Rightarrow>
          if \<not> is_dir canonical then Inl (RootUnavailable root ''it is not a directory'')
          else Inr canonical)"

definition WorkspaceTrust_decide ::
  "'t time_ops \<Rightarrow> (string \<Rightarrow> string + string) \<Rightarrow> (string \<Rightarrow> bool) \<Rightarrow>
   project_id \<Rightarrow> string \<Rightarrow> trust_state \<Rightarrow> 't \<Rightarrow> boundary_error + 't workspace_trust" where
  "WorkspaceTrust_decide T canonicalize is_dir project root state decided_at =
     res_bind (canonical_root canonicalize is_dir root) (\<lambda>canonical.
       Inr \<lparr>trust_project_id = project, trust_canonical_root = canonical,
            trust_state_of = state, trust_decided_at = to_utc T decided_at\<rparr>)"

definition WorkspaceTrust_resolve ::
  "(string \<Rightarrow> string + string) \<Rightarrow> 't workspace_trust \<Rightarrow> project_id \<Rightarrow> string \<Rightarrow> trust_state" where
  "WorkspaceTrust_resolve canonicalize w project root =
     (case canonicalize root of
        Inl _ \<Rightarrow> Untrusted
      | Inr r \<Rightarrow>
          if trust_project_id w = project \<and> trust_canonical_root w = r
          then trust_state_of w else Untrusted)"

section \<open>The child environment\<close>

definition BASELINE_ENVIRONMENT :: "string list" where
  "BASELINE_ENVIRONMENT = [''PATH'', ''HOME'', ''LANG'', ''LC_ALL'', ''TERM'']"

type_synonym allowlisted_env = "string \<rightharpoonup> string"

definition allowed_names :: "environment_name list \<Rightarrow> string set" where
  "allowed_names declared_extras =
     set (map environment_name_str declared_extras) \<union> set BASELINE_ENVIRONMENT"

definition AllowlistedEnv_build ::
  "(string \<rightharpoonup> string) \<Rightarrow> environment_name list \<Rightarrow> allowlisted_env" where
  "AllowlistedEnv_build var_os declared_extras =
     (\<lambda>name. if name \<in> allowed_names declared_extras then var_os name else None)"

datatype environment_override_error =
    OverrideInvalidName environment_error
  | OverrideUndeclared string
  | OverrideInvalidValue string

text \<open>
  \<open>overrides\<close> is a \<open>BTreeMap\<close>, visited in key order: the list of its entries. The map is changed
  in place, so an error leaves the entries before it applied; the caller discards it.
\<close>

fun apply_overrides ::
  "environment_name list \<Rightarrow> allowlisted_env \<Rightarrow> (string \<times> string) list \<Rightarrow>
   (environment_override_error + unit) \<times> allowlisted_env" where
  "apply_overrides declared_extras env [] = (Inr (), env)"
| "apply_overrides declared_extras env ((supplied, value) # overrides) =
     (case EnvironmentName_new supplied of
        Inl e \<Rightarrow> (Inl (OverrideInvalidName e), env)
      | Inr (EnvironmentName name) \<Rightarrow>
          if name \<notin> allowed_names declared_extras then (Inl (OverrideUndeclared name), env)
          else if CHR 0x00 \<in> set value then (Inl (OverrideInvalidValue name), env)
          else apply_overrides declared_extras (env(name \<mapsto> value)) overrides)"

lemma AllowlistedEnv_build_dom:
  "dom (AllowlistedEnv_build var_os extras) \<subseteq> allowed_names extras"
  by (auto simp: AllowlistedEnv_build_def split: if_splits)

lemma apply_overrides_dom:
  "dom env \<subseteq> allowed_names extras \<Longrightarrow>
     dom (snd (apply_overrides extras env ovs)) \<subseteq> allowed_names extras"
  by (induction extras env ovs rule: apply_overrides.induct)
    (auto split: sum.splits environment_name.splits)

section \<open>Execution mode and request effects\<close>

datatype execution_mode = Interactive | NonInteractive

datatype path_access = AccessRead | AccessWrite | AccessDestructive

primrec PathAccess_risk :: "path_access \<Rightarrow> risk_level" where
  "PathAccess_risk AccessRead = Observe"
| "PathAccess_risk AccessWrite = WorkspaceWrite"
| "PathAccess_risk AccessDestructive = Destructive"

record request_path =
  request_path_path :: string
  request_path_access :: path_access

datatype force_push = ForceNone | WithLease | Force

primrec ForcePush_as_str :: "force_push \<Rightarrow> string" where
  "ForcePush_as_str ForceNone = ''none''"
| "ForcePush_as_str WithLease = ''force_with_lease''"
| "ForcePush_as_str Force = ''force''"

definition is_forcing :: "force_push \<Rightarrow> bool" where
  "is_forcing f = (case f of ForceNone \<Rightarrow> False | _ \<Rightarrow> True)"

record request_flags =
  flag_executes :: bool
  flag_network :: bool
  flag_remote_write :: bool
  flag_destructive :: bool
  flag_force_push :: force_push

definition RequestFlags_default :: request_flags where
  "RequestFlags_default =
     \<lparr>flag_executes = False, flag_network = False, flag_remote_write = False,
      flag_destructive = False, flag_force_push = ForceNone\<rparr>"

definition RequestFlags_executing :: "request_flags \<Rightarrow> request_flags" where
  "RequestFlags_executing f = f\<lparr>flag_executes := True\<rparr>"

definition RequestFlags_using_network :: "request_flags \<Rightarrow> request_flags" where
  "RequestFlags_using_network f = f\<lparr>flag_network := True\<rparr>"

definition RequestFlags_writing_remote :: "request_flags \<Rightarrow> request_flags" where
  "RequestFlags_writing_remote f = f\<lparr>flag_remote_write := True\<rparr>"

definition RequestFlags_destructive :: "request_flags \<Rightarrow> request_flags" where
  "RequestFlags_destructive f = f\<lparr>flag_destructive := True\<rparr>"

definition RequestFlags_force_pushing :: "force_push \<Rightarrow> request_flags \<Rightarrow> request_flags" where
  "RequestFlags_force_pushing v f =
     (let f' = f\<lparr>flag_force_push := v\<rparr>
      in if is_forcing v then f'\<lparr>flag_remote_write := True\<rparr> else f')"

definition RequestFlags_risk :: "request_flags \<Rightarrow> risk_level" where
  "RequestFlags_risk f =
     (if flag_destructive f then Destructive
      else if flag_remote_write f then RemoteWrite
      else if flag_network f then Network
      else if flag_executes f then Execute
      else Observe)"

record request_classification =
  classification_risk :: risk_level
  classification_force_push :: force_push

text \<open>
  \<open>input_paths.map(access.risk).chain([declared, flags]).max().unwrap_or(Observe)\<close>: the chain is
  never empty, and \<open>max\<close> over it is a fold.
\<close>

definition classify_request ::
  "('w, 'v) tool_descriptor \<Rightarrow> request_path list \<Rightarrow> request_flags \<Rightarrow> request_classification" where
  "classify_request descriptor input_paths flags =
     \<lparr>classification_risk =
        (case map (\<lambda>p. PathAccess_risk (request_path_access p)) input_paths
               @ [descriptor_risk descriptor, RequestFlags_risk flags] of
           [] \<Rightarrow> Observe
         | r # rs \<Rightarrow> fold max rs r),
      classification_force_push = flag_force_push flags\<rparr>"

subsection \<open>The builder of \<open>RequestFlags\<close>\<close>

text \<open>
  The fields are private: a value of \<open>RequestFlags\<close> is the default changed by the five builder
  methods, in any order.
\<close>

inductive built_flags :: "request_flags \<Rightarrow> bool" where
  default: "built_flags RequestFlags_default"
| executing: "built_flags f \<Longrightarrow> built_flags (RequestFlags_executing f)"
| network: "built_flags f \<Longrightarrow> built_flags (RequestFlags_using_network f)"
| remote: "built_flags f \<Longrightarrow> built_flags (RequestFlags_writing_remote f)"
| destructive: "built_flags f \<Longrightarrow> built_flags (RequestFlags_destructive f)"
| forcing: "built_flags f \<Longrightarrow> built_flags (RequestFlags_force_pushing v f)"

lemmas request_flags_defs =
  RequestFlags_default_def RequestFlags_executing_def RequestFlags_using_network_def
  RequestFlags_writing_remote_def RequestFlags_destructive_def RequestFlags_force_pushing_def

lemma built_flags_forcing:
  "built_flags f \<Longrightarrow> is_forcing (flag_force_push f) \<Longrightarrow> flag_remote_write f"
proof (induction rule: built_flags.induct)
  case default
  then show ?case by (simp add: RequestFlags_default_def is_forcing_def)
qed (auto simp: request_flags_defs Let_def split: if_splits)

lemma RequestFlags_risk_remote: "flag_remote_write f \<Longrightarrow> RemoteWrite \<le> RequestFlags_risk f"
  by (simp add: RequestFlags_risk_def less_eq_risk_level_def)

subsection \<open>Facts about the classification\<close>

lemma classify_request_risk:
  "classification_risk (classify_request d ps fl) =
     Max (insert (descriptor_risk d) (insert (RequestFlags_risk fl)
       ((\<lambda>p. PathAccess_risk (request_path_access p)) ` set ps)))"
proof -
  let ?xs = "map (\<lambda>p. PathAccess_risk (request_path_access p)) ps
               @ [descriptor_risk d, RequestFlags_risk fl]"
  obtain r rs where xs: "?xs = r # rs"
    by (cases ps) auto
  have "fold max rs r = Max (set (r # rs))"
    by (simp only: Max.set_eq_fold)
  moreover have "set (r # rs) = insert (descriptor_risk d) (insert (RequestFlags_risk fl)
       ((\<lambda>p. PathAccess_risk (request_path_access p)) ` set ps))"
    unfolding xs [symmetric] by auto
  ultimately show ?thesis
    by (simp add: classify_request_def xs)
qed

end
