(* ===== verification/External_Policy.thy ===== *)
theory External_Policy
  imports Trust
begin

text \<open>
  The policy vocabulary for external agents, MCP servers, forges and recipes, and the identity
  evidence an authorization is bound to.

  Source: \<open>harkness-runtime/src/integration/binding.rs\<close> and \<open>policy/integration.rs\<close>. The serde
  deserialization of a stored context is not modelled; its version check is (\<open>schema_version\<close>
  is a field that \<open>PolicyDecision_validate\<close> reads).
\<close>

section \<open>Identity evidence\<close>

text \<open>A \<open>Sha256Hash\<close> holds the 32 bytes of a digest.\<close>

datatype sha256_hash = Sha256Hash "8 word list"

record integration_identity =
  agent_executable_sha256 :: "sha256_hash option"
  mcp_tool_schema_fingerprint :: "sha256_hash option"
  recipe_content_hash :: "sha256_hash option"

definition IntegrationIdentity_none :: integration_identity where
  "IntegrationIdentity_none =
     \<lparr>agent_executable_sha256 = None, mcp_tool_schema_fingerprint = None,
      recipe_content_hash = None\<rparr>"

definition IntegrationIdentity_is_empty :: "integration_identity \<Rightarrow> bool" where
  "IntegrationIdentity_is_empty i \<longleftrightarrow>
     agent_executable_sha256 i = None \<and> mcp_tool_schema_fingerprint i = None
     \<and> recipe_content_hash i = None"

lemma IntegrationIdentity_is_empty_iff:
  "IntegrationIdentity_is_empty i \<longleftrightarrow> i = IntegrationIdentity_none"
  by (auto simp: IntegrationIdentity_is_empty_def IntegrationIdentity_none_def)

section \<open>External capabilities\<close>

datatype external_capability =
    LaunchExternalAgent | ConnectMcpServer | InvokeMcpTool | ReadForgeResource
  | PushRemoteBranch | CreatePullRequest | ModifyForgeResource | ExecuteWorkflowRecipe

definition ExternalCapability_ALL :: "external_capability list" where
  "ExternalCapability_ALL =
     [LaunchExternalAgent, ConnectMcpServer, InvokeMcpTool, ReadForgeResource,
      PushRemoteBranch, CreatePullRequest, ModifyForgeResource, ExecuteWorkflowRecipe]"

primrec ExternalCapability_as_str :: "external_capability \<Rightarrow> string" where
  "ExternalCapability_as_str LaunchExternalAgent = ''launch_external_agent''"
| "ExternalCapability_as_str ConnectMcpServer = ''connect_mcp_server''"
| "ExternalCapability_as_str InvokeMcpTool = ''invoke_mcp_tool''"
| "ExternalCapability_as_str ReadForgeResource = ''read_forge_resource''"
| "ExternalCapability_as_str PushRemoteBranch = ''push_remote_branch''"
| "ExternalCapability_as_str CreatePullRequest = ''create_pull_request''"
| "ExternalCapability_as_str ModifyForgeResource = ''modify_forge_resource''"
| "ExternalCapability_as_str ExecuteWorkflowRecipe = ''execute_workflow_recipe''"

definition ExternalCapability_from_capability :: "capability \<Rightarrow> external_capability option" where
  "ExternalCapability_from_capability c =
     find_spelling ExternalCapability_ALL ExternalCapability_as_str (capability_str c)"

definition ExternalCapability_capability :: "external_capability \<Rightarrow> registry_error + capability" where
  "ExternalCapability_capability k = Capability_new (ExternalCapability_as_str k)"

definition ExternalCapability_risk_floor :: "external_capability \<Rightarrow> risk_level \<Rightarrow> risk_level" where
  "ExternalCapability_risk_floor k classified =
     (case k of
        LaunchExternalAgent \<Rightarrow> max classified Execute
      | ConnectMcpServer \<Rightarrow> max classified Execute
      | InvokeMcpTool \<Rightarrow> max classified Execute
      | ReadForgeResource \<Rightarrow> max classified Network
      | PushRemoteBranch \<Rightarrow> max classified RemoteWrite
      | CreatePullRequest \<Rightarrow> max classified RemoteWrite
      | ModifyForgeResource \<Rightarrow> max classified RemoteWrite
      | ExecuteWorkflowRecipe \<Rightarrow> classified)"

primrec noninteractive_denial_kind :: "external_capability \<Rightarrow> string" where
  "noninteractive_denial_kind LaunchExternalAgent = ''noninteractive_external_agent_launch_denied''"
| "noninteractive_denial_kind ConnectMcpServer = ''noninteractive_mcp_server_connect_denied''"
| "noninteractive_denial_kind InvokeMcpTool = ''noninteractive_mcp_tool_invoke_denied''"
| "noninteractive_denial_kind ReadForgeResource = ''noninteractive_forge_resource_read_denied''"
| "noninteractive_denial_kind PushRemoteBranch = ''noninteractive_remote_branch_push_denied''"
| "noninteractive_denial_kind CreatePullRequest = ''noninteractive_pull_request_create_denied''"
| "noninteractive_denial_kind ModifyForgeResource =
     ''noninteractive_forge_resource_modify_denied''"
| "noninteractive_denial_kind ExecuteWorkflowRecipe =
     ''noninteractive_workflow_recipe_execute_denied''"

definition EXTERNAL_POLICY_DENIAL_KINDS :: "string list" where
  "EXTERNAL_POLICY_DENIAL_KINDS =
     [''noninteractive_external_agent_launch_denied'',
      ''noninteractive_mcp_server_connect_denied'',
      ''noninteractive_mcp_tool_invoke_denied'',
      ''noninteractive_forge_resource_read_denied'',
      ''noninteractive_remote_branch_push_denied'',
      ''noninteractive_pull_request_create_denied'',
      ''noninteractive_forge_resource_modify_denied'',
      ''noninteractive_workflow_recipe_execute_denied'',
      ''agent_executable_identity_required'',
      ''mcp_tool_schema_identity_required'',
      ''recipe_content_identity_required'',
      ''external_identity_context_invalid'']"

definition identity_shape_ok :: "external_capability \<Rightarrow> integration_identity \<Rightarrow> bool" where
  "identity_shape_ok k i =
     (let executable = agent_executable_sha256 i \<noteq> None;
          schema = mcp_tool_schema_fingerprint i \<noteq> None;
          recipe = recipe_content_hash i \<noteq> None
      in case k of
           LaunchExternalAgent \<Rightarrow> executable \<and> \<not> schema \<and> \<not> recipe
         | ConnectMcpServer \<Rightarrow> executable \<and> \<not> schema \<and> \<not> recipe
         | InvokeMcpTool \<Rightarrow> \<not> executable \<and> schema \<and> \<not> recipe
         | ExecuteWorkflowRecipe \<Rightarrow> \<not> executable \<and> \<not> schema \<and> recipe
         | ReadForgeResource \<Rightarrow> \<not> executable \<and> \<not> schema \<and> \<not> recipe
         | PushRemoteBranch \<Rightarrow> \<not> executable \<and> \<not> schema \<and> \<not> recipe
         | CreatePullRequest \<Rightarrow> \<not> executable \<and> \<not> schema \<and> \<not> recipe
         | ModifyForgeResource \<Rightarrow> \<not> executable \<and> \<not> schema \<and> \<not> recipe)"

definition validate_identity_shape ::
  "external_capability \<Rightarrow> integration_identity \<Rightarrow> string + unit" where
  "validate_identity_shape k i =
     ensure (identity_shape_ok k i)
       ''external operation carries missing or irrelevant identity evidence''"

interpretation external_spelling: stable_spelling ExternalCapability_ALL ExternalCapability_as_str
proof
  fix k show "k \<in> set ExternalCapability_ALL"
    by (cases k) (simp_all add: ExternalCapability_ALL_def)
qed (simp add: ExternalCapability_ALL_def)

lemma risk_floor_ge: "classified \<le> ExternalCapability_risk_floor k classified"
  by (cases k) (simp_all add: ExternalCapability_risk_floor_def)

section \<open>The context of one external request\<close>

datatype acp_permission_option = AllowOnce | AllowAlways | RejectOnce | RejectAlways

record mcp_tool_annotations =
  read_only_hint :: "bool option"
  destructive_hint :: "bool option"
  idempotent_hint :: "bool option"
  open_world_hint :: "bool option"

record external_permission_context =
  acp_option :: "acp_permission_option option"
  mcp_annotations :: "mcp_tool_annotations option"

definition EXTERNAL_POLICY_CONTEXT_SCHEMA_VERSION :: u32 where
  "EXTERNAL_POLICY_CONTEXT_SCHEMA_VERSION = 1"

record external_policy_context =
  ctx_schema_version :: u32
  ctx_capability :: external_capability
  ctx_classified_risk :: risk_level
  ctx_identity :: integration_identity
  ctx_permission :: "external_permission_context option"

definition ExternalPolicyContext_from_parts ::
  "external_capability \<Rightarrow> risk_level \<Rightarrow> integration_identity \<Rightarrow> external_policy_context" where
  "ExternalPolicyContext_from_parts k risk i =
     \<lparr>ctx_schema_version = EXTERNAL_POLICY_CONTEXT_SCHEMA_VERSION, ctx_capability = k,
      ctx_classified_risk = risk, ctx_identity = i, ctx_permission = None\<rparr>"

definition ExternalPolicyContext_fixed ::
  "external_capability \<Rightarrow> integration_identity \<Rightarrow> external_policy_context" where
  "ExternalPolicyContext_fixed k i =
     ExternalPolicyContext_from_parts k
       (case k of
          LaunchExternalAgent \<Rightarrow> Execute | ConnectMcpServer \<Rightarrow> Execute | InvokeMcpTool \<Rightarrow> Execute
        | ReadForgeResource \<Rightarrow> Network
        | PushRemoteBranch \<Rightarrow> RemoteWrite | CreatePullRequest \<Rightarrow> RemoteWrite
        | ModifyForgeResource \<Rightarrow> RemoteWrite
        | ExecuteWorkflowRecipe \<Rightarrow> Observe) i"

definition launch_external_agent :: "sha256_hash option \<Rightarrow> external_policy_context" where
  "launch_external_agent executable =
     ExternalPolicyContext_fixed LaunchExternalAgent
       (IntegrationIdentity_none\<lparr>agent_executable_sha256 := executable\<rparr>)"

definition connect_mcp_server :: "sha256_hash option \<Rightarrow> external_policy_context" where
  "connect_mcp_server executable =
     ExternalPolicyContext_fixed ConnectMcpServer
       (IntegrationIdentity_none\<lparr>agent_executable_sha256 := executable\<rparr>)"

definition invoke_mcp_tool ::
  "request_classification \<Rightarrow> sha256_hash option \<Rightarrow> external_policy_context" where
  "invoke_mcp_tool classification schema =
     ExternalPolicyContext_from_parts InvokeMcpTool (classification_risk classification)
       (IntegrationIdentity_none\<lparr>mcp_tool_schema_fingerprint := schema\<rparr>)"

definition read_forge_resource :: external_policy_context where
  "read_forge_resource = ExternalPolicyContext_fixed ReadForgeResource IntegrationIdentity_none"

definition push_remote_branch :: external_policy_context where
  "push_remote_branch = ExternalPolicyContext_fixed PushRemoteBranch IntegrationIdentity_none"

definition create_pull_request :: external_policy_context where
  "create_pull_request = ExternalPolicyContext_fixed CreatePullRequest IntegrationIdentity_none"

definition modify_forge_resource :: external_policy_context where
  "modify_forge_resource = ExternalPolicyContext_fixed ModifyForgeResource IntegrationIdentity_none"

definition execute_workflow_recipe ::
  "risk_level list \<Rightarrow> sha256_hash option \<Rightarrow> external_policy_context" where
  "execute_workflow_recipe step_risks content =
     ExternalPolicyContext_from_parts ExecuteWorkflowRecipe
       (case step_risks of [] \<Rightarrow> Observe | r # rs \<Rightarrow> fold max rs r)
       (IntegrationIdentity_none\<lparr>recipe_content_hash := content\<rparr>)"

definition with_permission_context ::
  "external_permission_context \<Rightarrow> external_policy_context \<Rightarrow> external_policy_context" where
  "with_permission_context p c = c\<lparr>ctx_permission := Some p\<rparr>"

definition ctx_risk_floor :: "external_policy_context \<Rightarrow> risk_level" where
  "ctx_risk_floor c = ExternalCapability_risk_floor (ctx_capability c) (ctx_classified_risk c)"

definition validate_declaration :: "external_policy_context \<Rightarrow> capability list \<Rightarrow> string + unit" where
  "validate_declaration c declared =
     ensure (list_ex (\<lambda>k. capability_str k = ExternalCapability_as_str (ctx_capability c)) declared)
       ''external policy context names a capability the tool did not declare''"

definition identity_denial_kind :: "external_policy_context \<Rightarrow> string option" where
  "identity_denial_kind c =
     (case ctx_capability c of
        LaunchExternalAgent \<Rightarrow>
          if agent_executable_sha256 (ctx_identity c) = None
          then Some ''agent_executable_identity_required'' else None
      | ConnectMcpServer \<Rightarrow>
          if agent_executable_sha256 (ctx_identity c) = None
          then Some ''agent_executable_identity_required'' else None
      | InvokeMcpTool \<Rightarrow>
          if mcp_tool_schema_fingerprint (ctx_identity c) = None
          then Some ''mcp_tool_schema_identity_required'' else None
      | ExecuteWorkflowRecipe \<Rightarrow>
          if recipe_content_hash (ctx_identity c) = None
          then Some ''recipe_content_identity_required'' else None
      | _ \<Rightarrow> None)"

definition has_irrelevant_identity :: "external_policy_context \<Rightarrow> bool" where
  "has_irrelevant_identity c =
     (let executable = agent_executable_sha256 (ctx_identity c) \<noteq> None;
          schema = mcp_tool_schema_fingerprint (ctx_identity c) \<noteq> None;
          recipe = recipe_content_hash (ctx_identity c) \<noteq> None
      in case ctx_capability c of
           LaunchExternalAgent \<Rightarrow> schema \<or> recipe
         | ConnectMcpServer \<Rightarrow> schema \<or> recipe
         | InvokeMcpTool \<Rightarrow> executable \<or> recipe
         | ExecuteWorkflowRecipe \<Rightarrow> executable \<or> schema
         | ReadForgeResource \<Rightarrow> executable \<or> schema \<or> recipe
         | PushRemoteBranch \<Rightarrow> executable \<or> schema \<or> recipe
         | CreatePullRequest \<Rightarrow> executable \<or> schema \<or> recipe
         | ModifyForgeResource \<Rightarrow> executable \<or> schema \<or> recipe)"

definition invalid_identity_denial_kind :: "external_policy_context \<Rightarrow> string option" where
  "invalid_identity_denial_kind c =
     (if has_irrelevant_identity c then Some ''external_identity_context_invalid''
      else identity_denial_kind c)"

lemma identity_shape_iff_no_denial:
  "identity_shape_ok (ctx_capability c) (ctx_identity c) \<longleftrightarrow> invalid_identity_denial_kind c = None"
  by (cases "ctx_capability c")
    (auto simp: identity_shape_ok_def invalid_identity_denial_kind_def has_irrelevant_identity_def
      identity_denial_kind_def Let_def split: if_splits)

lemma invalid_identity_kind_known:
  "invalid_identity_denial_kind c = Some k \<Longrightarrow> k \<in> set EXTERNAL_POLICY_DENIAL_KINDS"
  by (cases "ctx_capability c")
    (auto simp: invalid_identity_denial_kind_def identity_denial_kind_def
      EXTERNAL_POLICY_DENIAL_KINDS_def split: if_splits)

lemma noninteractive_kind_known:
  "noninteractive_denial_kind k \<in> set EXTERNAL_POLICY_DENIAL_KINDS"
  by (cases k) (simp_all add: EXTERNAL_POLICY_DENIAL_KINDS_def)

end
