(* ===== verification/Policy.thy ===== *)
theory Policy
  imports External_Policy
begin

text \<open>
  Layered policy rules and the evaluation of one tool request.

  Source: \<open>harkness-runtime/src/policy.rs\<close>. A request, a loaded policy file, the engine and the
  decision are records; \<open>evaluate\<close> is the pure function of the code, split into the refusals that
  precede the layers (\<open>evaluate_external_guard\<close>) and the layered part. Reading a file is modelled
  over an explicit view of the filesystem and the two serde parses, which are arguments. Writing a
  policy file (\<open>persist_file\<close>) is I/O and is not modelled.
\<close>

section \<open>Verdicts and sources\<close>

datatype policy_verdict = Allow | Ask | Deny

primrec verdict_rank :: "policy_verdict \<Rightarrow> nat" where
  "verdict_rank Allow = 0"
| "verdict_rank Ask = 1"
| "verdict_rank Deny = 2"

instantiation policy_verdict :: linorder
begin

definition less_eq_policy_verdict :: "policy_verdict \<Rightarrow> policy_verdict \<Rightarrow> bool" where
  "less_eq_policy_verdict a b = (verdict_rank a \<le> verdict_rank b)"

definition less_policy_verdict :: "policy_verdict \<Rightarrow> policy_verdict \<Rightarrow> bool" where
  "less_policy_verdict a b = (verdict_rank a < verdict_rank b)"

instance
proof
  fix a b :: policy_verdict
  show "a \<le> b \<Longrightarrow> b \<le> a \<Longrightarrow> a = b"
    by (cases a; cases b) (simp_all add: less_eq_policy_verdict_def)
qed (auto simp: less_eq_policy_verdict_def less_policy_verdict_def)

end

lemmas verdict_order = less_eq_policy_verdict_def less_policy_verdict_def

primrec PolicyVerdict_as_str :: "policy_verdict \<Rightarrow> string" where
  "PolicyVerdict_as_str Allow = ''allow''"
| "PolicyVerdict_as_str Ask = ''ask''"
| "PolicyVerdict_as_str Deny = ''deny''"

datatype policy_source = BuiltIn | UserPolicySource | RepositoryPolicySource | RunGrantSource

primrec PolicySource_as_str :: "policy_source \<Rightarrow> string" where
  "PolicySource_as_str BuiltIn = ''built_in''"
| "PolicySource_as_str UserPolicySource = ''user_policy''"
| "PolicySource_as_str RepositoryPolicySource = ''repository_policy''"
| "PolicySource_as_str RunGrantSource = ''run_grant''"

section \<open>Decisions\<close>

record policy_decision =
  decision_verdict :: policy_verdict
  decision_reason :: string
  decision_source :: policy_source
  decision_one_call_only :: bool
  decision_external_request :: "external_policy_context option"
  decision_denial_kind :: "string option"

definition PolicyDecision_new ::
  "policy_verdict \<Rightarrow> string \<Rightarrow> policy_source \<Rightarrow> bool \<Rightarrow> policy_decision" where
  "PolicyDecision_new verdict reason source one_call_only =
     \<lparr>decision_verdict = verdict, decision_reason = reason, decision_source = source,
      decision_one_call_only = one_call_only, decision_external_request = None,
      decision_denial_kind = None\<rparr>"

definition denied_as :: "string \<Rightarrow> policy_decision \<Rightarrow> policy_decision" where
  "denied_as kind d = d\<lparr>decision_denial_kind := Some kind\<rparr>"

text \<open>The part of \<open>PolicyDecision::validate\<close> that reads the external request.\<close>

definition validate_external_evidence :: "policy_decision \<Rightarrow> string + unit" where
  "validate_external_evidence d =
     (case decision_external_request d of
        Some external \<Rightarrow>
          if ctx_schema_version external \<noteq> EXTERNAL_POLICY_CONTEXT_SCHEMA_VERSION
          then Inl ''external policy context was written by a newer Harkness build''
          else (case validate_identity_shape (ctx_capability external) (ctx_identity external) of
              Inl _ \<Rightarrow>
                if \<not> (decision_verdict d = Deny
                        \<and> decision_denial_kind d = invalid_identity_denial_kind external)
                then Inl ''external policy context carries missing or irrelevant identity evidence''
                else Inr ()
            | Inr _ \<Rightarrow>
                (case decision_denial_kind d of
                   Some kind \<Rightarrow>
                     if kind \<noteq> noninteractive_denial_kind (ctx_capability external)
                        \<and> kind \<noteq> ''external_identity_context_invalid''
                     then Inl ''external denial kind does not match the evaluated request''
                     else Inr ()
                 | None \<Rightarrow> Inr ()))
      | None \<Rightarrow>
          if decision_denial_kind d \<noteq> None
             \<and> decision_denial_kind d \<noteq> Some ''external_identity_context_invalid''
          then Inl ''an external denial kind requires an external request context''
          else Inr ())"

definition PolicyDecision_validate :: "policy_decision \<Rightarrow> string + unit" where
  "PolicyDecision_validate d =
     (if trim_is_empty (decision_reason d)
      then Inl ''policy decisions require a non-empty reason''
      else if decision_one_call_only d \<and> decision_verdict d \<noteq> Ask
      then Inl ''only an approval request may be marked one-call-only''
      else if decision_source d = RunGrantSource \<and> decision_verdict d \<noteq> Allow
      then Inl ''a run grant may only produce an allow decision''
      else if decision_denial_kind d \<noteq> None \<and> decision_verdict d \<noteq> Deny
      then Inl ''only a denial may carry a denial kind''
      else if (case decision_denial_kind d of
                 Some kind \<Rightarrow> kind \<notin> set EXTERNAL_POLICY_DENIAL_KINDS | None \<Rightarrow> False)
      then Inl ''policy decision carries an unknown external denial kind''
      else validate_external_evidence d)"

section \<open>Grants and requests\<close>

datatype run_grant_scope = GrantExactCall | GrantToolForRun | GrantCapabilityForRun

record run_grant =
  grant_scope :: run_grant_scope
  grant_integration_identity :: integration_identity

definition RunGrant_matching :: "run_grant_scope \<Rightarrow> integration_identity \<Rightarrow> run_grant" where
  "RunGrant_matching scope i = \<lparr>grant_scope = scope, grant_integration_identity = i\<rparr>"

record ('w, 'v) policy_request =
  req_descriptor :: "('w, 'v) tool_descriptor"
  req_classification :: request_classification
  req_trust :: trust_state
  req_mode :: execution_mode
  req_paths :: "string list"
  req_grants :: "run_grant list"
  req_external :: "external_policy_context option"

definition PolicyRequest_new ::
  "('w, 'v) tool_descriptor \<Rightarrow> request_classification \<Rightarrow> trust_state \<Rightarrow> execution_mode \<Rightarrow>
   ('w, 'v) policy_request" where
  "PolicyRequest_new descriptor classification trust mode =
     \<lparr>req_descriptor = descriptor, req_classification = classification, req_trust = trust,
      req_mode = mode, req_paths = [], req_grants = [], req_external = None\<rparr>"

definition PolicyRequest_risk :: "('w, 'v) policy_request \<Rightarrow> risk_level" where
  "PolicyRequest_risk r =
     (let base = max (classification_risk (req_classification r)) (descriptor_risk (req_descriptor r))
      in case req_external r of None \<Rightarrow> base | Some external \<Rightarrow> max base (ctx_risk_floor external))"

definition for_request :: "('w, 'v) policy_request \<Rightarrow> policy_decision \<Rightarrow> policy_decision" where
  "for_request r d = d\<lparr>decision_external_request := req_external r\<rparr>"

section \<open>Policy files\<close>

definition POLICY_SCHEMA_VERSION :: u32 where "POLICY_SCHEMA_VERSION = 2"
definition MINIMUM_POLICY_SCHEMA_VERSION :: u32 where "MINIMUM_POLICY_SCHEMA_VERSION = 1"
definition MAX_POLICY_FILE_BYTES :: nat where "MAX_POLICY_FILE_BYTES = 64 * 1024"

record policy_file =
  file_version :: u32
  file_risks :: "risk_level \<rightharpoonup> policy_verdict"
  file_tools :: "(string \<times> policy_verdict) list"
  file_external_capabilities :: "external_capability \<rightharpoonup> policy_verdict"

definition PolicyFile_empty :: policy_file where
  "PolicyFile_empty =
     \<lparr>file_version = POLICY_SCHEMA_VERSION, file_risks = Map.empty, file_tools = [],
      file_external_capabilities = Map.empty\<rparr>"

datatype policy_load_error =
    PolicyUnreadable string string
  | PolicyMalformed string string
  | PolicyVersionTooNew string u32 u32

primrec PolicyLoadError_display :: "policy_load_error \<Rightarrow> string" where
  "PolicyLoadError_display (PolicyUnreadable path reason) =
     ''policy file '' @ path @ '' is unreadable: '' @ reason"
| "PolicyLoadError_display (PolicyMalformed path reason) =
     ''policy file '' @ path @ '' is malformed: '' @ reason"
| "PolicyLoadError_display (PolicyVersionTooNew path found maximum) =
     ''policy file '' @ path @ '' uses version '' @ show_nat (unat found)
     @ '', newer than supported version '' @ show_nat (unat maximum) @ ''; upgrade Harkness''"

text \<open>\<open>max_by_key\<close> keeps the last of several maximal elements.\<close>

fun max_by_verdict :: "(policy_verdict \<times> string) list \<Rightarrow> (policy_verdict \<times> string) option" where
  "max_by_verdict [] = None"
| "max_by_verdict (x # xs) =
     (case max_by_verdict xs of
        None \<Rightarrow> Some x
      | Some y \<Rightarrow> if fst x \<le> fst y then Some y else Some x)"

definition option_list :: "'a option \<Rightarrow> 'a list" where
  "option_list x = (case x of None \<Rightarrow> [] | Some y \<Rightarrow> [y])"

definition PolicyFile_selected ::
  "policy_file \<Rightarrow> ('w, 'v) policy_request \<Rightarrow> (policy_verdict \<times> string) option" where
  "PolicyFile_selected f r =
     (let name = tool_id_str (descriptor_id (req_descriptor r));
          risk = PolicyRequest_risk r;
          tool_rule = map_option (\<lambda>v. (v, ''tool '' @ name)) (map_of (file_tools f) name);
          risk_rule = map_option (\<lambda>v. (v, ''risk '' @ RiskLevel_as_str risk)) (file_risks f risk);
          external_rule =
            (case req_external r of
               None \<Rightarrow> None
             | Some context \<Rightarrow>
                 map_option
                   (\<lambda>v. (v, ''external capability ''
                          @ ExternalCapability_as_str (ctx_capability context)))
                   (file_external_capabilities f (ctx_capability context)))
      in max_by_verdict (option_list tool_rule @ option_list risk_rule @ option_list external_rule))"

text \<open>
  \<open>id.parse::<ToolId>()\<close> in the loop over the tool keys: the first key that is no identifier.
  \<open>show_error\<close> renders the key and the parse error into the reason (a Debug format).
\<close>

fun validate_tool_keys ::
  "(string \<Rightarrow> registry_error \<Rightarrow> string) \<Rightarrow> string \<Rightarrow> string list \<Rightarrow> policy_load_error + unit" where
  "validate_tool_keys show_error path [] = Inr ()"
| "validate_tool_keys show_error path (key # keys) =
     (case ToolId_new key of
        Inl error \<Rightarrow> Inl (PolicyMalformed path (show_error key error))
      | Inr _ \<Rightarrow> validate_tool_keys show_error path keys)"

definition PolicyFile_validate ::
  "(string \<Rightarrow> registry_error \<Rightarrow> string) \<Rightarrow> string \<Rightarrow> policy_file \<Rightarrow> policy_load_error + unit" where
  "PolicyFile_validate show_error path f =
     (if file_version f < MINIMUM_POLICY_SCHEMA_VERSION
      then Inl (PolicyMalformed path
        (''unsupported policy version '' @ show_nat (unat (file_version f))
         @ ''; the minimum supported version is ''
         @ show_nat (unat MINIMUM_POLICY_SCHEMA_VERSION)))
      else if file_version f = 1
              \<and> list_ex (\<lambda>k. file_external_capabilities f k \<noteq> None) ExternalCapability_ALL
      then Inl (PolicyMalformed path ''policy version 1 cannot carry external capability rules'')
      else validate_tool_keys show_error path (map fst (file_tools f)))"

definition PolicyFile_validate_repository :: "string \<Rightarrow> policy_file \<Rightarrow> policy_load_error + unit" where
  "PolicyFile_validate_repository path f =
     (case find (\<lambda>k. file_external_capabilities f k = Some Allow) ExternalCapability_ALL of
        Some capability \<Rightarrow>
          Inl (PolicyMalformed path
            (''repository policy may not grant allow for external capability ''
             @ ExternalCapability_as_str capability))
      | None \<Rightarrow> Inr ())"

subsection \<open>Builders\<close>

definition PolicyFile_with_risk ::
  "risk_level \<Rightarrow> policy_verdict \<Rightarrow> policy_file \<Rightarrow> policy_file" where
  "PolicyFile_with_risk risk verdict f = f\<lparr>file_risks := (file_risks f)(risk \<mapsto> verdict)\<rparr>"

definition PolicyFile_with_tool ::
  "tool_id \<Rightarrow> policy_verdict \<Rightarrow> policy_file \<Rightarrow> policy_file" where
  "PolicyFile_with_tool tool verdict f =
     f\<lparr>file_tools := btree_insert (tool_id_str tool) verdict (file_tools f)\<rparr>"

definition PolicyFile_with_external_capability ::
  "external_capability \<Rightarrow> policy_verdict \<Rightarrow> policy_file \<Rightarrow> policy_file" where
  "PolicyFile_with_external_capability k verdict f =
     f\<lparr>file_external_capabilities := (file_external_capabilities f)(k \<mapsto> verdict)\<rparr>"

subsection \<open>Loading\<close>

text \<open>
  \<open>metadata\<close> and \<open>read_file\<close> are what the filesystem answers at the moment of the load;
  \<open>read_file\<close> returns the whole file, of which the code reads one byte past the bound.
  \<open>probe\<close> and \<open>parse\<close> are the two \<open>serde_json::from_slice\<close> calls.
\<close>

datatype metadata_answer = MetadataNotFound | MetadataError string | MetadataRegular | MetadataOther

record policy_loader =
  metadata_of :: "string \<Rightarrow> metadata_answer"
  read_file :: "string \<Rightarrow> string + string"
  probe :: "string \<Rightarrow> string + u32"
  parse_policy :: "string \<Rightarrow> string + policy_file"
  show_key_error :: "string \<Rightarrow> registry_error \<Rightarrow> string"

definition read_bounded :: "policy_loader \<Rightarrow> string \<Rightarrow> policy_load_error + string option" where
  "read_bounded L path =
     (case metadata_of L path of
        MetadataNotFound \<Rightarrow> Inr None
      | MetadataError reason \<Rightarrow> Inl (PolicyUnreadable path reason)
      | MetadataOther \<Rightarrow> Inl (PolicyUnreadable path ''it is not a regular file'')
      | MetadataRegular \<Rightarrow>
          (case read_file L path of
             Inl reason \<Rightarrow> Inl (PolicyUnreadable path reason)
           | Inr content \<Rightarrow>
               (let bytes = take (MAX_POLICY_FILE_BYTES + 1) content
                in if MAX_POLICY_FILE_BYTES < length bytes
                   then Inl (PolicyUnreadable path
                     (''it exceeds the '' @ show_nat MAX_POLICY_FILE_BYTES
                      @ ''-byte maximum policy size''))
                   else Inr (Some bytes))))"

definition load_optional_file :: "policy_loader \<Rightarrow> string \<Rightarrow> policy_load_error + policy_file option" where
  "load_optional_file L path =
     (case read_bounded L path of
        Inl e \<Rightarrow> Inl e
      | Inr None \<Rightarrow> Inr None
      | Inr (Some bytes) \<Rightarrow>
          (case probe L bytes of
             Inl reason \<Rightarrow> Inl (PolicyMalformed path reason)
           | Inr version \<Rightarrow>
               if POLICY_SCHEMA_VERSION < version
               then Inl (PolicyVersionTooNew path version POLICY_SCHEMA_VERSION)
               else (case parse_policy L bytes of
                   Inl reason \<Rightarrow> Inl (PolicyMalformed path reason)
                 | Inr policy \<Rightarrow>
                     res_bind (PolicyFile_validate (show_key_error L) path policy) (\<lambda>_.
                       Inr (Some (policy\<lparr>file_version := POLICY_SCHEMA_VERSION\<rparr>))))))"

definition load_file :: "policy_loader \<Rightarrow> string \<Rightarrow> policy_load_error + policy_file" where
  "load_file L path =
     res_bind (load_optional_file L path) (\<lambda>f.
       Inr (case f of None \<Rightarrow> PolicyFile_empty | Some policy \<Rightarrow> policy))"

definition RepositoryPolicy_load :: "policy_loader \<Rightarrow> string \<Rightarrow> policy_load_error + policy_file" where
  "RepositoryPolicy_load L path =
     res_bind (load_file L path) (\<lambda>policy.
       res_bind (PolicyFile_validate_repository path policy) (\<lambda>_. Inr policy))"

text \<open>
  \<open>resolved_path\<close> is what \<open>PathBoundary\<close> resolves \<open>.harkness/policy.json\<close> to, or the rendered
  boundary error; \<open>nominal\<close> is the joined path named in the error.
\<close>

definition load_repository_policy ::
  "policy_loader \<Rightarrow> string \<Rightarrow> string + string \<Rightarrow> policy_load_error + policy_file option" where
  "load_repository_policy L nominal resolved_path =
     (case resolved_path of
        Inl reason \<Rightarrow> Inl (PolicyUnreadable nominal reason)
      | Inr path \<Rightarrow>
          res_bind (load_optional_file L path) (\<lambda>policy.
            (case policy of
               None \<Rightarrow> Inr None
             | Some f \<Rightarrow>
                 res_bind (PolicyFile_validate_repository path f) (\<lambda>_. Inr (Some f)))))"

section \<open>The engine\<close>

datatype 'a loaded_policy = Loaded 'a | Failed policy_load_error

record policy_engine =
  engine_user :: "policy_file loaded_policy"
  engine_repository :: "policy_file option loaded_policy"

definition PolicyEngine_new :: "policy_file \<Rightarrow> policy_file option \<Rightarrow> policy_engine" where
  "PolicyEngine_new user repository =
     \<lparr>engine_user = Loaded user, engine_repository = Loaded repository\<rparr>"

definition loaded_of :: "policy_load_error + 'a \<Rightarrow> 'a loaded_policy" where
  "loaded_of r = (case r of Inr policy \<Rightarrow> Loaded policy | Inl error \<Rightarrow> Failed error)"

definition PolicyEngine_load ::
  "policy_loader \<Rightarrow> string \<Rightarrow> string \<Rightarrow> string + string \<Rightarrow> policy_engine" where
  "PolicyEngine_load L user_path nominal resolved_path =
     \<lparr>engine_user = loaded_of (load_file L user_path),
      engine_repository = loaded_of (load_repository_policy L nominal resolved_path)\<rparr>"

definition PolicyEngine_for_workspace ::
  "policy_loader \<Rightarrow> policy_engine \<Rightarrow> string \<Rightarrow> string + string \<Rightarrow> policy_engine" where
  "PolicyEngine_for_workspace L e nominal resolved_path =
     \<lparr>engine_user = engine_user e,
      engine_repository = loaded_of (load_repository_policy L nominal resolved_path)\<rparr>"

primrec risk_label :: "risk_level \<Rightarrow> string" where
  "risk_label Observe = ''observation''"
| "risk_label WorkspaceWrite = ''workspace write''"
| "risk_label Execute = ''execution''"
| "risk_label Network = ''network access''"
| "risk_label RemoteWrite = ''remote write''"
| "risk_label Destructive = ''destructive work''"

definition built_in_verdict :: "trust_state \<Rightarrow> risk_level \<Rightarrow> policy_verdict" where
  "built_in_verdict trust risk =
     (case (trust, risk) of
        (Trusted, Observe) \<Rightarrow> Allow
      | (Trusted, _) \<Rightarrow> Ask
      | (Untrusted, Observe) \<Rightarrow> Ask
      | (Untrusted, _) \<Rightarrow> Deny)"

text \<open>The last arm of the match on the reason is \<open>unreachable!()\<close>: \<open>built_in_unreachable\<close>.\<close>

definition built_in_reason :: "trust_state \<Rightarrow> risk_level \<Rightarrow> policy_verdict \<Rightarrow> string option" where
  "built_in_reason trust risk verdict =
     (case (trust, verdict) of
        (Untrusted, Deny) \<Rightarrow> Some ''denied: workspace is untrusted''
      | (Untrusted, Ask) \<Rightarrow>
          Some ''workspace observation requires approval because the workspace is untrusted''
      | (_, Allow) \<Rightarrow>
          Some (RiskLevel_as_str risk @ '' is allowed by the trusted-workspace default'')
      | (_, Ask) \<Rightarrow>
          Some (risk_label risk @ '' requires approval (built-in default for ''
                @ RiskLevel_as_str risk @ '')'')
      | (_, Deny) \<Rightarrow> None)"

definition built_in :: "('w, 'v) policy_request \<Rightarrow> policy_verdict \<times> policy_source \<times> string" where
  "built_in r =
     (let trust = req_trust r; risk = PolicyRequest_risk r; verdict = built_in_verdict trust risk
      in (verdict, BuiltIn, the (built_in_reason trust risk verdict)))"

lemma built_in_unreachable: "built_in_reason t r (built_in_verdict t r) \<noteq> None"
  by (cases t; cases r) (simp_all add: built_in_verdict_def built_in_reason_def)

definition fold_layer ::
  "policy_verdict \<times> policy_source \<times> string \<Rightarrow> (policy_verdict \<times> string) option \<Rightarrow>
   policy_source \<Rightarrow> policy_verdict \<times> policy_source \<times> string" where
  "fold_layer acc selected layer =
     (case selected of
        None \<Rightarrow> acc
      | Some (candidate, selector) \<Rightarrow>
          if fst acc < candidate
          then (candidate, layer,
                PolicyVerdict_as_str candidate @ '' by '' @ PolicySource_as_str layer
                @ '' rule for '' @ selector)
          else acc)"

definition load_failure :: "policy_load_error \<Rightarrow> policy_source \<Rightarrow> policy_decision" where
  "load_failure e source =
     PolicyDecision_new Deny (''denied: '' @ PolicyLoadError_display e) source False"

definition declared_external :: "('w, 'v) policy_request \<Rightarrow> external_capability list" where
  "declared_external r =
     List.map_filter ExternalCapability_from_capability
       (descriptor_capabilities (req_descriptor r))"

definition evaluate_external_guard :: "('w, 'v) policy_request \<Rightarrow> policy_decision option" where
  "evaluate_external_guard r =
     (if 1 < length (declared_external r)
      then Some (denied_as ''external_identity_context_invalid'' (for_request r
        (PolicyDecision_new Deny
          ''denied: a tool call must declare exactly one external operation'' BuiltIn False)))
      else if length (declared_external r) = 1 \<and> req_external r = None
      then Some (denied_as ''external_identity_context_invalid'' (for_request r
        (PolicyDecision_new Deny
          (''denied: '' @ ExternalCapability_as_str (hd (declared_external r))
           @ '' requires external policy context'') BuiltIn False)))
      else case req_external r of
          None \<Rightarrow> None
        | Some external \<Rightarrow>
            (case validate_declaration external (descriptor_capabilities (req_descriptor r)) of
               Inl reason \<Rightarrow>
                 Some (denied_as ''external_identity_context_invalid'' (for_request r
                   (PolicyDecision_new Deny (''denied: '' @ reason) BuiltIn False)))
             | Inr _ \<Rightarrow>
                 (case invalid_identity_denial_kind external of
                    Some kind \<Rightarrow>
                      Some (denied_as kind (for_request r
                        (PolicyDecision_new Deny
                          (''denied: '' @ ExternalCapability_as_str (ctx_capability external)
                           @ '' requires valid observed identity evidence before evaluation'')
                          BuiltIn False)))
                  | None \<Rightarrow> None)))"

definition layered_verdict ::
  "policy_file \<Rightarrow> policy_file option \<Rightarrow> ('w, 'v) policy_request \<Rightarrow>
   policy_verdict \<times> policy_source \<times> string" where
  "layered_verdict user repository r =
     (let acc = fold_layer (built_in r) (PolicyFile_selected user r) UserPolicySource
      in case repository of
           None \<Rightarrow> acc
         | Some f \<Rightarrow> fold_layer acc (PolicyFile_selected f r) RepositoryPolicySource)"

definition exact_only :: "('w, 'v) policy_request \<Rightarrow> bool" where
  "exact_only r = remote_or_destructive (PolicyRequest_risk r)"

definition grant_answers :: "('w, 'v) policy_request \<Rightarrow> run_grant \<Rightarrow> bool" where
  "grant_answers r g \<longleftrightarrow>
     (\<not> exact_only r \<or> grant_scope g = GrantExactCall)
     \<and> (case req_external r of
          None \<Rightarrow> IntegrationIdentity_is_empty (grant_integration_identity g)
        | Some external \<Rightarrow> grant_integration_identity g = ctx_identity external)"

definition settle ::
  "('w, 'v) policy_request \<Rightarrow> policy_verdict \<times> policy_source \<times> string \<Rightarrow> policy_decision" where
  "settle r acc =
     (case acc of (verdict, source, reason) \<Rightarrow>
        if verdict = Ask \<and> list_ex (grant_answers r) (req_grants r)
        then for_request r (PolicyDecision_new Allow
          ''allowed: a live run-scoped grant matches this request'' RunGrantSource False)
        else if verdict = Ask \<and> req_mode r = NonInteractive
        then (let decision = for_request r (PolicyDecision_new Deny
                (''denied: noninteractive execution cannot answer approval; '' @ reason)
                source False)
              in case req_external r of
                   None \<Rightarrow> decision
                 | Some external \<Rightarrow>
                     denied_as (noninteractive_denial_kind (ctx_capability external)) decision)
        else for_request r
          (PolicyDecision_new verdict reason source (verdict = Ask \<and> exact_only r)))"

definition evaluate :: "policy_engine \<Rightarrow> ('w, 'v) policy_request \<Rightarrow> policy_decision" where
  "evaluate e r =
     (case evaluate_external_guard r of
        Some refusal \<Rightarrow> refusal
      | None \<Rightarrow>
          let force_push = classification_force_push (req_classification r)
          in if is_forcing force_push
             then for_request r (PolicyDecision_new Deny
               (''denied: force push is not permitted in v0.3 ('' @ ForcePush_as_str force_push
                @ '')'') BuiltIn False)
             else (case engine_user e of
                 Failed error \<Rightarrow> for_request r (load_failure error UserPolicySource)
               | Loaded user \<Rightarrow>
                   (case engine_repository e of
                      Failed error \<Rightarrow> for_request r (load_failure error RepositoryPolicySource)
                    | Loaded repository \<Rightarrow> settle r (layered_verdict user repository r))))"

section \<open>What the layers and the last step do to a verdict\<close>

lemma fold_layer_ge: "fst acc \<le> fst (fold_layer acc selected layer)"
  by (auto simp: fold_layer_def split: option.splits)

lemma layered_ge_built_in: "fst (built_in r) \<le> fst (layered_verdict u p r)"
  unfolding layered_verdict_def Let_def
  by (cases p) (auto intro: order_trans fold_layer_ge)

lemma layered_ge_user: "fst (layered_verdict u None r) \<le> fst (layered_verdict u (Some f) r)"
  by (simp add: layered_verdict_def fold_layer_ge)

lemma built_in_fst: "fst (built_in r) = built_in_verdict (req_trust r) (PolicyRequest_risk r)"
  by (simp add: built_in_def Let_def)

lemma settle_verdict:
  "decision_verdict (settle r acc) =
     (if fst acc = Ask
      then if list_ex (grant_answers r) (req_grants r) then Allow
           else if req_mode r = NonInteractive then Deny else Ask
      else fst acc)"
  by (cases acc)
    (auto simp: settle_def for_request_def PolicyDecision_new_def denied_as_def Let_def
      split: option.splits)

lemma settle_mono: "fst a \<le> fst b \<Longrightarrow> decision_verdict (settle r a) \<le> decision_verdict (settle r b)"
  by (cases "fst a"; cases "fst b") (auto simp: settle_verdict verdict_order)

lemma guard_denies: "evaluate_external_guard r = Some d \<Longrightarrow> decision_verdict d = Deny"
  by (auto simp: evaluate_external_guard_def denied_as_def for_request_def PolicyDecision_new_def
      split: if_splits option.splits sum.splits)

lemma evaluate_verdict:
  "decision_verdict (evaluate e r) =
     (if evaluate_external_guard r \<noteq> None
         \<or> is_forcing (classification_force_push (req_classification r)) then Deny
      else case engine_user e of
          Failed _ \<Rightarrow> Deny
        | Loaded user \<Rightarrow>
            (case engine_repository e of
               Failed _ \<Rightarrow> Deny
             | Loaded repository \<Rightarrow>
                 decision_verdict (settle r (layered_verdict user repository r))))"
  by (auto simp: evaluate_def for_request_def PolicyDecision_new_def load_failure_def Let_def
      guard_denies split: option.splits loaded_policy.splits)

lemma verdict_bounds [simp]: "Allow \<le> v" "v \<le> Deny" for v :: policy_verdict
  by (cases v; simp add: verdict_order)+

lemma evaluate_default_le:
  "decision_verdict (evaluate (PolicyEngine_new u None) r) \<le>
     decision_verdict (evaluate (PolicyEngine_new u (Some f)) r)"
  by (simp add: evaluate_verdict PolicyEngine_new_def settle_mono layered_ge_user)

text \<open>The claim a permissive verdict makes: what must have been granted.\<close>

lemma settle_allow_cases:
  assumes "decision_verdict (settle r (layered_verdict u p r)) = Allow"
  shows "req_trust r = Trusted \<and> PolicyRequest_risk r = Observe
         \<or> decision_source (settle r (layered_verdict u p r)) = RunGrantSource
           \<and> (\<exists>g \<in> set (req_grants r). grant_answers r g)
           \<and> (req_trust r = Trusted \<or> PolicyRequest_risk r = Observe)"
proof -
  let ?acc = "layered_verdict u p r"
  have ge: "built_in_verdict (req_trust r) (PolicyRequest_risk r) \<le> fst ?acc"
    using layered_ge_built_in [of r u p] by (simp add: built_in_fst)
  show ?thesis
  proof (cases "fst ?acc = Ask")
    case True
    with assms have g: "list_ex (grant_answers r) (req_grants r)"
      by (auto simp: settle_verdict split: if_splits)
    from True ge have "req_trust r = Trusted \<or> PolicyRequest_risk r = Observe"
      by (cases "req_trust r"; cases "PolicyRequest_risk r")
        (auto simp: built_in_verdict_def verdict_order)
    with g True show ?thesis
      by (cases ?acc)
        (auto simp: settle_def for_request_def PolicyDecision_new_def list_ex_iff)
  next
    case False
    with assms have "fst ?acc = Allow"
      by (simp add: settle_verdict split: if_splits)
    with ge show ?thesis
      by (cases "req_trust r"; cases "PolicyRequest_risk r")
        (auto simp: built_in_verdict_def verdict_order)
  qed
qed

lemma evaluate_allow_cases:
  assumes "decision_verdict (evaluate e r) = Allow"
  shows "req_trust r = Trusted \<and> PolicyRequest_risk r = Observe
         \<or> decision_source (evaluate e r) = RunGrantSource
           \<and> (\<exists>g \<in> set (req_grants r). grant_answers r g)
           \<and> (req_trust r = Trusted \<or> PolicyRequest_risk r = Observe)"
proof -
  from assms have g: "evaluate_external_guard r = None"
    and f: "\<not> is_forcing (classification_force_push (req_classification r))"
    by (auto simp: evaluate_verdict split: if_splits)
  with assms obtain u p where e: "engine_user e = Loaded u" "engine_repository e = Loaded p"
    by (auto simp: evaluate_verdict split: loaded_policy.splits)
  with g f have "evaluate e r = settle r (layered_verdict u p r)"
    by (simp add: evaluate_def)
  with assms settle_allow_cases [of r u p] show ?thesis
    by simp
qed

end
