(* ===== verification/Policy_Properties.thy ===== *)
theory Policy_Properties
  imports Policy
begin

text \<open>
  What the policy engine promises: no layer loosens another, a refusal that precedes the layers
  cannot be answered, a permissive verdict rests on a grant, a load failure fails closed, and the
  decision it returns is one the record layer accepts.
\<close>

section \<open>Shared facts about the decisions\<close>

declare not_trim_is_empty_ascii [simp]

lemma for_request_simps [simp]:
  "decision_verdict (for_request r d) = decision_verdict d"
  "decision_reason (for_request r d) = decision_reason d"
  "decision_source (for_request r d) = decision_source d"
  "decision_one_call_only (for_request r d) = decision_one_call_only d"
  "decision_external_request (for_request r d) = req_external r"
  "decision_denial_kind (for_request r d) = decision_denial_kind d"
  by (simp_all add: for_request_def)

lemma denied_as_simps [simp]:
  "decision_verdict (denied_as k d) = decision_verdict d"
  "decision_reason (denied_as k d) = decision_reason d"
  "decision_source (denied_as k d) = decision_source d"
  "decision_one_call_only (denied_as k d) = decision_one_call_only d"
  "decision_external_request (denied_as k d) = decision_external_request d"
  "decision_denial_kind (denied_as k d) = Some k"
  by (simp_all add: denied_as_def)

lemma PolicyDecision_new_simps [simp]:
  "decision_verdict (PolicyDecision_new v x s c) = v"
  "decision_reason (PolicyDecision_new v x s c) = x"
  "decision_source (PolicyDecision_new v x s c) = s"
  "decision_one_call_only (PolicyDecision_new v x s c) = c"
  "decision_external_request (PolicyDecision_new v x s c) = None"
  "decision_denial_kind (PolicyDecision_new v x s c) = None"
  by (simp_all add: PolicyDecision_new_def)

lemma denied_reason [simp]: "\<not> trim_is_empty (''denied: '' @ s)"
  by (simp add: not_trim_is_empty_ascii)

lemma selected_reason [simp]: "\<not> trim_is_empty (PolicyVerdict_as_str v @ s)"
  by (cases v) (simp_all add: not_trim_is_empty_ascii)

lemma built_in_reason_nonblank:
  "built_in_reason t k v = Some s \<Longrightarrow> \<not> trim_is_empty s"
  by (cases t; cases k; cases v)
    (auto simp: built_in_reason_def not_trim_is_empty_ascii)

lemma layered_reason: "\<not> trim_is_empty (snd (snd (layered_verdict u p r)))"
proof -
  have b: "\<not> trim_is_empty (snd (snd (built_in r)))"
    using built_in_unreachable [of "req_trust r" "PolicyRequest_risk r"]
    by (auto simp: built_in_def Let_def dest: built_in_reason_nonblank)
  have f: "\<not> trim_is_empty (snd (snd acc)) \<Longrightarrow> \<not> trim_is_empty (snd (snd (fold_layer acc x l)))"
    for acc x l by (auto simp: fold_layer_def split: option.splits)
  show ?thesis
    unfolding layered_verdict_def Let_def by (cases p) (simp_all add: b f)
qed

lemma fold_layer_source:
  "fst (snd acc) \<noteq> RunGrantSource \<Longrightarrow> l \<noteq> RunGrantSource \<Longrightarrow>
     fst (snd (fold_layer acc x l)) \<noteq> RunGrantSource"
  by (auto simp: fold_layer_def split: option.splits)

lemma layered_source: "fst (snd (layered_verdict u p r)) \<noteq> RunGrantSource"
  unfolding layered_verdict_def Let_def
  by (cases p) (simp_all add: built_in_def Let_def fold_layer_source)

section \<open>Validity of the decision\<close>

text \<open>
  The one shape of request whose decision fails its own validation: the context names a missing
  required identity, and the call is refused earlier, for its declaration, under another kind.
\<close>

definition misdeclared_without_identity :: "('w, 'v) policy_request \<Rightarrow> bool" where
  "misdeclared_without_identity r =
     (case req_external r of
        None \<Rightarrow> False
      | Some c \<Rightarrow>
          invalid_identity_denial_kind c \<notin> {None, Some ''external_identity_context_invalid''}
          \<and> (1 < length (declared_external r)
              \<or> \<not> is_ok (validate_declaration c (descriptor_capabilities (req_descriptor r)))))"

definition external_schema_current :: "('w, 'v) policy_request \<Rightarrow> bool" where
  "external_schema_current r =
     (case req_external r of
        None \<Rightarrow> True
      | Some c \<Rightarrow> ctx_schema_version c = EXTERNAL_POLICY_CONTEXT_SCHEMA_VERSION)"

lemma validate_plain:
  assumes "decision_denial_kind d = None" "\<not> trim_is_empty (decision_reason d)"
    and "decision_one_call_only d \<longrightarrow> decision_verdict d = Ask"
    and "decision_source d = RunGrantSource \<longrightarrow> decision_verdict d = Allow"
    and "\<And>c. decision_external_request d = Some c \<Longrightarrow>
           ctx_schema_version c = EXTERNAL_POLICY_CONTEXT_SCHEMA_VERSION
           \<and> invalid_identity_denial_kind c = None"
  shows "PolicyDecision_validate d = Inr ()"
  using assms
  by (auto simp: PolicyDecision_validate_def validate_external_evidence_def
      validate_identity_shape_def identity_shape_iff_no_denial split: option.splits)

lemma validate_kind:
  assumes "decision_denial_kind d = Some k" "\<not> trim_is_empty (decision_reason d)"
    and "\<not> decision_one_call_only d" "decision_source d \<noteq> RunGrantSource"
    and "decision_verdict d = Deny" "k \<in> set EXTERNAL_POLICY_DENIAL_KINDS"
    and "\<And>c. decision_external_request d = Some c \<Longrightarrow>
           ctx_schema_version c = EXTERNAL_POLICY_CONTEXT_SCHEMA_VERSION"
  shows "is_ok (PolicyDecision_validate d) \<longleftrightarrow>
    (case decision_external_request d of
       None \<Rightarrow> k = ''external_identity_context_invalid''
     | Some c \<Rightarrow>
         (case invalid_identity_denial_kind c of
            Some k' \<Rightarrow> k = k'
          | None \<Rightarrow> k = noninteractive_denial_kind (ctx_capability c)
                     \<or> k = ''external_identity_context_invalid''))"
  using assms
  by (auto simp: PolicyDecision_validate_def validate_external_evidence_def
      validate_identity_shape_def ensure_def identity_shape_iff_no_denial
      split: option.splits)

lemma guard_None:
  "evaluate_external_guard r = None \<Longrightarrow>
     \<not> 1 < length (declared_external r)
     \<and> (\<forall>c. req_external r = Some c \<longrightarrow>
          is_ok (validate_declaration c (descriptor_capabilities (req_descriptor r)))
          \<and> invalid_identity_denial_kind c = None)"
  by (auto simp: evaluate_external_guard_def split: if_splits option.splits sum.splits)

lemma guard_None_declared:
  "evaluate_external_guard r = None \<Longrightarrow> \<not> misdeclared_without_identity r"
  by (auto simp: misdeclared_without_identity_def dest!: guard_None split: option.splits)

lemma guard_Some_valid:
  assumes "evaluate_external_guard r = Some d" and "external_schema_current r"
  shows "is_ok (PolicyDecision_validate d) \<longleftrightarrow> \<not> misdeclared_without_identity r"
proof -
  let ?bad = "''external_identity_context_invalid''"
  have known: "?bad \<in> set EXTERNAL_POLICY_DENIAL_KINDS"
    by (simp add: EXTERNAL_POLICY_DENIAL_KINDS_def)
  have d: "\<exists>k. decision_denial_kind d = Some k \<and> \<not> trim_is_empty (decision_reason d)
      \<and> \<not> decision_one_call_only d \<and> decision_source d \<noteq> RunGrantSource
      \<and> decision_verdict d = Deny \<and> decision_external_request d = req_external r
      \<and> (k = ?bad \<and> (1 < length (declared_external r) \<or> req_external r = None
            \<or> (\<exists>c. req_external r = Some c
                \<and> \<not> is_ok (validate_declaration c (descriptor_capabilities (req_descriptor r)))))
         \<or> (\<exists>c. req_external r = Some c \<and> invalid_identity_denial_kind c = Some k
              \<and> \<not> 1 < length (declared_external r)
              \<and> is_ok (validate_declaration c (descriptor_capabilities (req_descriptor r)))))"
    using assms(1)
    by (auto simp: evaluate_external_guard_def split: if_splits option.splits sum.splits)
  then obtain k where k: "decision_denial_kind d = Some k" "\<not> trim_is_empty (decision_reason d)"
      "\<not> decision_one_call_only d" "decision_source d \<noteq> RunGrantSource" "decision_verdict d = Deny"
      "decision_external_request d = req_external r"
    and cases: "k = ?bad \<and> (1 < length (declared_external r) \<or> req_external r = None
            \<or> (\<exists>c. req_external r = Some c
                \<and> \<not> is_ok (validate_declaration c (descriptor_capabilities (req_descriptor r)))))
         \<or> (\<exists>c. req_external r = Some c \<and> invalid_identity_denial_kind c = Some k
              \<and> \<not> 1 < length (declared_external r)
              \<and> is_ok (validate_declaration c (descriptor_capabilities (req_descriptor r))))"
    by blast
  have kk: "k \<in> set EXTERNAL_POLICY_DENIAL_KINDS"
    using cases known invalid_identity_kind_known by blast
  have sch: "ctx_schema_version c = EXTERNAL_POLICY_CONTEXT_SCHEMA_VERSION"
    if "decision_external_request d = Some c" for c
    using that assms(2) k(6) by (simp add: external_schema_current_def)
  have v: "is_ok (PolicyDecision_validate d) \<longleftrightarrow>
    (case req_external r of
       None \<Rightarrow> k = ?bad
     | Some c \<Rightarrow>
         (case invalid_identity_denial_kind c of
            Some k' \<Rightarrow> k = k'
          | None \<Rightarrow> k = noninteractive_denial_kind (ctx_capability c) \<or> k = ?bad))"
    using validate_kind [OF k(1-5) kk sch] by (simp add: k(6))
  show ?thesis
    unfolding v using cases
    by (auto simp: misdeclared_without_identity_def split: option.splits)
qed

lemma settle_valid:
  assumes "evaluate_external_guard r = None" and "external_schema_current r"
  shows "PolicyDecision_validate (settle r (layered_verdict u p r)) = Inr ()"
proof -
  obtain v s x where acc: "layered_verdict u p r = (v, s, x)"
    by (cases "layered_verdict u p r")
  have x: "\<not> trim_is_empty x" and s: "s \<noteq> RunGrantSource"
    using layered_reason [of u p r] layered_source [of u p r] acc by simp_all
  have c: "ctx_schema_version c = EXTERNAL_POLICY_CONTEXT_SCHEMA_VERSION
           \<and> invalid_identity_denial_kind c = None" if "req_external r = Some c" for c
    using that assms guard_None [of r] by (simp add: external_schema_current_def)
  have kind: "is_ok (PolicyDecision_validate (denied_as (noninteractive_denial_kind (ctx_capability c))
      (for_request r (PolicyDecision_new Deny
        (''denied: noninteractive execution cannot answer approval; '' @ x) s False))))"
    if "req_external r = Some c" for c
    using c [OF that] that s denied_reason
      [of "''noninteractive execution cannot answer approval; '' @ x"]
    by (subst validate_kind [OF _ _ _ _ _ noninteractive_kind_known]) auto
  show ?thesis
    using x s c kind not_trim_is_empty_ascii
      denied_reason [of "''noninteractive execution cannot answer approval; '' @ x"]
    unfolding acc settle_def prod.case Let_def
    by (auto simp: is_ok_iff not_trim_is_empty_ascii intro!: validate_plain split: option.splits)
qed

section \<open>Sample requests\<close>

definition sample_descriptor :: "risk_level \<Rightarrow> (nat, nat) tool_descriptor" where
  "sample_descriptor risk =
     \<lparr>descriptor_identity = \<lparr>identity_id = ToolId ''git.push'', identity_version = ToolVersion 1\<rparr>,
      descriptor_title = ''push'', descriptor_description = ''push'', descriptor_risk = risk,
      descriptor_capabilities = [], descriptor_environment = [],
      descriptor_timeout = OnlyByCancellation, descriptor_spawns_processes = True,
      descriptor_input_schema = 0, descriptor_output_schema = 0\<rparr>"

definition sample_policy_request ::
  "risk_level \<Rightarrow> request_flags \<Rightarrow> execution_mode \<Rightarrow> run_grant list \<Rightarrow> (nat, nat) policy_request" where
  "sample_policy_request risk flags mode grants =
     (PolicyRequest_new (sample_descriptor risk)
        (classify_request (sample_descriptor risk) [] flags) Trusted mode)
       \<lparr>req_grants := grants\<rparr>"

definition sample_engine :: policy_engine where
  "sample_engine = PolicyEngine_new PolicyFile_empty None"

definition failed_engine :: policy_engine where
  "failed_engine =
     \<lparr>engine_user = Failed (PolicyUnreadable ''/policy.json'' ''denied''),
      engine_repository = Loaded None\<rparr>"

definition sample_loader :: policy_loader where
  "sample_loader =
     \<lparr>metadata_of = (\<lambda>_. MetadataRegular), read_file = (\<lambda>_. Inr ''{}''), probe = (\<lambda>_. Inr 2),
      parse_policy = (\<lambda>_. Inr PolicyFile_empty), show_key_error = (\<lambda>k e. k)\<rparr>"

section \<open>Properties\<close>

text \<open>C32: A request that forces a push is denied by every engine, whatever its user and repository
  policy, its mode, its trust and the grants it carries.\<close>

theorem force_push_always_denied:
  assumes "is_forcing (classification_force_push (req_classification r))"
  shows "decision_verdict (evaluate e r) = Deny"
  using assms by (simp add: evaluate_verdict)

theorem force_push_always_denied_witness:
  "decision_verdict (evaluate sample_engine
     (sample_policy_request RemoteWrite (RequestFlags_force_pushing Force RequestFlags_default)
        Interactive [RunGrant_matching GrantExactCall IntegrationIdentity_none])) = Deny"
proof (rule force_push_always_denied)
  show "is_forcing (classification_force_push (req_classification
     (sample_policy_request RemoteWrite (RequestFlags_force_pushing Force RequestFlags_default)
        Interactive [RunGrant_matching GrantExactCall IntegrationIdentity_none])))"
    by code_simp
qed

text \<open>Loading a repository policy never makes a verdict more permissive than the same user
  policy gives without it, also after grants and the non-interactive rule have been applied.\<close>

theorem repository_only_tightens:
  "decision_verdict (evaluate (PolicyEngine_new user None) r) \<le>
     decision_verdict (evaluate (PolicyEngine_new user (Some repository)) r)"
  by (rule evaluate_default_le)

text \<open>C1: No engine, whatever its layers hold and even when one failed to load, is more permissive
  than the compiled-in defaults alone.\<close>

theorem no_layer_loosens_defaults:
  "decision_verdict (evaluate (PolicyEngine_new PolicyFile_empty None) r) \<le>
     decision_verdict (evaluate e r)"
proof -
  have "PolicyFile_selected PolicyFile_empty r = None"
    by (auto simp: PolicyFile_selected_def PolicyFile_empty_def option_list_def Let_def
        split: option.splits)
  then have "layered_verdict PolicyFile_empty None r = built_in r"
    by (simp add: layered_verdict_def fold_layer_def)
  then show ?thesis
    by (auto simp: evaluate_verdict PolicyEngine_new_def settle_mono layered_ge_built_in
        split: loaded_policy.splits)
qed

text \<open>C14: A request above \<open>observe\<close> is allowed only in a trusted workspace and only because one of
  its grants answers it: the grant binds exactly the identity evidence of the request, and it is a
  single-call grant when the request is a remote write or destructive.\<close>

theorem allow_above_observe_needs_grant:
  assumes "decision_verdict (evaluate e r) = Allow" and "PolicyRequest_risk r \<noteq> Observe"
  shows "decision_source (evaluate e r) = RunGrantSource \<and> req_trust r = Trusted
    \<and> (\<exists>g \<in> set (req_grants r).
         grant_integration_identity g =
           (case req_external r of None \<Rightarrow> IntegrationIdentity_none | Some c \<Rightarrow> ctx_identity c)
         \<and> (RemoteWrite \<le> PolicyRequest_risk r \<longrightarrow> grant_scope g = GrantExactCall))"
proof -
  from evaluate_allow_cases [OF assms(1)] assms(2)
  obtain g where g: "g \<in> set (req_grants r)" "grant_answers r g"
    and s: "decision_source (evaluate e r) = RunGrantSource" and t: "req_trust r = Trusted"
    by blast
  from g(2) have "grant_integration_identity g =
           (case req_external r of None \<Rightarrow> IntegrationIdentity_none | Some c \<Rightarrow> ctx_identity c)
         \<and> (RemoteWrite \<le> PolicyRequest_risk r \<longrightarrow> grant_scope g = GrantExactCall)"
    by (auto simp: grant_answers_def exact_only_def remote_or_destructive_iff
        IntegrationIdentity_is_empty_iff split: option.splits)
  with g(1) s t show ?thesis by blast
qed

theorem allow_above_observe_needs_grant_witness:
  "decision_source (evaluate sample_engine
     (sample_policy_request RemoteWrite RequestFlags_default Interactive
        [RunGrant_matching GrantExactCall IntegrationIdentity_none])) = RunGrantSource"
  (is "decision_source (evaluate _ ?r) = _")
proof -
  have "decision_verdict (evaluate sample_engine ?r) = Allow" "PolicyRequest_risk ?r \<noteq> Observe"
    by code_simp+
  then show ?thesis
    using allow_above_observe_needs_grant [of sample_engine ?r] by simp
qed

text \<open>When either policy file failed to load, every request is denied.\<close>

theorem load_failure_fails_closed:
  assumes "engine_user e = Failed x \<or> engine_repository e = Failed x"
  shows "decision_verdict (evaluate e r) = Deny"
  using assms by (auto simp: evaluate_verdict split: loaded_policy.splits)

theorem load_failure_fails_closed_witness:
  "decision_verdict (evaluate failed_engine
     (sample_policy_request Observe RequestFlags_default Interactive [])) = Deny"
  by (rule load_failure_fails_closed [of _ "PolicyUnreadable ''/policy.json'' ''denied''"])
     (simp add: failed_engine_def)

text \<open>A non-interactive request is never answered with a question.\<close>

theorem noninteractive_never_asks:
  assumes "req_mode r = NonInteractive"
  shows "decision_verdict (evaluate e r) \<noteq> Ask"
  using assms by (auto simp: evaluate_verdict settle_verdict split: loaded_policy.splits)

theorem noninteractive_never_asks_witness:
  "decision_verdict (evaluate sample_engine
     (sample_policy_request Execute RequestFlags_default NonInteractive [])) \<noteq> Ask"
  by (rule noninteractive_never_asks) (simp add: sample_policy_request_def PolicyRequest_new_def)

text \<open>C37: The decision that evaluation returns passes its own validation, which the record layer
  repeats before it stores it, exactly when the request is not one whose context lacks a required
  identity and which is refused first for its declaration. In that one case the decision carries a
  denial kind that the validation does not accept.\<close>

theorem evaluate_decision_valid_iff:
  assumes "external_schema_current r"
  shows "is_ok (PolicyDecision_validate (evaluate e r)) \<longleftrightarrow> \<not> misdeclared_without_identity r"
proof (cases "evaluate_external_guard r")
  case (Some d)
  then show ?thesis
    using guard_Some_valid [OF Some assms] by (simp add: evaluate_def)
next
  case None
  have c: "ctx_schema_version c = EXTERNAL_POLICY_CONTEXT_SCHEMA_VERSION
           \<and> invalid_identity_denial_kind c = None" if "req_external r = Some c" for c
    using that assms guard_None [OF None] by (simp add: external_schema_current_def)
  have "PolicyDecision_validate (evaluate e r) = Inr ()"
    using c unfolding evaluate_def None option.case Let_def load_failure_def
    by (auto simp: settle_valid [OF None assms] not_trim_is_empty_ascii intro!: validate_plain
        split: loaded_policy.splits)
  with guard_None_declared [OF None] show ?thesis by simp
qed

definition sample_misdeclared :: "(nat, nat) policy_request" where
  "sample_misdeclared =
     (sample_policy_request Execute RequestFlags_default Interactive [])
       \<lparr>req_external := Some (launch_external_agent None)\<rparr>"

theorem evaluate_decision_valid_iff_witness:
  "\<not> is_ok (PolicyDecision_validate (evaluate sample_engine sample_misdeclared))"
proof -
  have "external_schema_current sample_misdeclared" "misdeclared_without_identity sample_misdeclared"
    by code_simp+
  then show ?thesis
    using evaluate_decision_valid_iff [of sample_misdeclared sample_engine] by simp
qed

text \<open>A repository policy that loads never allows an external capability, in either of the two
  ways the code loads one.\<close>

theorem repository_load_grants_no_external_allow:
  assumes "load_repository_policy L nominal resolved_path = Inr (Some f)
           \<or> RepositoryPolicy_load L path = Inr f"
  shows "file_external_capabilities f k \<noteq> Some Allow"
proof -
  have ok: "file_external_capabilities f k \<noteq> Some Allow"
    if "PolicyFile_validate_repository p f = Inr u" for p u
    using that external_spelling.complete [of k]
    by (auto simp: PolicyFile_validate_repository_def find_None_iff split: option.splits)
  from assms show ?thesis
    by (auto simp: load_repository_policy_def RepositoryPolicy_load_def result_simps
        dest: ok split: sum.splits option.splits)
qed

theorem repository_load_grants_no_external_allow_witness:
  "RepositoryPolicy_load sample_loader ''/policy.json'' = Inr PolicyFile_empty
   \<and> file_external_capabilities PolicyFile_empty PushRemoteBranch \<noteq> Some Allow"
proof -
  have "RepositoryPolicy_load sample_loader ''/policy.json'' = Inr PolicyFile_empty"
    by (simp add: RepositoryPolicy_load_def load_file_def load_optional_file_def read_bounded_def
        sample_loader_def MAX_POLICY_FILE_BYTES_def PolicyFile_empty_def POLICY_SCHEMA_VERSION_def
        PolicyFile_validate_def PolicyFile_validate_repository_def ExternalCapability_ALL_def
        MINIMUM_POLICY_SCHEMA_VERSION_def)
  then show ?thesis
    using repository_load_grants_no_external_allow [of sample_loader "''/nominal''" "Inr ''/x''"
        PolicyFile_empty "''/policy.json''" PushRemoteBranch] by simp
qed

end
