(* ===== verification/Run_State.thy ===== *)
theory Run_State
  imports Prelude
begin

text \<open>
  The two lifecycle state machines of the runtime domain and the trait they implement.

  Source: \<open>harkness-runtime/src/domain/state.rs\<close> and \<open>domain/error.rs\<close>. The trait
  \<open>LifecycleState\<close> is a record of its members, with one value per implementation; the locale
  \<open>lifecycle_laws\<close> states what the generic lifecycle code relies on, and is interpreted on both.
\<close>

section \<open>States and errors\<close>

datatype execution_state =
    ES_Queued | ES_Running | ES_WaitingForApproval | ES_Succeeded | ES_Failed | ES_Cancelled
  | ES_Interrupted

datatype tool_call_state =
    TC_Pending | TC_AwaitingApproval | TC_Running | TC_Succeeded | TC_Failed | TC_Denied
  | TC_Cancelled | TC_Interrupted

datatype run_domain_error =
    InvalidExecutionTransition execution_state execution_state
  | InvalidToolCallTransition tool_call_state tool_call_state
  | RevisionExhausted string
  | SchemaVersionTooOld string u32 u32
  | SchemaVersionTooNew string u32 u32
  | InvalidTimestamp string string string
  | InvalidLifecycle string string

primrec RunDomainError_kind :: "run_domain_error \<Rightarrow> string" where
  "RunDomainError_kind (InvalidExecutionTransition a b) = ''invalid_execution_transition''"
| "RunDomainError_kind (InvalidToolCallTransition a b) = ''invalid_tool_call_transition''"
| "RunDomainError_kind (RevisionExhausted r) = ''revision_exhausted''"
| "RunDomainError_kind (SchemaVersionTooOld r f m) = ''schema_version_too_old''"
| "RunDomainError_kind (SchemaVersionTooNew r f m) = ''schema_version_too_new''"
| "RunDomainError_kind (InvalidTimestamp r f x) = ''invalid_timestamp''"
| "RunDomainError_kind (InvalidLifecycle r x) = ''invalid_lifecycle''"

section \<open>Execution states\<close>

definition ExecutionState_ALL :: "execution_state list" where
  "ExecutionState_ALL =
     [ES_Queued, ES_Running, ES_WaitingForApproval, ES_Succeeded, ES_Failed, ES_Cancelled,
      ES_Interrupted]"

primrec ExecutionState_as_str :: "execution_state \<Rightarrow> string" where
  "ExecutionState_as_str ES_Queued = ''queued''"
| "ExecutionState_as_str ES_Running = ''running''"
| "ExecutionState_as_str ES_WaitingForApproval = ''waiting_for_approval''"
| "ExecutionState_as_str ES_Succeeded = ''succeeded''"
| "ExecutionState_as_str ES_Failed = ''failed''"
| "ExecutionState_as_str ES_Cancelled = ''cancelled''"
| "ExecutionState_as_str ES_Interrupted = ''interrupted''"

definition ExecutionState_is_terminal :: "execution_state \<Rightarrow> bool" where
  "ExecutionState_is_terminal s \<longleftrightarrow>
     s = ES_Succeeded \<or> s = ES_Failed \<or> s = ES_Cancelled \<or> s = ES_Interrupted"

definition ExecutionState_requires_started_at :: "execution_state \<Rightarrow> bool" where
  "ExecutionState_requires_started_at s \<longleftrightarrow>
     s = ES_Running \<or> s = ES_WaitingForApproval \<or> s = ES_Succeeded"

definition ExecutionState_forbids_started_at :: "execution_state \<Rightarrow> bool" where
  "ExecutionState_forbids_started_at s \<longleftrightarrow> s = ES_Queued"

definition EXECUTION_TRANSITIONS :: "(execution_state \<times> execution_state) list" where
  "EXECUTION_TRANSITIONS =
     [(ES_Queued, ES_Running), (ES_Queued, ES_Failed), (ES_Queued, ES_Cancelled),
      (ES_Queued, ES_Interrupted),
      (ES_Running, ES_WaitingForApproval), (ES_Running, ES_Succeeded), (ES_Running, ES_Failed),
      (ES_Running, ES_Cancelled), (ES_Running, ES_Interrupted),
      (ES_WaitingForApproval, ES_Running), (ES_WaitingForApproval, ES_Failed),
      (ES_WaitingForApproval, ES_Cancelled), (ES_WaitingForApproval, ES_Interrupted)]"

primrec ExecutionState_minimum_revision :: "execution_state \<Rightarrow> u64" where
  "ExecutionState_minimum_revision ES_Queued = 0"
| "ExecutionState_minimum_revision ES_Running = 1"
| "ExecutionState_minimum_revision ES_Failed = 1"
| "ExecutionState_minimum_revision ES_Cancelled = 1"
| "ExecutionState_minimum_revision ES_Interrupted = 1"
| "ExecutionState_minimum_revision ES_WaitingForApproval = 2"
| "ExecutionState_minimum_revision ES_Succeeded = 2"

section \<open>Tool-call states\<close>

definition ToolCallState_ALL :: "tool_call_state list" where
  "ToolCallState_ALL =
     [TC_Pending, TC_AwaitingApproval, TC_Running, TC_Succeeded, TC_Failed, TC_Denied,
      TC_Cancelled, TC_Interrupted]"

primrec ToolCallState_as_str :: "tool_call_state \<Rightarrow> string" where
  "ToolCallState_as_str TC_Pending = ''pending''"
| "ToolCallState_as_str TC_AwaitingApproval = ''awaiting_approval''"
| "ToolCallState_as_str TC_Running = ''running''"
| "ToolCallState_as_str TC_Succeeded = ''succeeded''"
| "ToolCallState_as_str TC_Failed = ''failed''"
| "ToolCallState_as_str TC_Denied = ''denied''"
| "ToolCallState_as_str TC_Cancelled = ''cancelled''"
| "ToolCallState_as_str TC_Interrupted = ''interrupted''"

definition ToolCallState_is_terminal :: "tool_call_state \<Rightarrow> bool" where
  "ToolCallState_is_terminal s \<longleftrightarrow>
     s = TC_Succeeded \<or> s = TC_Failed \<or> s = TC_Denied \<or> s = TC_Cancelled \<or> s = TC_Interrupted"

definition ToolCallState_requires_started_at :: "tool_call_state \<Rightarrow> bool" where
  "ToolCallState_requires_started_at s \<longleftrightarrow> s = TC_Running \<or> s = TC_Succeeded"

definition ToolCallState_forbids_started_at :: "tool_call_state \<Rightarrow> bool" where
  "ToolCallState_forbids_started_at s \<longleftrightarrow>
     s = TC_Pending \<or> s = TC_AwaitingApproval \<or> s = TC_Denied"

definition TOOL_CALL_TRANSITIONS :: "(tool_call_state \<times> tool_call_state) list" where
  "TOOL_CALL_TRANSITIONS =
     [(TC_Pending, TC_AwaitingApproval), (TC_Pending, TC_Running), (TC_Pending, TC_Failed),
      (TC_Pending, TC_Denied), (TC_Pending, TC_Cancelled), (TC_Pending, TC_Interrupted),
      (TC_AwaitingApproval, TC_Running), (TC_AwaitingApproval, TC_Denied),
      (TC_AwaitingApproval, TC_Cancelled), (TC_AwaitingApproval, TC_Interrupted),
      (TC_Running, TC_Succeeded), (TC_Running, TC_Failed), (TC_Running, TC_Cancelled),
      (TC_Running, TC_Interrupted)]"

primrec ToolCallState_minimum_revision :: "tool_call_state \<Rightarrow> u64" where
  "ToolCallState_minimum_revision TC_Pending = 0"
| "ToolCallState_minimum_revision TC_AwaitingApproval = 1"
| "ToolCallState_minimum_revision TC_Running = 1"
| "ToolCallState_minimum_revision TC_Failed = 1"
| "ToolCallState_minimum_revision TC_Denied = 1"
| "ToolCallState_minimum_revision TC_Cancelled = 1"
| "ToolCallState_minimum_revision TC_Interrupted = 1"
| "ToolCallState_minimum_revision TC_Succeeded = 2"

section \<open>The trait and its two implementations\<close>

record 's lifecycle_state =
  INITIAL :: 's
  RUNNING :: 's
  transitions :: "('s \<times> 's) list"
  is_terminal :: "'s \<Rightarrow> bool"
  requires_started_at :: "'s \<Rightarrow> bool"
  forbids_started_at :: "'s \<Rightarrow> bool"
  minimum_revision :: "'s \<Rightarrow> u64"
  invalid_transition :: "'s \<Rightarrow> 's \<Rightarrow> run_domain_error"

definition execution_lifecycle :: "execution_state lifecycle_state" where
  "execution_lifecycle =
     \<lparr>INITIAL = ES_Queued, RUNNING = ES_Running, transitions = EXECUTION_TRANSITIONS,
      is_terminal = ExecutionState_is_terminal,
      requires_started_at = ExecutionState_requires_started_at,
      forbids_started_at = ExecutionState_forbids_started_at,
      minimum_revision = ExecutionState_minimum_revision,
      invalid_transition = InvalidExecutionTransition\<rparr>"

definition tool_call_lifecycle :: "tool_call_state lifecycle_state" where
  "tool_call_lifecycle =
     \<lparr>INITIAL = TC_Pending, RUNNING = TC_Running, transitions = TOOL_CALL_TRANSITIONS,
      is_terminal = ToolCallState_is_terminal,
      requires_started_at = ToolCallState_requires_started_at,
      forbids_started_at = ToolCallState_forbids_started_at,
      minimum_revision = ToolCallState_minimum_revision,
      invalid_transition = InvalidToolCallTransition\<rparr>"

section \<open>What the generic lifecycle relies on\<close>

interpretation execution_spelling: stable_spelling ExecutionState_ALL ExecutionState_as_str
proof
  fix k show "k \<in> set ExecutionState_ALL" by (cases k) (simp_all add: ExecutionState_ALL_def)
qed (simp add: ExecutionState_ALL_def)

interpretation tool_call_spelling: stable_spelling ToolCallState_ALL ToolCallState_as_str
proof
  fix k show "k \<in> set ToolCallState_ALL" by (cases k) (simp_all add: ToolCallState_ALL_def)
qed (simp add: ToolCallState_ALL_def)

locale lifecycle_laws =
  fixes D :: "'s lifecycle_state"
  assumes initial_live: "\<not> is_terminal D (INITIAL D)"
    and initial_unstarted: "\<not> requires_started_at D (INITIAL D)"
    and initial_revision: "minimum_revision D (INITIAL D) = 0"
    and edge_from_live: "(a, b) \<in> set (transitions D) \<Longrightarrow> \<not> is_terminal D a"
    and edge_not_initial: "(a, b) \<in> set (transitions D) \<Longrightarrow> b \<noteq> INITIAL D"
    and edge_requires: "(a, b) \<in> set (transitions D) \<Longrightarrow> requires_started_at D b \<Longrightarrow>
          b = RUNNING D \<or> requires_started_at D a"
    and edge_forbids: "(a, b) \<in> set (transitions D) \<Longrightarrow> forbids_started_at D b \<Longrightarrow>
          b \<noteq> RUNNING D \<and> forbids_started_at D a"
    and edge_revision: "(a, b) \<in> set (transitions D) \<Longrightarrow>
          unat (minimum_revision D b) \<le> Suc (unat (minimum_revision D a))"
begin

lemma terminal_is_final: "is_terminal D a \<Longrightarrow> (a, b) \<notin> set (transitions D)"
  using edge_from_live by blast

end

lemmas execution_defs =
  execution_lifecycle_def EXECUTION_TRANSITIONS_def ExecutionState_is_terminal_def
  ExecutionState_requires_started_at_def ExecutionState_forbids_started_at_def

lemmas tool_call_defs =
  tool_call_lifecycle_def TOOL_CALL_TRANSITIONS_def ToolCallState_is_terminal_def
  ToolCallState_requires_started_at_def ToolCallState_forbids_started_at_def

interpretation execution: lifecycle_laws execution_lifecycle
  by unfold_locales (auto simp: execution_defs)

interpretation tool_call: lifecycle_laws tool_call_lifecycle
  by unfold_locales (auto simp: tool_call_defs)

end
