(* ===== verification/Run_Record.thy ===== *)
theory Run_Record
  imports Run_State Policy
begin

text \<open>
  The durable records of the runtime domain: the generic lifecycle, tasks, runs, steps and tool
  calls, with every operation that changes one.

  Source: \<open>harkness-runtime/src/domain/record.rs\<close>. An operation takes the record and returns the
  changed record or the error; a method that fails returns before it assigns a field, so an error
  carries no changed record. Timestamps have type \<open>'t\<close> with the operations \<open>T\<close> of the \<open>time\<close>
  crate; JSON inputs and outputs are opaque values \<open>'v\<close>. Identifiers drawn from
  \<open>Uuid::new_v4\<close> are arguments (\<open>with_id\<close>).
\<close>

section \<open>Failures and approvals\<close>

record failure =
  failure_kind :: string
  failure_message :: string

definition Failure_new :: "string \<Rightarrow> string \<Rightarrow> failure" where
  "Failure_new kind message = \<lparr>failure_kind = kind, failure_message = message\<rparr>"

definition Failure_with_redacted_message :: "string \<Rightarrow> failure \<Rightarrow> failure" where
  "Failure_with_redacted_message message f = f\<lparr>failure_message := message\<rparr>"

datatype approval_outcome = OutcomeApproved | OutcomeDenied

record 't approval =
  approval_decided_by :: string
  approval_decision :: approval_outcome
  approval_decided_at :: 't

definition Approval_new ::
  "'t time_ops \<Rightarrow> string \<Rightarrow> approval_outcome \<Rightarrow> 't \<Rightarrow> 't approval" where
  "Approval_new T decided_by decision decided_at =
     \<lparr>approval_decided_by = decided_by, approval_decision = decision,
      approval_decided_at = to_utc T decided_at\<rparr>"

definition Approval_approved :: "'t time_ops \<Rightarrow> string \<Rightarrow> 't \<Rightarrow> 't approval" where
  "Approval_approved T decided_by decided_at = Approval_new T decided_by OutcomeApproved decided_at"

definition Approval_denied :: "'t time_ops \<Rightarrow> string \<Rightarrow> 't \<Rightarrow> 't approval" where
  "Approval_denied T decided_by decided_at = Approval_new T decided_by OutcomeDenied decided_at"

definition validate_utc :: "'t time_ops \<Rightarrow> string \<Rightarrow> string \<Rightarrow> 't \<Rightarrow> run_domain_error + unit" where
  "validate_utc T rec field timestamp =
     (if \<not> is_utc T timestamp then Inl (InvalidTimestamp rec field ''must use the UTC offset'')
      else Inr ())"

definition require_state :: "string \<Rightarrow> bool \<Rightarrow> string \<Rightarrow> run_domain_error + unit" where
  "require_state rec condition reason = ensure condition (InvalidLifecycle rec reason)"

definition approval_identity :: "string \<Rightarrow> string \<Rightarrow> run_domain_error + string" where
  "approval_identity rec decided_by =
     (if trim_is_empty decided_by
      then Inl (InvalidLifecycle rec ''approval decisions require decided_by'')
      else Inr decided_by)"

section \<open>The generic lifecycle\<close>

record ('s, 't) lifecycle =
  lc_state :: 's
  lc_created_at :: 't
  lc_updated_at :: 't
  lc_started_at :: "'t option"
  lc_finished_at :: "'t option"
  lc_revision :: u64

definition Lifecycle_new :: "'s lifecycle_state \<Rightarrow> 't time_ops \<Rightarrow> 't \<Rightarrow> ('s, 't) lifecycle" where
  "Lifecycle_new D T created_at =
     (let created_at = to_utc T created_at
      in \<lparr>lc_state = INITIAL D, lc_created_at = created_at, lc_updated_at = created_at,
          lc_started_at = None, lc_finished_at = None, lc_revision = 0\<rparr>)"

definition validate_utc_option ::
  "'t time_ops \<Rightarrow> string \<Rightarrow> string \<Rightarrow> 't option \<Rightarrow> run_domain_error + unit" where
  "validate_utc_option T rec field timestamp =
     (case timestamp of None \<Rightarrow> Inr () | Some at \<Rightarrow> validate_utc T rec field at)"

definition is_some_and :: "'a option \<Rightarrow> ('a \<Rightarrow> bool) \<Rightarrow> bool" where
  "is_some_and x p = (case x of None \<Rightarrow> False | Some y \<Rightarrow> p y)"

text \<open>The cross-field checks of \<open>Lifecycle::from_wire\<close>, in the order of the code.\<close>

definition lifecycle_checks ::
  "'s lifecycle_state \<Rightarrow> 't time_ops \<Rightarrow> string \<Rightarrow> ('s, 't) lifecycle \<Rightarrow> run_domain_error + unit" where
  "lifecycle_checks D T rec lc =
     (let state = lc_state lc; created_at = lc_created_at lc; updated_at = lc_updated_at lc;
          started_at = lc_started_at lc; finished_at = lc_finished_at lc; revision = lc_revision lc
      in if instant T updated_at < instant T created_at
         then Inl (InvalidTimestamp rec ''updated_at'' ''must not precede created_at'')
         else if is_some_and started_at
                   (\<lambda>at. instant T at < instant T created_at \<or> instant T updated_at < instant T at)
         then Inl (InvalidTimestamp rec ''started_at''
                     ''must fall between created_at and updated_at'')
         else if is_some_and finished_at
                   (\<lambda>at. instant T at < instant T created_at \<or> instant T updated_at < instant T at)
         then Inl (InvalidTimestamp rec ''finished_at''
                     ''must fall between created_at and updated_at'')
         else if is_terminal D state \<and> finished_at = None
         then Inl (InvalidLifecycle rec ''a terminal state requires finished_at'')
         else if \<not> is_terminal D state \<and> finished_at \<noteq> None
         then Inl (InvalidLifecycle rec ''a non-terminal state cannot carry finished_at'')
         else if is_some_and finished_at (\<lambda>at. instant T at \<noteq> instant T updated_at)
         then Inl (InvalidLifecycle rec ''finished_at must equal updated_at in a terminal state'')
         else if requires_started_at D state \<and> started_at = None
         then Inl (InvalidLifecycle rec ''the current state requires started_at'')
         else if forbids_started_at D state \<and> started_at \<noteq> None
         then Inl (InvalidLifecycle rec ''the current state cannot carry started_at'')
         else if state = INITIAL D \<and> revision \<noteq> 0
         then Inl (InvalidLifecycle rec ''the initial state requires revision zero'')
         else if state \<noteq> INITIAL D \<and> revision = 0
         then Inl (InvalidLifecycle rec ''a transitioned state requires a nonzero revision'')
         else if revision < minimum_revision D state
         then Inl (InvalidLifecycle rec ''revision is too small for the current state'')
         else if revision = 0 \<and> instant T updated_at \<noteq> instant T created_at
         then Inl (InvalidLifecycle rec ''revision zero requires updated_at to equal created_at'')
         else Inr ())"

definition Lifecycle_from_wire ::
  "'s lifecycle_state \<Rightarrow> 't time_ops \<Rightarrow> string \<Rightarrow> 's \<Rightarrow> 't \<Rightarrow> 't \<Rightarrow> 't option \<Rightarrow> 't option \<Rightarrow> u64 \<Rightarrow>
   run_domain_error + ('s, 't) lifecycle" where
  "Lifecycle_from_wire D T rec state created_at updated_at started_at finished_at revision =
     res_bind (validate_utc T rec ''created_at'' created_at) (\<lambda>_.
     res_bind (validate_utc T rec ''updated_at'' updated_at) (\<lambda>_.
     res_bind (validate_utc_option T rec ''started_at'' started_at) (\<lambda>_.
     res_bind (validate_utc_option T rec ''finished_at'' finished_at) (\<lambda>_.
       let lc = \<lparr>lc_state = state, lc_created_at = created_at, lc_updated_at = updated_at,
                 lc_started_at = started_at, lc_finished_at = finished_at, lc_revision = revision\<rparr>
       in res_bind (lifecycle_checks D T rec lc) (\<lambda>_. Inr lc)))))"

definition Lifecycle_validate_edge ::
  "'s lifecycle_state \<Rightarrow> ('s, 't) lifecycle \<Rightarrow> 's \<Rightarrow> run_domain_error + unit" where
  "Lifecycle_validate_edge D lc to =
     (if (lc_state lc, to) \<in> set (transitions D) then Inr ()
      else Inl (invalid_transition D (lc_state lc) to))"

definition Lifecycle_transition ::
  "'s lifecycle_state \<Rightarrow> 't time_ops \<Rightarrow> string \<Rightarrow> ('s, 't) lifecycle \<Rightarrow> 's \<Rightarrow> 't \<Rightarrow>
   run_domain_error + ('s, 't) lifecycle" where
  "Lifecycle_transition D T rec lc to at =
     res_bind (Lifecycle_validate_edge D lc to) (\<lambda>_.
       case checked_add (lc_revision lc) 1 of
         None \<Rightarrow> Inl (RevisionExhausted rec)
       | Some revision \<Rightarrow>
           (let at = time_max T (to_utc T at) (lc_updated_at lc);
                lc1 = lc\<lparr>lc_state := to, lc_updated_at := at, lc_revision := revision\<rparr>;
                lc2 = (if to = RUNNING D \<and> lc_started_at lc = None
                       then lc1\<lparr>lc_started_at := Some at\<rparr> else lc1)
            in Inr (if is_terminal D to then lc2\<lparr>lc_finished_at := Some at\<rparr> else lc2)))"

section \<open>Tasks\<close>

record 't task =
  task_record_id :: task_id
  task_title :: string
  task_workspace_root :: string
  task_project_id :: "project_id option"
  task_created_at :: 't

definition Task_with_id ::
  "'t time_ops \<Rightarrow> task_id \<Rightarrow> string \<Rightarrow> string \<Rightarrow> project_id option \<Rightarrow> 't \<Rightarrow> 't task" where
  "Task_with_id T i title workspace_root project created_at =
     \<lparr>task_record_id = i, task_title = title, task_workspace_root = workspace_root,
      task_project_id = project, task_created_at = to_utc T created_at\<rparr>"

definition Task_with_redacted_title :: "string \<Rightarrow> 't task \<Rightarrow> 't task" where
  "Task_with_redacted_title title t = t\<lparr>task_title := title\<rparr>"

section \<open>Runs\<close>

record 't run =
  run_record_id :: run_id
  run_task_id :: task_id
  run_lifecycle :: "(execution_state, 't) lifecycle"
  run_failure :: "failure option"
  run_approvals :: "'t approval list"
  run_retry_of :: "run_id option"
  run_workspace_may_be_modified :: bool

abbreviation run_state :: "'t run \<Rightarrow> execution_state" where
  "run_state r \<equiv> lc_state (run_lifecycle r)"

definition Run_with_id :: "'t time_ops \<Rightarrow> run_id \<Rightarrow> task_id \<Rightarrow> 't \<Rightarrow> 't run" where
  "Run_with_id T i task created_at =
     \<lparr>run_record_id = i, run_task_id = task,
      run_lifecycle = Lifecycle_new execution_lifecycle T created_at, run_failure = None,
      run_approvals = [], run_retry_of = None, run_workspace_may_be_modified = False\<rparr>"

definition Run_retrying_with_id ::
  "'t time_ops \<Rightarrow> run_id \<Rightarrow> task_id \<Rightarrow> run_id \<Rightarrow> bool \<Rightarrow> 't \<Rightarrow> 't run" where
  "Run_retrying_with_id T i task original workspace_may_be_modified created_at =
     (Run_with_id T i task created_at)
       \<lparr>run_retry_of := Some original,
        run_workspace_may_be_modified := workspace_may_be_modified\<rparr>"

definition Run_transition ::
  "'t time_ops \<Rightarrow> 't run \<Rightarrow> execution_state \<Rightarrow> 't \<Rightarrow> run_domain_error + 't run" where
  "Run_transition T r to at =
     res_bind (Lifecycle_validate_edge execution_lifecycle (run_lifecycle r) to) (\<lambda>_.
       if to = ES_Failed
       then Inl (InvalidLifecycle ''run'' ''failed transitions require Run::fail'')
       else if run_state r = ES_WaitingForApproval \<and> to = ES_Running
       then Inl (InvalidLifecycle ''run'' ''approval-gated work requires Run::approve'')
       else res_bind (Lifecycle_transition execution_lifecycle T ''run'' (run_lifecycle r) to at)
              (\<lambda>lc. Inr (r\<lparr>run_lifecycle := lc\<rparr>)))"

definition Run_fail :: "'t time_ops \<Rightarrow> 't run \<Rightarrow> failure \<Rightarrow> 't \<Rightarrow> run_domain_error + 't run" where
  "Run_fail T r f at =
     res_bind (Lifecycle_transition execution_lifecycle T ''run'' (run_lifecycle r) ES_Failed at)
       (\<lambda>lc. Inr (r\<lparr>run_lifecycle := lc, run_failure := Some f\<rparr>))"

definition Run_approve :: "'t time_ops \<Rightarrow> 't run \<Rightarrow> string \<Rightarrow> 't \<Rightarrow> run_domain_error + 't run" where
  "Run_approve T r decided_by at =
     res_bind (require_state ''run'' (run_state r = ES_WaitingForApproval)
                 ''approval decisions require waiting_for_approval'') (\<lambda>_.
     res_bind (approval_identity ''run'' decided_by) (\<lambda>decided_by.
     res_bind (Lifecycle_transition execution_lifecycle T ''run'' (run_lifecycle r) ES_Running at)
       (\<lambda>lc. Inr (r\<lparr>run_lifecycle := lc,
                     run_approvals := run_approvals r
                       @ [Approval_approved T decided_by (lc_updated_at lc)]\<rparr>))))"

definition Run_reject_approval ::
  "'t time_ops \<Rightarrow> 't run \<Rightarrow> string \<Rightarrow> failure \<Rightarrow> 't \<Rightarrow> run_domain_error + 't run" where
  "Run_reject_approval T r decided_by f at =
     res_bind (require_state ''run'' (run_state r = ES_WaitingForApproval)
                 ''approval decisions require waiting_for_approval'') (\<lambda>_.
     res_bind (approval_identity ''run'' decided_by) (\<lambda>decided_by.
     res_bind (Lifecycle_transition execution_lifecycle T ''run'' (run_lifecycle r) ES_Failed at)
       (\<lambda>lc. Inr (r\<lparr>run_lifecycle := lc, run_failure := Some f,
                     run_approvals := run_approvals r
                       @ [Approval_denied T decided_by (lc_updated_at lc)]\<rparr>))))"

definition Run_resume_after_denial ::
  "'t time_ops \<Rightarrow> 't run \<Rightarrow> string \<Rightarrow> 't \<Rightarrow> run_domain_error + 't run" where
  "Run_resume_after_denial T r decided_by at =
     res_bind (require_state ''run'' (run_state r = ES_WaitingForApproval)
                 ''approval decisions require waiting_for_approval'') (\<lambda>_.
     res_bind (approval_identity ''run'' decided_by) (\<lambda>_.
     res_bind (Lifecycle_transition execution_lifecycle T ''run'' (run_lifecycle r) ES_Running at)
       (\<lambda>lc. Inr (r\<lparr>run_lifecycle := lc\<rparr>))))"

section \<open>Steps\<close>

record 't step =
  step_record_id :: step_id
  step_run_id :: run_id
  step_ordinal :: u32
  step_title :: string
  step_lifecycle :: "(execution_state, 't) lifecycle"
  step_failure :: "failure option"
  step_approvals :: "'t approval list"

abbreviation step_state :: "'t step \<Rightarrow> execution_state" where
  "step_state s \<equiv> lc_state (step_lifecycle s)"

definition Step_with_id ::
  "'t time_ops \<Rightarrow> step_id \<Rightarrow> run_id \<Rightarrow> u32 \<Rightarrow> string \<Rightarrow> 't \<Rightarrow> 't step" where
  "Step_with_id T i run ordinal title created_at =
     \<lparr>step_record_id = i, step_run_id = run, step_ordinal = ordinal, step_title = title,
      step_lifecycle = Lifecycle_new execution_lifecycle T created_at, step_failure = None,
      step_approvals = []\<rparr>"

definition Step_transition ::
  "'t time_ops \<Rightarrow> 't step \<Rightarrow> execution_state \<Rightarrow> 't \<Rightarrow> run_domain_error + 't step" where
  "Step_transition T s to at =
     res_bind (Lifecycle_validate_edge execution_lifecycle (step_lifecycle s) to) (\<lambda>_.
       if to = ES_Failed
       then Inl (InvalidLifecycle ''step'' ''failed transitions require Step::fail'')
       else if step_state s = ES_WaitingForApproval \<and> to = ES_Running
       then Inl (InvalidLifecycle ''step'' ''approval-gated work requires Step::approve'')
       else res_bind (Lifecycle_transition execution_lifecycle T ''step'' (step_lifecycle s) to at)
              (\<lambda>lc. Inr (s\<lparr>step_lifecycle := lc\<rparr>)))"

definition Step_fail :: "'t time_ops \<Rightarrow> 't step \<Rightarrow> failure \<Rightarrow> 't \<Rightarrow> run_domain_error + 't step" where
  "Step_fail T s f at =
     res_bind (Lifecycle_transition execution_lifecycle T ''step'' (step_lifecycle s) ES_Failed at)
       (\<lambda>lc. Inr (s\<lparr>step_lifecycle := lc, step_failure := Some f\<rparr>))"

definition Step_approve :: "'t time_ops \<Rightarrow> 't step \<Rightarrow> string \<Rightarrow> 't \<Rightarrow> run_domain_error + 't step" where
  "Step_approve T s decided_by at =
     res_bind (require_state ''step'' (step_state s = ES_WaitingForApproval)
                 ''approval decisions require waiting_for_approval'') (\<lambda>_.
     res_bind (approval_identity ''step'' decided_by) (\<lambda>decided_by.
     res_bind (Lifecycle_transition execution_lifecycle T ''step'' (step_lifecycle s) ES_Running at)
       (\<lambda>lc. Inr (s\<lparr>step_lifecycle := lc,
                     step_approvals := step_approvals s
                       @ [Approval_approved T decided_by (lc_updated_at lc)]\<rparr>))))"

definition Step_reject_approval ::
  "'t time_ops \<Rightarrow> 't step \<Rightarrow> string \<Rightarrow> failure \<Rightarrow> 't \<Rightarrow> run_domain_error + 't step" where
  "Step_reject_approval T s decided_by f at =
     res_bind (require_state ''step'' (step_state s = ES_WaitingForApproval)
                 ''approval decisions require waiting_for_approval'') (\<lambda>_.
     res_bind (approval_identity ''step'' decided_by) (\<lambda>decided_by.
     res_bind (Lifecycle_transition execution_lifecycle T ''step'' (step_lifecycle s) ES_Failed at)
       (\<lambda>lc. Inr (s\<lparr>step_lifecycle := lc, step_failure := Some f,
                     step_approvals := step_approvals s
                       @ [Approval_denied T decided_by (lc_updated_at lc)]\<rparr>))))"

section \<open>Tool calls\<close>

record ('t, 'v) tool_call =
  call_record_id :: tool_call_id
  call_run_id :: run_id
  call_step_id :: step_id
  call_tool_id :: string
  call_tool_version :: string
  call_input :: 'v
  call_lifecycle :: "(tool_call_state, 't) lifecycle"
  call_failure :: "failure option"
  call_output :: "'v option"
  call_approvals :: "'t approval list"
  call_policy_decision :: "policy_decision option"

abbreviation call_state :: "('t, 'v) tool_call \<Rightarrow> tool_call_state" where
  "call_state c \<equiv> lc_state (call_lifecycle c)"

definition ToolCall_with_id ::
  "'t time_ops \<Rightarrow> tool_call_id \<Rightarrow> 't step \<Rightarrow> string \<Rightarrow> string \<Rightarrow> 'v \<Rightarrow> 't \<Rightarrow> ('t, 'v) tool_call" where
  "ToolCall_with_id T i step tool_id tool_version input created_at =
     \<lparr>call_record_id = i, call_run_id = step_run_id step, call_step_id = step_record_id step,
      call_tool_id = tool_id, call_tool_version = tool_version, call_input = input,
      call_lifecycle = Lifecycle_new tool_call_lifecycle T created_at, call_failure = None,
      call_output = None, call_approvals = [], call_policy_decision = None\<rparr>"

abbreviation call_transition ::
  "'t time_ops \<Rightarrow> ('t, 'v) tool_call \<Rightarrow> tool_call_state \<Rightarrow> 't \<Rightarrow>
   run_domain_error + (tool_call_state, 't) lifecycle" where
  "call_transition T c to at \<equiv>
     Lifecycle_transition tool_call_lifecycle T ''tool_call'' (call_lifecycle c) to at"

definition ToolCall_apply_policy_decision ::
  "'t time_ops \<Rightarrow> ('t, 'v) tool_call \<Rightarrow> policy_decision \<Rightarrow> 't \<Rightarrow>
   run_domain_error + ('t, 'v) tool_call" where
  "ToolCall_apply_policy_decision T c decision at =
     res_bind (require_state ''tool_call'' (call_state c = TC_Pending)
                 ''policy evaluation requires pending'') (\<lambda>_.
     res_bind (require_state ''tool_call'' (call_policy_decision c = None)
                 ''a tool call may carry only one policy decision'') (\<lambda>_.
       case PolicyDecision_validate decision of
         Inl reason \<Rightarrow> Inl (InvalidLifecycle ''tool_call'' reason)
       | Inr _ \<Rightarrow>
           res_bind
             (case decision_verdict decision of
                Allow \<Rightarrow> Inr c
              | Ask \<Rightarrow>
                  res_bind (call_transition T c TC_AwaitingApproval at)
                    (\<lambda>lc. Inr (c\<lparr>call_lifecycle := lc\<rparr>))
              | Deny \<Rightarrow>
                  res_bind (call_transition T c TC_Denied at)
                    (\<lambda>lc. Inr (c\<lparr>call_lifecycle := lc,
                      call_failure := Some (Failure_new ''policy'' (decision_reason decision))\<rparr>)))
             (\<lambda>c. Inr (c\<lparr>call_policy_decision := Some decision\<rparr>))))"

definition ToolCall_transition ::
  "'t time_ops \<Rightarrow> ('t, 'v) tool_call \<Rightarrow> tool_call_state \<Rightarrow> 't \<Rightarrow>
   run_domain_error + ('t, 'v) tool_call" where
  "ToolCall_transition T c to at =
     res_bind (Lifecycle_validate_edge tool_call_lifecycle (call_lifecycle c) to) (\<lambda>_.
       if to = TC_Succeeded \<or> to = TC_Failed \<or> to = TC_Denied
       then Inl (InvalidLifecycle ''tool_call''
              ''outcome states require an outcome-specific transition method'')
       else if call_state c = TC_AwaitingApproval \<and> to = TC_Running
       then Inl (InvalidLifecycle ''tool_call'' ''approval-gated work requires ToolCall::approve'')
       else res_bind (call_transition T c to at) (\<lambda>lc. Inr (c\<lparr>call_lifecycle := lc\<rparr>)))"

definition ToolCall_dispatch ::
  "'t time_ops \<Rightarrow> ('t, 'v) tool_call \<Rightarrow> string \<Rightarrow> 't \<Rightarrow> run_domain_error + ('t, 'v) tool_call" where
  "ToolCall_dispatch T c resolved at =
     res_bind (require_state ''tool_call'' (call_state c = TC_Pending)
                 ''ToolCall::dispatch begins execution and requires pending'') (\<lambda>_.
     res_bind (require_state ''tool_call''
                 (call_tool_version c = [] \<or> call_tool_version c = resolved)
                 ''a recorded tool version may not be replaced by a different one'') (\<lambda>_.
     res_bind (call_transition T c TC_Running at) (\<lambda>lc.
       Inr (c\<lparr>call_lifecycle := lc, call_tool_version := resolved\<rparr>))))"

definition ToolCall_dispatch_approved ::
  "'t time_ops \<Rightarrow> ('t, 'v) tool_call \<Rightarrow> string \<Rightarrow> string \<Rightarrow> 't \<Rightarrow>
   run_domain_error + ('t, 'v) tool_call" where
  "ToolCall_dispatch_approved T c decided_by resolved at =
     res_bind (require_state ''tool_call'' (call_state c = TC_AwaitingApproval)
                 ''approval decisions require awaiting_approval'') (\<lambda>_.
     res_bind (require_state ''tool_call''
                 (call_tool_version c = [] \<or> call_tool_version c = resolved)
                 ''a recorded tool version may not be replaced by a different one'') (\<lambda>_.
     res_bind (approval_identity ''tool_call'' decided_by) (\<lambda>decided_by.
     res_bind (call_transition T c TC_Running at) (\<lambda>lc.
       Inr (c\<lparr>call_lifecycle := lc, call_tool_version := resolved,
              call_approvals := call_approvals c
                @ [Approval_approved T decided_by (lc_updated_at lc)]\<rparr>)))))"

definition ToolCall_succeed ::
  "'t time_ops \<Rightarrow> ('t, 'v) tool_call \<Rightarrow> 'v \<Rightarrow> 't \<Rightarrow> run_domain_error + ('t, 'v) tool_call" where
  "ToolCall_succeed T c out at =
     res_bind (call_transition T c TC_Succeeded at) (\<lambda>lc.
       Inr (c\<lparr>call_lifecycle := lc, call_output := Some out\<rparr>))"

definition ToolCall_fail ::
  "'t time_ops \<Rightarrow> ('t, 'v) tool_call \<Rightarrow> failure \<Rightarrow> 't \<Rightarrow> run_domain_error + ('t, 'v) tool_call" where
  "ToolCall_fail T c f at =
     res_bind (call_transition T c TC_Failed at) (\<lambda>lc.
       Inr (c\<lparr>call_lifecycle := lc, call_failure := Some f\<rparr>))"

definition ToolCall_approve ::
  "'t time_ops \<Rightarrow> ('t, 'v) tool_call \<Rightarrow> string \<Rightarrow> 't \<Rightarrow> run_domain_error + ('t, 'v) tool_call" where
  "ToolCall_approve T c decided_by at =
     res_bind (require_state ''tool_call'' (call_state c = TC_AwaitingApproval)
                 ''approval decisions require awaiting_approval'') (\<lambda>_.
     res_bind (approval_identity ''tool_call'' decided_by) (\<lambda>decided_by.
     res_bind (call_transition T c TC_Running at) (\<lambda>lc.
       Inr (c\<lparr>call_lifecycle := lc,
              call_approvals := call_approvals c
                @ [Approval_approved T decided_by (lc_updated_at lc)]\<rparr>))))"

definition ToolCall_reject_approval ::
  "'t time_ops \<Rightarrow> ('t, 'v) tool_call \<Rightarrow> string \<Rightarrow> failure \<Rightarrow> 't \<Rightarrow>
   run_domain_error + ('t, 'v) tool_call" where
  "ToolCall_reject_approval T c decided_by f at =
     res_bind (require_state ''tool_call'' (call_state c = TC_AwaitingApproval)
                 ''approval decisions require awaiting_approval'') (\<lambda>_.
     res_bind (approval_identity ''tool_call'' decided_by) (\<lambda>decided_by.
     res_bind (call_transition T c TC_Denied at) (\<lambda>lc.
       Inr (c\<lparr>call_lifecycle := lc, call_failure := Some f,
              call_approvals := call_approvals c
                @ [Approval_denied T decided_by (lc_updated_at lc)]\<rparr>))))"

end
