(* ===== verification/Run_Wire.thy ===== *)
theory Run_Wire
  imports Run_Record
begin

text \<open>
  The wire form of the durable records and the validator that reads it back.

  Source: \<open>harkness-runtime/src/domain/wire.rs\<close>. The borrowing \<open>*WireRef\<close> structs and the owned
  \<open>*Wire\<close> structs carry the same fields, so one record stands for both; JSON text itself is
  \<open>serde\<close>'s. \<open>to_wire\<close> is \<open>From<&Record>\<close>, \<open>try_from\<close> is \<open>TryFrom<Wire>\<close>, with every check
  in the order of the code. The trait \<open>ApprovalState\<close> is a record of its members.
\<close>

section \<open>Wire records\<close>

definition RUNTIME_RECORD_SCHEMA_VERSION :: u32 where
  "RUNTIME_RECORD_SCHEMA_VERSION = 4"

definition MINIMUM_RUNTIME_RECORD_SCHEMA_VERSION :: u32 where
  "MINIMUM_RUNTIME_RECORD_SCHEMA_VERSION = 1"

record 't task_wire =
  tw_schema_version :: u32
  tw_id :: task_id
  tw_title :: string
  tw_workspace_root :: string
  tw_project_id :: "project_id option"
  tw_created_at :: 't

record 't run_wire =
  rw_schema_version :: u32
  rw_id :: run_id
  rw_task_id :: task_id
  rw_state :: execution_state
  rw_revision :: u64
  rw_created_at :: 't
  rw_updated_at :: 't
  rw_started_at :: "'t option"
  rw_finished_at :: "'t option"
  rw_failure :: "failure option"
  rw_approvals :: "'t approval list"
  rw_retry_of :: "run_id option"
  rw_workspace_may_be_modified :: bool

record 't step_wire =
  sw_schema_version :: u32
  sw_id :: step_id
  sw_run_id :: run_id
  sw_ordinal :: u32
  sw_title :: string
  sw_state :: execution_state
  sw_revision :: u64
  sw_created_at :: 't
  sw_updated_at :: 't
  sw_started_at :: "'t option"
  sw_finished_at :: "'t option"
  sw_failure :: "failure option"
  sw_approvals :: "'t approval list"

record ('t, 'v) tool_call_wire =
  cw_schema_version :: u32
  cw_id :: tool_call_id
  cw_run_id :: run_id
  cw_step_id :: step_id
  cw_tool_id :: string
  cw_tool_version :: string
  cw_input :: 'v
  cw_state :: tool_call_state
  cw_revision :: u64
  cw_created_at :: 't
  cw_updated_at :: 't
  cw_started_at :: "'t option"
  cw_finished_at :: "'t option"
  cw_failure :: "failure option"
  cw_output :: "'v option"
  cw_approvals :: "'t approval list"
  cw_policy_decision :: "policy_decision option"

section \<open>Writing\<close>

definition Task_to_wire :: "'t task \<Rightarrow> 't task_wire" where
  "Task_to_wire task =
     \<lparr>tw_schema_version = RUNTIME_RECORD_SCHEMA_VERSION, tw_id = task_record_id task,
      tw_title = task_title task, tw_workspace_root = task_workspace_root task,
      tw_project_id = task_project_id task, tw_created_at = task_created_at task\<rparr>"

definition Run_to_wire :: "'t run \<Rightarrow> 't run_wire" where
  "Run_to_wire run =
     (let lc = run_lifecycle run
      in \<lparr>rw_schema_version = RUNTIME_RECORD_SCHEMA_VERSION, rw_id = run_record_id run,
          rw_task_id = run_task_id run, rw_state = lc_state lc, rw_revision = lc_revision lc,
          rw_created_at = lc_created_at lc, rw_updated_at = lc_updated_at lc,
          rw_started_at = lc_started_at lc, rw_finished_at = lc_finished_at lc,
          rw_failure = run_failure run, rw_approvals = run_approvals run,
          rw_retry_of = run_retry_of run,
          rw_workspace_may_be_modified = run_workspace_may_be_modified run\<rparr>)"

definition Step_to_wire :: "'t step \<Rightarrow> 't step_wire" where
  "Step_to_wire step =
     (let lc = step_lifecycle step
      in \<lparr>sw_schema_version = RUNTIME_RECORD_SCHEMA_VERSION, sw_id = step_record_id step,
          sw_run_id = step_run_id step, sw_ordinal = step_ordinal step, sw_title = step_title step,
          sw_state = lc_state lc, sw_revision = lc_revision lc,
          sw_created_at = lc_created_at lc, sw_updated_at = lc_updated_at lc,
          sw_started_at = lc_started_at lc, sw_finished_at = lc_finished_at lc,
          sw_failure = step_failure step, sw_approvals = step_approvals step\<rparr>)"

definition ToolCall_to_wire :: "('t, 'v) tool_call \<Rightarrow> ('t, 'v) tool_call_wire" where
  "ToolCall_to_wire call =
     (let lc = call_lifecycle call
      in \<lparr>cw_schema_version = RUNTIME_RECORD_SCHEMA_VERSION, cw_id = call_record_id call,
          cw_run_id = call_run_id call, cw_step_id = call_step_id call,
          cw_tool_id = call_tool_id call, cw_tool_version = call_tool_version call,
          cw_input = call_input call, cw_state = lc_state lc, cw_revision = lc_revision lc,
          cw_created_at = lc_created_at lc, cw_updated_at = lc_updated_at lc,
          cw_started_at = lc_started_at lc, cw_finished_at = lc_finished_at lc,
          cw_failure = call_failure call, cw_output = call_output call,
          cw_approvals = call_approvals call,
          cw_policy_decision = call_policy_decision call\<rparr>)"

section \<open>Validators\<close>

definition validate_schema_version :: "string \<Rightarrow> u32 \<Rightarrow> run_domain_error + unit" where
  "validate_schema_version rec found =
     (if found < MINIMUM_RUNTIME_RECORD_SCHEMA_VERSION
      then Inl (SchemaVersionTooOld rec found MINIMUM_RUNTIME_RECORD_SCHEMA_VERSION)
      else if found > RUNTIME_RECORD_SCHEMA_VERSION
      then Inl (SchemaVersionTooNew rec found RUNTIME_RECORD_SCHEMA_VERSION)
      else Inr ())"

definition validate_failure :: "string \<Rightarrow> bool \<Rightarrow> failure option \<Rightarrow> run_domain_error + unit" where
  "validate_failure rec required f =
     (case (required, f) of
        (True, None) \<Rightarrow>
          Inl (InvalidLifecycle rec ''failed or denied states require failure detail'')
      | (False, Some _) \<Rightarrow>
          Inl (InvalidLifecycle rec
                 ''failure detail is permitted only in failed or denied states'')
      | _ \<Rightarrow> Inr ())"

definition validate_output :: "tool_call_state \<Rightarrow> 'v option \<Rightarrow> run_domain_error + unit" where
  "validate_output state out =
     (case (state = TC_Succeeded, out) of
        (True, None) \<Rightarrow> Inl (InvalidLifecycle ''tool_call'' ''succeeded requires output'')
      | (False, Some _) \<Rightarrow>
          Inl (InvalidLifecycle ''tool_call'' ''output is permitted only in succeeded'')
      | _ \<Rightarrow> Inr ())"

definition validate_policy_decision ::
  "tool_call_state \<Rightarrow> failure option \<Rightarrow> 't approval list \<Rightarrow> policy_decision option \<Rightarrow>
   run_domain_error + unit" where
  "validate_policy_decision state f approvals decision =
     (case decision of
        None \<Rightarrow> Inr ()
      | Some decision \<Rightarrow>
          (case PolicyDecision_validate decision of
             Inl reason \<Rightarrow> Inl (InvalidLifecycle ''tool_call'' reason)
           | Inr _ \<Rightarrow>
               ensure
                 (case decision_verdict decision of
                    Allow \<Rightarrow> state \<noteq> TC_AwaitingApproval \<and> state \<noteq> TC_Denied
                  | Ask \<Rightarrow> state \<noteq> TC_Pending
                  | Deny \<Rightarrow>
                      state = TC_Denied \<and> approvals = []
                      \<and> is_some_and f (\<lambda>f. failure_kind f = ''policy''
                                         \<and> failure_message f = decision_reason decision))
                 (InvalidLifecycle ''tool_call''
                    ''policy decision contradicts the tool-call lifecycle'')))"

record ('s, 't) wire_approval_state =
  is_initial :: "'s \<Rightarrow> bool"
  allows_denied_approval :: "'s \<Rightarrow> bool"
  validate_approval_shape ::
    "'s \<Rightarrow> string \<Rightarrow> 't option \<Rightarrow> u64 \<Rightarrow> 't approval list \<Rightarrow> run_domain_error + unit"

definition ExecutionState_validate_approval_shape ::
  "execution_state \<Rightarrow> string \<Rightarrow> 't option \<Rightarrow> u64 \<Rightarrow> 't approval list \<Rightarrow> run_domain_error + unit" where
  "ExecutionState_validate_approval_shape state rec started_at revision approvals =
     (if approvals = [] then Inr ()
      else if started_at = None
      then Inl (InvalidLifecycle rec ''execution approval history requires started_at'')
      else case u64_of_len (length approvals) of
          None \<Rightarrow> Inl (InvalidLifecycle rec ''approval count cannot be represented by revision'')
        | Some count \<Rightarrow>
            (case Option.bind (checked_mul count 2) (\<lambda>value. checked_add value 1) of
               None \<Rightarrow>
                 Inl (InvalidLifecycle rec ''approval count cannot be represented by revision'')
             | Some minimum \<Rightarrow>
                 if revision < minimum
                 then Inl (InvalidLifecycle rec
                        ''execution approval history requires more lifecycle revisions'')
                 else Inr ()))"

definition ToolCallState_validate_approval_shape ::
  "tool_call_state \<Rightarrow> string \<Rightarrow> 't option \<Rightarrow> u64 \<Rightarrow> 't approval list \<Rightarrow> run_domain_error + unit" where
  "ToolCallState_validate_approval_shape state rec started_at revision approvals =
     (if length approvals > 1
      then Inl (InvalidLifecycle rec ''a tool call can carry at most one approval decision'')
      else case approvals of
          [] \<Rightarrow> Inr ()
        | approval # _ \<Rightarrow>
            if state = TC_Pending \<or> state = TC_AwaitingApproval
            then Inl (InvalidLifecycle rec
                   ''an undecided tool-call state cannot carry an approval decision'')
            else if revision < 2
            then Inl (InvalidLifecycle rec
                   ''a tool-call approval decision requires two lifecycle revisions'')
            else if state = TC_Denied \<and> approval_decision approval \<noteq> OutcomeDenied
            then Inl (InvalidLifecycle rec ''a denied tool call cannot carry an approved decision'')
            else Inr ())"

definition execution_approval :: "(execution_state, 't) wire_approval_state" where
  "execution_approval =
     \<lparr>is_initial = (\<lambda>s. s = ES_Queued), allows_denied_approval = (\<lambda>s. s = ES_Failed),
      validate_approval_shape = ExecutionState_validate_approval_shape\<rparr>"

definition tool_call_approval :: "(tool_call_state, 't) wire_approval_state" where
  "tool_call_approval =
     \<lparr>is_initial = (\<lambda>s. s = TC_Pending), allows_denied_approval = (\<lambda>s. s = TC_Denied),
      validate_approval_shape = ToolCallState_validate_approval_shape\<rparr>"

text \<open>
  The loop of \<open>validate_approvals\<close>: \<open>index\<close> counts the entries read, \<open>previous\<close> is the last
  decision time and \<open>denied\<close> the index of the denial seen, which is the loop's result.
\<close>

fun approvals_loop ::
  "'t time_ops \<Rightarrow> string \<Rightarrow> 't \<Rightarrow> 't \<Rightarrow> nat \<Rightarrow> 't option \<Rightarrow> nat option \<Rightarrow> 't approval list \<Rightarrow>
   run_domain_error + nat option" where
  "approvals_loop T rec created_at updated_at index previous denied [] = Inr denied"
| "approvals_loop T rec created_at updated_at index previous denied (a # as) =
     res_bind (validate_utc T rec ''approvals.decided_at'' (approval_decided_at a)) (\<lambda>_.
       if instant T (approval_decided_at a) < instant T created_at
          \<or> instant T updated_at < instant T (approval_decided_at a)
       then Inl (InvalidTimestamp rec ''approvals.decided_at''
                   ''must fall between created_at and updated_at'')
       else if is_some_and previous (\<lambda>at. instant T (approval_decided_at a) < instant T at)
       then Inl (InvalidLifecycle rec ''approval decisions must be ordered by decided_at'')
       else if trim_is_empty (approval_decided_by a)
       then Inl (InvalidLifecycle rec ''approval decisions require decided_by'')
       else if approval_decision a = OutcomeDenied \<and> denied \<noteq> None
       then Inl (InvalidLifecycle rec ''approval history cannot contain multiple denials'')
       else approvals_loop T rec created_at updated_at (Suc index)
              (Some (approval_decided_at a))
              (if approval_decision a = OutcomeDenied then Some index else denied) as)"

definition validate_approvals ::
  "('s, 't) wire_approval_state \<Rightarrow> 't time_ops \<Rightarrow> string \<Rightarrow> 's \<Rightarrow> 't \<Rightarrow> 't \<Rightarrow> 't option \<Rightarrow> u64 \<Rightarrow>
   't approval list \<Rightarrow> run_domain_error + unit" where
  "validate_approvals A T rec state created_at updated_at started_at revision approvals =
     (if is_initial A state \<and> approvals \<noteq> []
      then Inl (InvalidLifecycle rec ''the initial state cannot carry approval decisions'')
      else
        res_bind (validate_approval_shape A state rec started_at revision approvals) (\<lambda>_.
          if is_some_and (u64_of_len (length approvals)) (\<lambda>count. count > revision)
          then Inl (InvalidLifecycle rec ''approval count cannot exceed revision'')
          else
            res_bind (approvals_loop T rec created_at updated_at 0 None None approvals)
              (\<lambda>denied.
                 if is_some_and denied (\<lambda>index. index + 1 \<noteq> length approvals
                                               \<or> \<not> allows_denied_approval A state)
                 then Inl (InvalidLifecycle rec
                   ''a denied approval must be the final decision and terminal outcome'')
                 else Inr ())))"

section \<open>Reading\<close>

definition Task_try_from :: "'t time_ops \<Rightarrow> 't task_wire \<Rightarrow> run_domain_error + 't task" where
  "Task_try_from T wire =
     res_bind (validate_schema_version ''task'' (tw_schema_version wire)) (\<lambda>_.
     res_bind (validate_utc T ''task'' ''created_at'' (tw_created_at wire)) (\<lambda>_.
       Inr \<lparr>task_record_id = tw_id wire, task_title = tw_title wire,
            task_workspace_root = tw_workspace_root wire, task_project_id = tw_project_id wire,
            task_created_at = tw_created_at wire\<rparr>))"

definition Run_try_from :: "'t time_ops \<Rightarrow> 't run_wire \<Rightarrow> run_domain_error + 't run" where
  "Run_try_from T wire =
     res_bind (validate_schema_version ''run'' (rw_schema_version wire)) (\<lambda>_.
     res_bind (Lifecycle_from_wire execution_lifecycle T ''run'' (rw_state wire)
                 (rw_created_at wire) (rw_updated_at wire) (rw_started_at wire)
                 (rw_finished_at wire) (rw_revision wire)) (\<lambda>lc.
     res_bind (validate_failure ''run'' (rw_state wire = ES_Failed) (rw_failure wire)) (\<lambda>_.
     res_bind (validate_approvals execution_approval T ''run'' (rw_state wire) (rw_created_at wire)
                 (rw_updated_at wire) (rw_started_at wire) (rw_revision wire)
                 (rw_approvals wire)) (\<lambda>_.
     res_bind (ensure (\<not> (rw_schema_version wire < 4
                          \<and> (rw_retry_of wire \<noteq> None \<or> rw_workspace_may_be_modified wire)))
                 (InvalidLifecycle ''run''
                    ''schema versions before 4 cannot carry retry provenance'')) (\<lambda>_.
     res_bind (ensure (rw_retry_of wire \<noteq> Some (rw_id wire))
                 (InvalidLifecycle ''run'' ''a run cannot be a retry of itself'')) (\<lambda>_.
     res_bind (ensure (\<not> (rw_workspace_may_be_modified wire \<and> rw_retry_of wire = None))
                 (InvalidLifecycle ''run''
                    ''only a retry may claim an earlier attempt modified the workspace'')) (\<lambda>_.
       Inr \<lparr>run_record_id = rw_id wire, run_task_id = rw_task_id wire, run_lifecycle = lc,
            run_failure = rw_failure wire, run_approvals = rw_approvals wire,
            run_retry_of = rw_retry_of wire,
            run_workspace_may_be_modified = rw_workspace_may_be_modified wire\<rparr>)))))))"

definition Step_try_from :: "'t time_ops \<Rightarrow> 't step_wire \<Rightarrow> run_domain_error + 't step" where
  "Step_try_from T wire =
     res_bind (validate_schema_version ''step'' (sw_schema_version wire)) (\<lambda>_.
     res_bind (Lifecycle_from_wire execution_lifecycle T ''step'' (sw_state wire)
                 (sw_created_at wire) (sw_updated_at wire) (sw_started_at wire)
                 (sw_finished_at wire) (sw_revision wire)) (\<lambda>lc.
     res_bind (validate_failure ''step'' (sw_state wire = ES_Failed) (sw_failure wire)) (\<lambda>_.
     res_bind (validate_approvals execution_approval T ''step'' (sw_state wire)
                 (sw_created_at wire) (sw_updated_at wire) (sw_started_at wire)
                 (sw_revision wire) (sw_approvals wire)) (\<lambda>_.
       Inr \<lparr>step_record_id = sw_id wire, step_run_id = sw_run_id wire,
            step_ordinal = sw_ordinal wire, step_title = sw_title wire, step_lifecycle = lc,
            step_failure = sw_failure wire, step_approvals = sw_approvals wire\<rparr>))))"

definition ToolCall_try_from ::
  "'t time_ops \<Rightarrow> ('t, 'v) tool_call_wire \<Rightarrow> run_domain_error + ('t, 'v) tool_call" where
  "ToolCall_try_from T wire =
     res_bind (validate_schema_version ''tool_call'' (cw_schema_version wire)) (\<lambda>_.
     res_bind (Lifecycle_from_wire tool_call_lifecycle T ''tool_call'' (cw_state wire)
                 (cw_created_at wire) (cw_updated_at wire) (cw_started_at wire)
                 (cw_finished_at wire) (cw_revision wire)) (\<lambda>lc.
     res_bind (validate_failure ''tool_call''
                 (cw_state wire = TC_Failed \<or> cw_state wire = TC_Denied) (cw_failure wire)) (\<lambda>_.
     res_bind (validate_output (cw_state wire) (cw_output wire)) (\<lambda>_.
     res_bind (validate_approvals tool_call_approval T ''tool_call'' (cw_state wire)
                 (cw_created_at wire) (cw_updated_at wire) (cw_started_at wire)
                 (cw_revision wire) (cw_approvals wire)) (\<lambda>_.
     res_bind (ensure (\<not> (cw_schema_version wire = 1 \<and> cw_policy_decision wire \<noteq> None))
                 (InvalidLifecycle ''tool_call''
                    ''schema version 1 cannot carry a policy decision'')) (\<lambda>_.
     res_bind (ensure (\<not> (cw_schema_version wire < 3
                          \<and> is_some_and (cw_policy_decision wire) (\<lambda>decision.
                               decision_external_request decision \<noteq> None
                               \<or> decision_denial_kind decision \<noteq> None)))
                 (InvalidLifecycle ''tool_call''
                    ''schema versions before 3 cannot carry external policy decision fields''))
       (\<lambda>_.
     res_bind (validate_policy_decision (cw_state wire) (cw_failure wire) (cw_approvals wire)
                 (cw_policy_decision wire)) (\<lambda>_.
       Inr \<lparr>call_record_id = cw_id wire, call_run_id = cw_run_id wire,
            call_step_id = cw_step_id wire, call_tool_id = cw_tool_id wire,
            call_tool_version = cw_tool_version wire, call_input = cw_input wire,
            call_lifecycle = lc, call_failure = cw_failure wire, call_output = cw_output wire,
            call_approvals = cw_approvals wire,
            call_policy_decision = cw_policy_decision wire\<rparr>))))))))"

end
