(* ===== verification/Run_Invariant.thy ===== *)
theory Run_Invariant
  imports Run_Wire
begin

text \<open>
  The invariants of the durable records: what every lifecycle, approval history, run, step and
  tool call satisfies after any sequence of operations, and that the wire validator accepts
  exactly such records.

  The generic part is proved once in the locale \<open>lifecycle_laws\<close> and used for both state
  machines.
\<close>

section \<open>Well-formed lifecycles\<close>

definition between_times :: "'t time_ops \<Rightarrow> 't \<Rightarrow> 't \<Rightarrow> 't \<Rightarrow> bool" where
  "between_times T a b t \<longleftrightarrow> is_utc T t \<and> instant T a \<le> instant T t \<and> instant T t \<le> instant T b"

definition lifecycle_ok :: "'s lifecycle_state \<Rightarrow> 't time_ops \<Rightarrow> ('s, 't) lifecycle \<Rightarrow> bool" where
  "lifecycle_ok D T lc \<longleftrightarrow>
     is_utc T (lc_created_at lc) \<and> is_utc T (lc_updated_at lc)
     \<and> instant T (lc_created_at lc) \<le> instant T (lc_updated_at lc)
     \<and> pred_option (between_times T (lc_created_at lc) (lc_updated_at lc)) (lc_started_at lc)
     \<and> pred_option (\<lambda>t. is_utc T t \<and> instant T t = instant T (lc_updated_at lc)) (lc_finished_at lc)
     \<and> (is_terminal D (lc_state lc) \<longleftrightarrow> lc_finished_at lc \<noteq> None)
     \<and> (requires_started_at D (lc_state lc) \<longrightarrow> lc_started_at lc \<noteq> None)
     \<and> (forbids_started_at D (lc_state lc) \<longrightarrow> lc_started_at lc = None)
     \<and> (lc_state lc = INITIAL D \<longleftrightarrow> lc_revision lc = 0)
     \<and> minimum_revision D (lc_state lc) \<le> lc_revision lc
     \<and> (lc_revision lc = 0 \<longrightarrow> instant T (lc_updated_at lc) = instant T (lc_created_at lc))"

lemma validate_utc_Inr [result_simps]: "validate_utc T rec field t = Inr u \<longleftrightarrow> is_utc T t"
  by (simp add: validate_utc_def)

lemma validate_utc_option_Inr [result_simps]:
  "validate_utc_option T rec field t = Inr u \<longleftrightarrow> pred_option (is_utc T) t"
  by (simp add: validate_utc_option_def result_simps split: option.splits)

lemma lifecycle_checks_Inr:
  "lifecycle_checks D T rec lc = Inr u \<longleftrightarrow>
     instant T (lc_created_at lc) \<le> instant T (lc_updated_at lc)
     \<and> pred_option (\<lambda>t. instant T (lc_created_at lc) \<le> instant T t
                       \<and> instant T t \<le> instant T (lc_updated_at lc)) (lc_started_at lc)
     \<and> pred_option (\<lambda>t. instant T t = instant T (lc_updated_at lc)) (lc_finished_at lc)
     \<and> (is_terminal D (lc_state lc) \<longleftrightarrow> lc_finished_at lc \<noteq> None)
     \<and> (requires_started_at D (lc_state lc) \<longrightarrow> lc_started_at lc \<noteq> None)
     \<and> (forbids_started_at D (lc_state lc) \<longrightarrow> lc_started_at lc = None)
     \<and> (lc_state lc = INITIAL D \<longleftrightarrow> lc_revision lc = 0)
     \<and> minimum_revision D (lc_state lc) \<le> lc_revision lc
     \<and> (lc_revision lc = 0 \<longrightarrow> instant T (lc_updated_at lc) = instant T (lc_created_at lc))"
  unfolding lifecycle_checks_def Let_def if_Inl_Inr_iff is_some_and_def
  by (cases "lc_started_at lc"; cases "lc_finished_at lc") (auto simp: not_less)

lemma Lifecycle_from_wire_Inr [result_simps]:
  "Lifecycle_from_wire D T rec s c u st f r = Inr lc \<longleftrightarrow>
     lc = \<lparr>lc_state = s, lc_created_at = c, lc_updated_at = u, lc_started_at = st,
           lc_finished_at = f, lc_revision = r\<rparr> \<and> lifecycle_ok D T lc"
proof -
  let ?lc = "\<lparr>lc_state = s, lc_created_at = c, lc_updated_at = u, lc_started_at = st,
              lc_finished_at = f, lc_revision = r\<rparr>"
  have "Lifecycle_from_wire D T rec s c u st f r = Inr lc \<longleftrightarrow>
      is_utc T c \<and> is_utc T u \<and> pred_option (is_utc T) st \<and> pred_option (is_utc T) f
      \<and> lifecycle_checks D T rec ?lc = Inr () \<and> lc = ?lc"
    by (auto simp: Lifecycle_from_wire_def Let_def res_bind_Inr_iff validate_utc_Inr
        validate_utc_option_Inr)
  also have "\<dots> \<longleftrightarrow> lc = ?lc \<and> lifecycle_ok D T ?lc"
    unfolding lifecycle_checks_Inr lifecycle_ok_def between_times_def
    by (cases st; cases f) auto
  finally show ?thesis
    by auto
qed

lemma Lifecycle_from_wire_fields:
  "Lifecycle_from_wire D T rec (lc_state lc) (lc_created_at lc) (lc_updated_at lc)
     (lc_started_at lc) (lc_finished_at lc) (lc_revision lc) = Inr lc \<longleftrightarrow> lifecycle_ok D T lc"
  by (simp add: result_simps)

definition lifecycle_advance ::
  "'s lifecycle_state \<Rightarrow> 't time_ops \<Rightarrow> 't \<Rightarrow> ('s, 't) lifecycle \<Rightarrow> ('s, 't) lifecycle \<Rightarrow> bool" where
  "lifecycle_advance D T at lc lc' \<longleftrightarrow>
     (lc_state lc, lc_state lc') \<in> set (transitions D)
     \<and> unat (lc_revision lc') = Suc (unat (lc_revision lc))
     \<and> lc_created_at lc' = lc_created_at lc
     \<and> lc_updated_at lc' = time_max T (to_utc T at) (lc_updated_at lc)
     \<and> lc_started_at lc' =
         (if lc_state lc' = RUNNING D \<and> lc_started_at lc = None then Some (lc_updated_at lc')
          else lc_started_at lc)
     \<and> lc_finished_at lc' =
         (if is_terminal D (lc_state lc') then Some (lc_updated_at lc') else lc_finished_at lc)"

lemma Lifecycle_transition_Inr:
  "Lifecycle_transition D T rec lc to at = Inr lc' \<longleftrightarrow>
     lifecycle_advance D T at lc lc' \<and> lc_state lc' = to"
  by (cases lc; cases lc')
     (auto simp: Lifecycle_transition_def Lifecycle_validate_edge_def result_simps Let_def
        lifecycle_advance_def checked_Suc [symmetric] split: if_splits option.splits)

lemma Lifecycle_transition_rejects:
  "(lc_state lc, to) \<notin> set (transitions D) \<Longrightarrow>
   Lifecycle_transition D T rec lc to at = Inl (invalid_transition D (lc_state lc) to)"
  by (simp add: Lifecycle_transition_def Lifecycle_validate_edge_def)

lemma Lifecycle_transition_exhausted:
  "(lc_state lc, to) \<in> set (transitions D) \<Longrightarrow> lc_revision lc = - 1 \<Longrightarrow>
   Lifecycle_transition D T rec lc to at = Inl (RevisionExhausted rec)"
  using checked_Suc_None [of "lc_revision lc"]
  by (simp add: Lifecycle_transition_def Lifecycle_validate_edge_def)

lemma Lifecycle_transition_total:
  assumes "(lc_state lc, to) \<in> set (transitions D)" "lc_revision lc \<noteq> - 1"
  shows "\<exists>lc'. Lifecycle_transition D T rec lc to at = Inr lc'"
  using assms checked_Suc_None [of "lc_revision lc"]
  by (auto simp: Lifecycle_transition_def Lifecycle_validate_edge_def Let_def split: option.splits)

context lifecycle_laws
begin

lemma new_ok: "time_laws T \<Longrightarrow> lifecycle_ok D T (Lifecycle_new D T at)"
  using initial_live initial_unstarted initial_revision
  by (simp add: lifecycle_ok_def Lifecycle_new_def Let_def)

lemma advance_ok:
  assumes T: "time_laws T" and ok: "lifecycle_ok D T lc" and adv: "lifecycle_advance D T at lc lc'"
  shows "lifecycle_ok D T lc'"
proof -
  let ?a = "lc_state lc" and ?b = "lc_state lc'"
  have edge: "(?a, ?b) \<in> set (transitions D)"
    and rev: "unat (lc_revision lc') = Suc (unat (lc_revision lc))"
    using adv by (simp_all add: lifecycle_advance_def)
  have upd: "instant T (lc_updated_at lc) \<le> instant T (lc_updated_at lc')"
    "is_utc T (lc_updated_at lc')"
    using adv ok T by (auto simp: lifecycle_advance_def lifecycle_ok_def time_max_def)
  have live: "lc_finished_at lc = None"
    using ok edge_from_live [OF edge] by (simp add: lifecycle_ok_def)
  have min: "minimum_revision D ?b \<le> lc_revision lc'"
  proof -
    have "unat (minimum_revision D ?a) \<le> unat (lc_revision lc)"
      using ok by (simp add: lifecycle_ok_def word_le_nat_alt)
    then show ?thesis
      using edge_revision [OF edge] rev by (simp add: word_le_nat_alt)
  qed
  have nz: "lc_revision lc' \<noteq> 0"
    using rev by (auto simp: unat_eq_0 [symmetric])
  show ?thesis
    using adv ok T edge edge_not_initial [OF edge] edge_requires [OF edge] edge_forbids [OF edge]
      upd live min nz
    by (cases "lc_started_at lc")
       (auto simp: lifecycle_ok_def lifecycle_advance_def between_times_def split: if_splits)
qed

lemma terminal_transition_refused:
  "is_terminal D (lc_state lc) \<Longrightarrow>
   Lifecycle_transition D T rec lc to at = Inl (invalid_transition D (lc_state lc) to)"
  by (rule Lifecycle_transition_rejects) (rule terminal_is_final)

end

lemma advance_monotone:
  "lifecycle_advance D T at lc lc' \<Longrightarrow> instant T (lc_updated_at lc) \<le> instant T (lc_updated_at lc')"
  by (simp add: lifecycle_advance_def time_max_instant)

lemma advance_started:
  "lifecycle_advance D T at lc lc' \<Longrightarrow> lc_started_at lc \<noteq> None \<Longrightarrow> lc_started_at lc' = lc_started_at lc"
  by (auto simp: lifecycle_advance_def)

section \<open>Approval histories\<close>

definition history_ok ::
  "'t time_ops \<Rightarrow> ('s, 't) lifecycle \<Rightarrow> 't approval list \<Rightarrow> bool" where
  "history_ok T lc as \<longleftrightarrow>
     (\<forall>a\<in>set as. between_times T (lc_created_at lc) (lc_updated_at lc) (approval_decided_at a)
                \<and> \<not> trim_is_empty (approval_decided_by a))
     \<and> sorted_wrt (\<lambda>a b. instant T (approval_decided_at a) \<le> instant T (approval_decided_at b)) as
     \<and> (\<forall>a\<in>set (butlast as). approval_decision a \<noteq> OutcomeDenied)"

definition ends_denied :: "'t approval list \<Rightarrow> bool" where
  "ends_denied as \<longleftrightarrow> as \<noteq> [] \<and> approval_decision (last as) = OutcomeDenied"

lemma approvals_loop_accepts:
  assumes "\<forall>a\<in>set as. between_times T c u (approval_decided_at a)
                \<and> \<not> trim_is_empty (approval_decided_by a)"
    and "sorted_wrt (\<lambda>a b. instant T (approval_decided_at a) \<le> instant T (approval_decided_at b)) as"
    and "\<forall>a\<in>set (butlast as). approval_decision a \<noteq> OutcomeDenied"
    and "\<forall>a\<in>set as. pred_option (\<lambda>p. instant T p \<le> instant T (approval_decided_at a)) prev"
  shows "approvals_loop T rec c u i prev None as
       = Inr (if ends_denied as then Some (i + length as - 1) else None)"
  using assms
proof (induction as arbitrary: i prev)
  case (Cons a as)
  have "approvals_loop T rec c u i prev None (a # as)
      = approvals_loop T rec c u (Suc i) (Some (approval_decided_at a))
          (if approval_decision a = OutcomeDenied then Some i else None) as"
    using Cons.prems
    by (cases prev) (auto simp: validate_utc_def between_times_def is_some_and_def)
  with Cons show ?case
    by (cases "as = []") (auto simp: ends_denied_def)
qed (simp add: ends_denied_def)

lemma validate_approvals_Inr:
  assumes "history_ok T lc as" "as \<noteq> [] \<Longrightarrow> \<not> is_initial A (lc_state lc)"
    and "validate_approval_shape A (lc_state lc) rec (lc_started_at lc) (lc_revision lc) as = Inr ()"
    and "length as \<le> unat (lc_revision lc)"
    and "ends_denied as \<Longrightarrow> allows_denied_approval A (lc_state lc)"
  shows "validate_approvals A T rec (lc_state lc) (lc_created_at lc) (lc_updated_at lc)
           (lc_started_at lc) (lc_revision lc) as = Inr ()"
proof -
  obtain w where w: "u64_of_len (length as) = Some w" "unat w = length as"
    using u64_of_len_le [OF assms(4)] by blast
  have loop: "approvals_loop T rec (lc_created_at lc) (lc_updated_at lc) 0 None None as
      = Inr (if ends_denied as then Some (length as - 1) else None)"
    using approvals_loop_accepts [of as T "lc_created_at lc" "lc_updated_at lc" None rec 0] assms(1)
    by (simp add: history_ok_def)
  have "length as - 1 + 1 = length as" if "ends_denied as"
    using that by (cases as) (auto simp: ends_denied_def)
  then show ?thesis
    using assms(2-5) w
    by (auto simp: validate_approvals_def loop is_some_and_def word_less_nat_alt)
qed

lemma history_ok_empty [simp]: "history_ok T lc []" "\<not> ends_denied []"
  by (simp_all add: history_ok_def ends_denied_def)

lemma history_ok_advance:
  "history_ok T lc as \<Longrightarrow> lifecycle_advance D T at lc lc' \<Longrightarrow> history_ok T lc' as"
  using advance_monotone [of D T at lc lc']
  by (fastforce simp: history_ok_def between_times_def lifecycle_advance_def)

lemma history_ok_decide:
  assumes "history_ok T lc as" "time_laws T" "lifecycle_ok D T lc"
    and "\<not> ends_denied as" "\<not> trim_is_empty who"
  shows "history_ok T lc (as @ [Approval_new T who d (lc_updated_at lc)])"
proof -
  have "approval_decision a \<noteq> OutcomeDenied" if "a \<in> set as" for a
    using that assms(1,4) by (cases as rule: rev_cases) (auto simp: history_ok_def ends_denied_def)
  then show ?thesis
    using assms
    by (auto simp: history_ok_def sorted_wrt_append between_times_def Approval_new_def
        lifecycle_ok_def)
qed

lemma ends_denied_snoc [simp]:
  "ends_denied (as @ [Approval_new T who d at]) \<longleftrightarrow> d = OutcomeDenied"
  by (simp add: ends_denied_def Approval_new_def)

section \<open>Runs and steps\<close>

text \<open>
  What a run and a step share. An approval takes two revisions (entering and leaving
  \<open>waiting_for_approval\<close>) after the one that started the work, which is what makes
  \<open>2 * n + 1\<close> the least revision of a history with \<open>n\<close> entries.
\<close>

definition execution_ok ::
  "'t time_ops \<Rightarrow> (execution_state, 't) lifecycle \<Rightarrow> failure option \<Rightarrow> 't approval list \<Rightarrow> bool" where
  "execution_ok T lc f as \<longleftrightarrow>
     lifecycle_ok execution_lifecycle T lc
     \<and> (f \<noteq> None \<longleftrightarrow> lc_state lc = ES_Failed)
     \<and> history_ok T lc as
     \<and> (as \<noteq> [] \<longrightarrow> lc_started_at lc \<noteq> None)
     \<and> (lc_started_at lc \<noteq> None \<longrightarrow> 2 * length as + 1 \<le> unat (lc_revision lc))
     \<and> (lc_state lc = ES_WaitingForApproval \<longrightarrow> 2 * length as + 2 \<le> unat (lc_revision lc))
     \<and> (ends_denied as \<longrightarrow> lc_state lc = ES_Failed)"

lemma execution_new_ok:
  "time_laws T \<Longrightarrow> execution_ok T (Lifecycle_new execution_lifecycle T at) None []"
  using execution.new_ok [of T at]
  by (simp add: execution_ok_def) (simp add: Lifecycle_new_def Let_def execution_defs)

lemma execution_live_not_denied:
  "execution_ok T lc f as \<Longrightarrow> lifecycle_advance execution_lifecycle T at lc lc' \<Longrightarrow>
   f = None \<and> \<not> ends_denied as"
  by (auto simp: execution_ok_def lifecycle_advance_def execution_defs)

lemma execution_started_iff:
  "lifecycle_ok execution_lifecycle T lc \<Longrightarrow>
   lc_state lc = ES_WaitingForApproval \<or> lc_state lc = ES_Running \<Longrightarrow> lc_started_at lc \<noteq> None"
  by (auto simp: lifecycle_ok_def execution_defs)

lemma execution_advance_revision:
  assumes "time_laws T" "execution_ok T lc f as" "lifecycle_advance execution_lifecycle T at lc lc'"
  shows "lc_started_at lc' \<noteq> None \<Longrightarrow> 2 * length as + 1 \<le> unat (lc_revision lc')"
    and "lc_state lc' = ES_WaitingForApproval \<Longrightarrow> 2 * length as + 2 \<le> unat (lc_revision lc')"
    and "as \<noteq> [] \<Longrightarrow> lc_started_at lc' \<noteq> None"
proof -
  have rev: "unat (lc_revision lc') = Suc (unat (lc_revision lc))"
    and waiting: "lc_state lc' = ES_WaitingForApproval \<Longrightarrow> lc_state lc = ES_Running"
    using assms(3) by (auto simp: lifecycle_advance_def execution_defs)
  have old: "lc_started_at lc \<noteq> None \<Longrightarrow> 2 * length as + 1 \<le> unat (lc_revision lc)"
    "lc_started_at lc = None \<Longrightarrow> as = []"
    using assms(2) by (auto simp: execution_ok_def)
  show "lc_started_at lc' \<noteq> None \<Longrightarrow> 2 * length as + 1 \<le> unat (lc_revision lc')"
    using old rev by (cases "lc_started_at lc") auto
  show "lc_state lc' = ES_WaitingForApproval \<Longrightarrow> 2 * length as + 2 \<le> unat (lc_revision lc')"
    using old rev waiting execution_started_iff [of T lc] assms(2)
    by (auto simp: execution_ok_def)
  show "as \<noteq> [] \<Longrightarrow> lc_started_at lc' \<noteq> None"
    using old(2) advance_started [OF assms(3)] by (cases "lc_started_at lc") auto
qed

lemma execution_plain_ok:
  assumes "time_laws T" "execution_ok T lc f as" "lifecycle_advance execution_lifecycle T at lc lc'"
    and "lc_state lc' \<noteq> ES_Failed"
  shows "execution_ok T lc' f as"
  using assms execution_live_not_denied [OF assms(2,3)] execution_advance_revision [OF assms(1-3)]
    execution.advance_ok [OF assms(1) _ assms(3)] history_ok_advance [OF _ assms(3)]
  by (simp add: execution_ok_def)

lemma execution_fail_ok:
  assumes "time_laws T" "execution_ok T lc f as" "lifecycle_advance execution_lifecycle T at lc lc'"
    and "lc_state lc' = ES_Failed"
  shows "execution_ok T lc' (Some g) as"
  using assms execution_live_not_denied [OF assms(2,3)] execution_advance_revision [OF assms(1-3)]
    execution.advance_ok [OF assms(1) _ assms(3)] history_ok_advance [OF _ assms(3)]
  by (simp add: execution_ok_def)

lemma execution_decide_ok:
  assumes T: "time_laws T" and ok: "execution_ok T lc f as"
    and adv: "lifecycle_advance execution_lifecycle T at lc lc'"
    and waiting: "lc_state lc = ES_WaitingForApproval" and who: "\<not> trim_is_empty who"
    and outcome: "lc_state lc' = ES_Failed \<and> d = OutcomeDenied \<and> f' \<noteq> None
                  \<or> lc_state lc' = ES_Running \<and> d = OutcomeApproved \<and> f' = None"
  shows "execution_ok T lc' f' (as @ [Approval_new T who d (lc_updated_at lc')])"
proof -
  have lc': "lifecycle_ok execution_lifecycle T lc'"
    using execution.advance_ok [OF T _ adv] ok by (simp add: execution_ok_def)
  have live: "\<not> ends_denied as"
    using execution_live_not_denied [OF ok adv] by simp
  have "history_ok T lc' (as @ [Approval_new T who d (lc_updated_at lc')])"
    using history_ok_decide [OF _ T lc' live who] history_ok_advance [OF _ adv] ok
    by (simp add: execution_ok_def)
  moreover have "2 * length as + 2 \<le> unat (lc_revision lc)" "lc_started_at lc \<noteq> None"
    using ok waiting execution_started_iff [of T lc] by (auto simp: execution_ok_def)
  moreover have "lc_started_at lc' = lc_started_at lc"
    using advance_started [OF adv] calculation by simp
  moreover have "unat (lc_revision lc') = Suc (unat (lc_revision lc))"
    using adv by (simp add: lifecycle_advance_def)
  ultimately show ?thesis
    using lc' outcome by (auto simp: execution_ok_def)
qed

lemma execution_shape_Inr:
  assumes "execution_ok T lc f as"
  shows "ExecutionState_validate_approval_shape (lc_state lc) rec (lc_started_at lc)
           (lc_revision lc) as = Inr ()"
proof (cases "as = []")
  case False
  with assms have st: "lc_started_at lc \<noteq> None" and rev: "2 * length as + 1 \<le> unat (lc_revision lc)"
    by (auto simp: execution_ok_def)
  obtain w where w: "u64_of_len (length as) = Some w" "unat w = length as"
    using u64_of_len_le [of "length as" "lc_revision lc"] rev by auto
  have bound: "unat (lc_revision lc) < 2 ^ 64"
    using unsigned_less [of "lc_revision lc", where ?'a = nat] by simp
  obtain m where m: "checked_mul w 2 = Some m" "unat m = 2 * length as"
    using w(2) rev bound by (auto simp: checked_mul_def unat_word_ariths)
  obtain n where n: "checked_add m 1 = Some n" "unat n = 2 * length as + 1"
    using m(2) rev bound by (auto simp: checked_add_def unat_word_ariths)
  show ?thesis
    using False st w m n rev
    by (simp add: ExecutionState_validate_approval_shape_def word_less_nat_alt)
qed (simp add: ExecutionState_validate_approval_shape_def)

lemma execution_validates:
  assumes "execution_ok T lc f as"
  shows "validate_approvals execution_approval T rec (lc_state lc) (lc_created_at lc)
           (lc_updated_at lc) (lc_started_at lc) (lc_revision lc) as = Inr ()"
    and "validate_failure rec (lc_state lc = ES_Failed) f = Inr ()"
proof -
  show "validate_failure rec (lc_state lc = ES_Failed) f = Inr ()"
    using assms by (cases f) (auto simp: validate_failure_def execution_ok_def)
  show "validate_approvals execution_approval T rec (lc_state lc) (lc_created_at lc)
           (lc_updated_at lc) (lc_started_at lc) (lc_revision lc) as = Inr ()"
  proof (rule validate_approvals_Inr)
    show "history_ok T lc as"
      using assms by (simp add: execution_ok_def)
    show "\<not> is_initial execution_approval (lc_state lc)" if "as \<noteq> []"
      using assms that
      by (auto simp: execution_ok_def execution_approval_def lifecycle_ok_def execution_defs)
    show "length as \<le> unat (lc_revision lc)"
      using assms by (cases "as = []") (auto simp: execution_ok_def)
    show "allows_denied_approval execution_approval (lc_state lc)" if "ends_denied as"
      using assms that by (simp add: execution_ok_def execution_approval_def)
  qed (simp add: execution_approval_def execution_shape_Inr [OF assms])
qed

end
