(* ===== verification/Run_Properties.thy ===== *)
theory Run_Properties
  imports Run_Invariant
begin

text \<open>
  Runs, steps and tool calls over any sequence of operations: the records the operations can
  build, that each of them survives the wire, that a terminal record is frozen, and that no work
  crosses an approval without one.
\<close>

section \<open>Operations as data\<close>

datatype 't run_op =
    RunTransition execution_state 't
  | RunFail failure 't
  | RunApprove string 't
  | RunReject string failure 't
  | RunResume string 't

primrec run_apply :: "'t time_ops \<Rightarrow> 't run \<Rightarrow> 't run_op \<Rightarrow> run_domain_error + 't run" where
  "run_apply T r (RunTransition to at) = Run_transition T r to at"
| "run_apply T r (RunFail f at) = Run_fail T r f at"
| "run_apply T r (RunApprove who at) = Run_approve T r who at"
| "run_apply T r (RunReject who f at) = Run_reject_approval T r who f at"
| "run_apply T r (RunResume who at) = Run_resume_after_denial T r who at"

datatype 't step_op =
    StepTransition execution_state 't
  | StepFail failure 't
  | StepApprove string 't
  | StepReject string failure 't

primrec step_apply :: "'t time_ops \<Rightarrow> 't step \<Rightarrow> 't step_op \<Rightarrow> run_domain_error + 't step" where
  "step_apply T s (StepTransition to at) = Step_transition T s to at"
| "step_apply T s (StepFail f at) = Step_fail T s f at"
| "step_apply T s (StepApprove who at) = Step_approve T s who at"
| "step_apply T s (StepReject who f at) = Step_reject_approval T s who f at"

datatype ('t, 'v) call_op =
    CallDecide policy_decision 't
  | CallTransition tool_call_state 't
  | CallDispatch string 't
  | CallDispatchApproved string string 't
  | CallSucceed 'v 't
  | CallFail failure 't
  | CallApprove string 't
  | CallReject string failure 't

primrec call_apply ::
  "'t time_ops \<Rightarrow> ('t, 'v) tool_call \<Rightarrow> ('t, 'v) call_op \<Rightarrow> run_domain_error + ('t, 'v) tool_call" where
  "call_apply T c (CallDecide d at) = ToolCall_apply_policy_decision T c d at"
| "call_apply T c (CallTransition to at) = ToolCall_transition T c to at"
| "call_apply T c (CallDispatch v at) = ToolCall_dispatch T c v at"
| "call_apply T c (CallDispatchApproved who v at) = ToolCall_dispatch_approved T c who v at"
| "call_apply T c (CallSucceed out at) = ToolCall_succeed T c out at"
| "call_apply T c (CallFail f at) = ToolCall_fail T c f at"
| "call_apply T c (CallApprove who at) = ToolCall_approve T c who at"
| "call_apply T c (CallReject who f at) = ToolCall_reject_approval T c who f at"

text \<open>
  Records reachable from the constructors by any operations, the ones a loader later refuses
  included: a run made as the retry of itself, and a tool call parked although policy allowed it.
\<close>

inductive run_reachable :: "'t time_ops \<Rightarrow> 't run \<Rightarrow> bool" for T where
  run_new: "run_reachable T (Run_with_id T i task at)"
| run_retry: "run_reachable T (Run_retrying_with_id T i task original modified at)"
| run_op: "run_reachable T r \<Longrightarrow> run_apply T r op = Inr r' \<Longrightarrow> run_reachable T r'"

inductive step_reachable :: "'t time_ops \<Rightarrow> 't step \<Rightarrow> bool" for T where
  step_new: "step_reachable T (Step_with_id T i run ordinal title at)"
| step_op: "step_reachable T s \<Longrightarrow> step_apply T s op = Inr s' \<Longrightarrow> step_reachable T s'"

definition allowed_call :: "('t, 'v) tool_call \<Rightarrow> bool" where
  "allowed_call c = is_some_and (call_policy_decision c) (\<lambda>d. decision_verdict d = Allow)"

text \<open>The calls whose state contradicts an \<open>allow\<close>: parked, or denied by the human it was parked for.\<close>

definition contradicts_allow :: "('t, 'v) tool_call \<Rightarrow> bool" where
  "contradicts_allow c \<longleftrightarrow> allowed_call c \<and> call_state c \<in> {TC_AwaitingApproval, TC_Denied}"

definition retries_itself :: "'t run \<Rightarrow> bool" where
  "retries_itself r \<longleftrightarrow> run_retry_of r = Some (run_record_id r)"

inductive call_reachable :: "'t time_ops \<Rightarrow> ('t, 'v) tool_call \<Rightarrow> bool" for T where
  call_new: "call_reachable T (ToolCall_with_id T i step tool version input at)"
| call_op: "call_reachable T c \<Longrightarrow> call_apply T c op = Inr c' \<Longrightarrow> call_reachable T c'"

section \<open>Runs\<close>

lemma approval_identity_Inr [result_simps]:
  "approval_identity rec who = Inr w \<longleftrightarrow> w = who \<and> \<not> trim_is_empty who"
  by (auto simp: approval_identity_def)

lemma require_state_Inr [result_simps]: "require_state rec c why = Inr u \<longleftrightarrow> c"
  by (simp add: require_state_def result_simps)

lemma validate_edge_Inr [result_simps]:
  "Lifecycle_validate_edge D lc to = Inr u \<longleftrightarrow> (lc_state lc, to) \<in> set (transitions D)"
  by (simp add: Lifecycle_validate_edge_def)

lemmas run_op_defs =
  Run_transition_def Run_fail_def Run_approve_def Run_reject_approval_def
  Run_resume_after_denial_def Approval_approved_def Approval_denied_def

lemmas step_op_defs =
  Step_transition_def Step_fail_def Step_approve_def Step_reject_approval_def
  Approval_approved_def Approval_denied_def

definition run_ok :: "'t time_ops \<Rightarrow> 't run \<Rightarrow> bool" where
  "run_ok T r \<longleftrightarrow>
     execution_ok T (run_lifecycle r) (run_failure r) (run_approvals r)
     \<and> (run_workspace_may_be_modified r \<longrightarrow> run_retry_of r \<noteq> None)"

definition step_ok :: "'t time_ops \<Rightarrow> 't step \<Rightarrow> bool" where
  "step_ok T s \<longleftrightarrow> execution_ok T (step_lifecycle s) (step_failure s) (step_approvals s)"

text \<open>What one successful operation does to the record, whichever operation it is.\<close>

definition execution_step ::
  "'t time_ops \<Rightarrow> 't \<Rightarrow> (execution_state, 't) lifecycle \<times> failure option \<times> 't approval list \<Rightarrow>
   (execution_state, 't) lifecycle \<times> failure option \<times> 't approval list \<Rightarrow> bool" where
  "execution_step T at x y \<longleftrightarrow>
     (case x of (lc, f, as) \<Rightarrow> case y of (lc', f', as') \<Rightarrow>
        lifecycle_advance execution_lifecycle T at lc lc'
        \<and> (as' = as \<and> (if lc_state lc' = ES_Failed then f' \<noteq> None else f' = f)
           \<or> (\<exists>who d. lc_state lc = ES_WaitingForApproval \<and> \<not> trim_is_empty who
                \<and> as' = as @ [Approval_new T who d (lc_updated_at lc')]
                \<and> (lc_state lc' = ES_Failed \<and> d = OutcomeDenied \<and> f' \<noteq> None
                   \<or> lc_state lc' = ES_Running \<and> d = OutcomeApproved \<and> f' = f))))"

lemma execution_step_ok:
  assumes T: "time_laws T" and ok: "execution_ok T lc f as"
    and st: "execution_step T at (lc, f, as) (lc', f', as')"
  shows "execution_ok T lc' f' as'"
proof -
  have adv: "lifecycle_advance execution_lifecycle T at lc lc'"
    using st by (simp add: execution_step_def)
  have f: "f = None"
    using execution_live_not_denied [OF ok adv] by simp
  consider (plain) "as' = as" "lc_state lc' \<noteq> ES_Failed" "f' = f"
    | (fail) g where "as' = as" "lc_state lc' = ES_Failed" "f' = Some g"
    | (decide) who d where "lc_state lc = ES_WaitingForApproval" "\<not> trim_is_empty who"
        "as' = as @ [Approval_new T who d (lc_updated_at lc')]"
        "lc_state lc' = ES_Failed \<and> d = OutcomeDenied \<and> f' \<noteq> None
         \<or> lc_state lc' = ES_Running \<and> d = OutcomeApproved \<and> f' = None"
    using st f by (fastforce simp: execution_step_def split: if_splits)
  then show ?thesis
  proof cases
    case plain
    then show ?thesis using execution_plain_ok [OF T ok adv] by simp
  next
    case fail
    then show ?thesis using execution_fail_ok [OF T ok adv] by simp
  next
    case decide
    then show ?thesis using execution_decide_ok [OF T ok adv] by simp
  qed
qed

lemma run_apply_step:
  assumes "run_apply T r op = Inr r'"
  shows "\<exists>at. execution_step T at (run_lifecycle r, run_failure r, run_approvals r)
              (run_lifecycle r', run_failure r', run_approvals r')"
    and "run_record_id r' = run_record_id r" "run_task_id r' = run_task_id r"
      "run_retry_of r' = run_retry_of r"
      "run_workspace_may_be_modified r' = run_workspace_may_be_modified r"
  using assms
  by (cases op; auto simp: run_op_defs result_simps Lifecycle_transition_Inr execution_step_def
        split: if_splits)+

lemma step_apply_step:
  assumes "step_apply T s op = Inr s'"
  shows "\<exists>at. execution_step T at (step_lifecycle s, step_failure s, step_approvals s)
              (step_lifecycle s', step_failure s', step_approvals s')"
    and "step_record_id s' = step_record_id s" "step_run_id s' = step_run_id s"
      "step_ordinal s' = step_ordinal s"
  using assms
  by (cases op; auto simp: step_op_defs result_simps Lifecycle_transition_Inr execution_step_def
        split: if_splits)+

lemma run_reachable_ok: "run_reachable T r \<Longrightarrow> time_laws T \<Longrightarrow> run_ok T r"
proof (induction rule: run_reachable.induct)
  case (run_new i task at)
  then show ?case
    by (simp add: run_ok_def Run_with_id_def execution_new_ok)
next
  case (run_retry original i task modified at)
  then show ?case
    by (simp add: run_ok_def Run_retrying_with_id_def Run_with_id_def execution_new_ok)
next
  case (run_op r op r')
  then show ?case
    using run_apply_step [of T r op r'] execution_step_ok by (auto simp: run_ok_def)
qed

lemma step_reachable_ok: "step_reachable T s \<Longrightarrow> time_laws T \<Longrightarrow> step_ok T s"
proof (induction rule: step_reachable.induct)
  case (step_new i run ordinal title at)
  then show ?case
    by (simp add: step_ok_def Step_with_id_def execution_new_ok)
next
  case (step_op s op s')
  then show ?case
    using step_apply_step [of T s op s'] execution_step_ok by (auto simp: step_ok_def)
qed

lemma schema_current [simp]: "validate_schema_version rec RUNTIME_RECORD_SCHEMA_VERSION = Inr ()"
  by (simp add: validate_schema_version_def RUNTIME_RECORD_SCHEMA_VERSION_def
      MINIMUM_RUNTIME_RECORD_SCHEMA_VERSION_def)

lemma validate_schema_version_Inr:
  "validate_schema_version rec v = Inr u \<longleftrightarrow> 1 \<le> v \<and> v \<le> 4"
  unfolding validate_schema_version_def if_Inl_Inr_iff RUNTIME_RECORD_SCHEMA_VERSION_def
    MINIMUM_RUNTIME_RECORD_SCHEMA_VERSION_def linorder_not_less
  by simp

lemma run_ok_roundtrip:
  "run_ok T r \<Longrightarrow> Run_try_from T (Run_to_wire r) =
     (if retries_itself r
      then Inl (InvalidLifecycle ''run'' ''a run cannot be a retry of itself'') else Inr r)"
  using Lifecycle_from_wire_fields [of execution_lifecycle T "''run''" "run_lifecycle r"]
  by (auto simp: run_ok_def retries_itself_def Run_try_from_def Run_to_wire_def Let_def
      execution_validates
      execution_ok_def [THEN iffD1, THEN conjunct1] RUNTIME_RECORD_SCHEMA_VERSION_def
      schema_current [unfolded RUNTIME_RECORD_SCHEMA_VERSION_def])

lemma step_ok_roundtrip: "step_ok T s \<Longrightarrow> Step_try_from T (Step_to_wire s) = Inr s"
  using Lifecycle_from_wire_fields [of execution_lifecycle T "''step''" "step_lifecycle s"]
  by (auto simp: step_ok_def Step_try_from_def Step_to_wire_def Let_def execution_validates
      execution_ok_def [THEN iffD1, THEN conjunct1])

section \<open>Tool calls\<close>

lemmas call_op_defs =
  ToolCall_apply_policy_decision_def ToolCall_transition_def ToolCall_dispatch_def
  ToolCall_dispatch_approved_def ToolCall_succeed_def ToolCall_fail_def ToolCall_approve_def
  ToolCall_reject_approval_def Approval_approved_def Approval_denied_def

definition decision_ok ::
  "tool_call_state \<Rightarrow> failure option \<Rightarrow> 't approval list \<Rightarrow> policy_decision option \<Rightarrow> bool" where
  "decision_ok st f as d =
     pred_option (\<lambda>d. is_ok (PolicyDecision_validate d)
       \<and> (case decision_verdict d of
            Allow \<Rightarrow> True
          | Ask \<Rightarrow> st \<noteq> TC_Pending
          | Deny \<Rightarrow> st = TC_Denied \<and> as = []
                   \<and> f = Some (Failure_new ''policy'' (decision_reason d)))) d"

definition call_ok :: "'t time_ops \<Rightarrow> ('t, 'v) tool_call \<Rightarrow> bool" where
  "call_ok T c \<longleftrightarrow>
     lifecycle_ok tool_call_lifecycle T (call_lifecycle c)
     \<and> (call_failure c \<noteq> None \<longleftrightarrow> call_state c = TC_Failed \<or> call_state c = TC_Denied)
     \<and> (call_output c \<noteq> None \<longleftrightarrow> call_state c = TC_Succeeded)
     \<and> history_ok T (call_lifecycle c) (call_approvals c)
     \<and> length (call_approvals c) \<le> 1
     \<and> (call_approvals c \<noteq> [] \<longrightarrow>
          call_state c \<noteq> TC_Pending \<and> call_state c \<noteq> TC_AwaitingApproval
          \<and> 2 \<le> unat (lc_revision (call_lifecycle c))
          \<and> (call_state c = TC_Denied \<longleftrightarrow> ends_denied (call_approvals c)))
     \<and> decision_ok (call_state c) (call_failure c) (call_approvals c) (call_policy_decision c)"

lemma call_ok_validates:
  assumes "call_ok T c"
  shows "validate_approvals tool_call_approval T ''tool_call'' (call_state c)
           (lc_created_at (call_lifecycle c)) (lc_updated_at (call_lifecycle c))
           (lc_started_at (call_lifecycle c)) (lc_revision (call_lifecycle c))
           (call_approvals c) = Inr ()"
proof (rule validate_approvals_Inr)
  show "history_ok T (call_lifecycle c) (call_approvals c)"
    using assms by (simp add: call_ok_def)
  show "\<not> is_initial tool_call_approval (call_state c)" if "call_approvals c \<noteq> []"
    using assms that by (simp add: call_ok_def tool_call_approval_def)
  show "allows_denied_approval tool_call_approval (call_state c)" if "ends_denied (call_approvals c)"
    using assms that by (auto simp: call_ok_def tool_call_approval_def ends_denied_def)
  show "length (call_approvals c) \<le> unat (lc_revision (call_lifecycle c))"
    using assms by (cases "call_approvals c = []") (auto simp: call_ok_def)
  show "validate_approval_shape tool_call_approval (call_state c) ''tool_call''
          (lc_started_at (call_lifecycle c)) (lc_revision (call_lifecycle c)) (call_approvals c)
        = Inr ()"
    using assms
    by (cases "call_approvals c")
       (auto simp: call_ok_def tool_call_approval_def ToolCallState_validate_approval_shape_def
          ends_denied_def word_less_nat_alt)
qed

lemma decision_ok_validates:
  "decision_ok st f as d \<Longrightarrow> validate_policy_decision st f as d =
     (if is_some_and d (\<lambda>d. decision_verdict d = Allow) \<and> st \<in> {TC_AwaitingApproval, TC_Denied}
      then Inl (InvalidLifecycle ''tool_call''
                  ''policy decision contradicts the tool-call lifecycle'')
      else Inr ())"
  by (auto simp: decision_ok_def validate_policy_decision_def is_ok_iff is_some_and_def
      Failure_new_def split: option.splits policy_verdict.splits)

lemma call_ok_roundtrip:
  "call_ok T c \<Longrightarrow> ToolCall_try_from T (ToolCall_to_wire c) =
     (if contradicts_allow c
      then Inl (InvalidLifecycle ''tool_call''
                  ''policy decision contradicts the tool-call lifecycle'')
      else Inr c)"
proof -
  assume ok: "call_ok T c"
  have lc: "Lifecycle_from_wire tool_call_lifecycle T ''tool_call'' (call_state c)
     (lc_created_at (call_lifecycle c)) (lc_updated_at (call_lifecycle c))
     (lc_started_at (call_lifecycle c)) (lc_finished_at (call_lifecycle c))
     (lc_revision (call_lifecycle c)) = Inr (call_lifecycle c)"
    using ok by (simp add: Lifecycle_from_wire_fields call_ok_def)
  have f: "validate_failure ''tool_call'' (call_state c = TC_Failed \<or> call_state c = TC_Denied)
      (call_failure c) = Inr ()"
    using ok by (cases "call_failure c") (auto simp: validate_failure_def call_ok_def)
  have out: "validate_output (call_state c) (call_output c) = Inr ()"
    using ok by (cases "call_output c") (auto simp: validate_output_def call_ok_def)
  have dec: "validate_policy_decision (call_state c) (call_failure c) (call_approvals c)
      (call_policy_decision c) =
        (if contradicts_allow c
         then Inl (InvalidLifecycle ''tool_call''
                     ''policy decision contradicts the tool-call lifecycle'')
         else Inr ())"
    using decision_ok_validates [of "call_state c" "call_failure c" "call_approvals c"] ok
    by (simp add: call_ok_def contradicts_allow_def allowed_call_def)
  show ?thesis
    by (simp add: ToolCall_try_from_def ToolCall_to_wire_def Let_def lc f out dec
        call_ok_validates [OF ok]) (simp add: RUNTIME_RECORD_SCHEMA_VERSION_def)
qed

lemma call_new_ok: "time_laws T \<Longrightarrow> call_ok T (ToolCall_with_id T i step tool version input at)"
  using tool_call.new_ok [of T at]
  by (simp add: call_ok_def ToolCall_with_id_def decision_ok_def)
     (simp add: Lifecycle_new_def Let_def tool_call_defs)

text \<open>Every operation but the recording of an \<open>allow\<close> advances the lifecycle.\<close>

lemma call_apply_advance:
  assumes "call_apply T c op = Inr c'"
  shows "(\<exists>at. lifecycle_advance tool_call_lifecycle T at (call_lifecycle c) (call_lifecycle c'))
     \<or> call_state c = TC_Pending \<and> call_policy_decision c = None
       \<and> (\<exists>d at. op = CallDecide d at \<and> decision_verdict d = Allow
                \<and> is_ok (PolicyDecision_validate d) \<and> c' = c\<lparr>call_policy_decision := Some d\<rparr>)"
  using assms
  by (cases op)
     (auto simp: call_op_defs result_simps Lifecycle_transition_Inr is_ok_iff
        split: if_splits sum.splits policy_verdict.splits)

lemma call_live:
  assumes "call_ok T c" "lifecycle_advance tool_call_lifecycle T at (call_lifecycle c) lc'"
  shows "call_failure c = None" "call_output c = None" "\<not> ends_denied (call_approvals c)"
    "pred_option (\<lambda>d. is_ok (PolicyDecision_validate d) \<and> decision_verdict d \<noteq> Deny)
       (call_policy_decision c)"
proof -
  have "\<not> is_terminal tool_call_lifecycle (call_state c)"
    using assms(2) tool_call.edge_from_live by (auto simp: lifecycle_advance_def)
  then have live: "call_state c \<notin> {TC_Succeeded, TC_Failed, TC_Denied}"
    by (auto simp: tool_call_lifecycle_def ToolCallState_is_terminal_def)
  show "call_failure c = None" "call_output c = None" "\<not> ends_denied (call_approvals c)"
    using assms(1) live by (auto simp: call_ok_def ends_denied_def)
  show "pred_option (\<lambda>d. is_ok (PolicyDecision_validate d) \<and> decision_verdict d \<noteq> Deny)
       (call_policy_decision c)"
    using assms(1) live
    by (cases "call_policy_decision c") (auto simp: call_ok_def decision_ok_def)
qed

lemma call_undecided:
  "call_ok T c \<Longrightarrow> call_state c = TC_Pending \<or> call_state c = TC_AwaitingApproval \<Longrightarrow>
   call_approvals c = []"
  by (auto simp: call_ok_def)

lemma call_advance_facts:
  assumes "time_laws T" "call_ok T c"
    and "lifecycle_advance tool_call_lifecycle T at (call_lifecycle c) lc'"
  shows "lifecycle_ok tool_call_lifecycle T lc'" "history_ok T lc' (call_approvals c)"
    "unat (lc_revision lc') = Suc (unat (lc_revision (call_lifecycle c)))"
  using assms tool_call.advance_ok [OF assms(1) _ assms(3)] history_ok_advance [OF _ assms(3)]
  by (auto simp: call_ok_def lifecycle_advance_def)

text \<open>A move that leaves the outcome fields alone.\<close>

lemma call_move_ok:
  assumes T: "time_laws T" and ok: "call_ok T c"
    and adv: "lifecycle_advance tool_call_lifecycle T at (call_lifecycle c) lc'"
    and to: "lc_state lc' \<notin> {TC_Succeeded, TC_Failed, TC_Denied}"
  shows "call_ok T (c\<lparr>call_lifecycle := lc', call_tool_version := v\<rparr>)"
proof -
  have "lc_state lc' \<noteq> TC_Pending"
    "lc_state lc' = TC_AwaitingApproval \<Longrightarrow> call_state c = TC_Pending"
    using adv by (auto simp: lifecycle_advance_def tool_call_defs)
  note st = this
  have dec: "decision_ok (lc_state lc') None (call_approvals c) (call_policy_decision c)"
    using call_live(4) [OF ok adv] to st(1)
    by (cases "call_policy_decision c") (auto simp: decision_ok_def split: policy_verdict.splits)
  have "call_approvals c = []" if "lc_state lc' = TC_AwaitingApproval"
    using call_undecided [OF ok] st(2) [OF that] by simp
  moreover have "2 \<le> unat (lc_revision (call_lifecycle c))" if "call_approvals c \<noteq> []"
    using ok that by (simp add: call_ok_def)
  moreover have "length (call_approvals c) \<le> 1"
    using ok by (simp add: call_ok_def)
  ultimately show ?thesis
    using st(1) to dec call_advance_facts [OF T ok adv] call_live(1-3) [OF ok adv]
    by (simp add: call_ok_def) linarith
qed

lemma call_decide_ok:
  assumes T: "time_laws T" and ok: "call_ok T c" and state: "call_state c = TC_AwaitingApproval"
    and adv: "lifecycle_advance tool_call_lifecycle T at (call_lifecycle c) lc'"
    and who: "\<not> trim_is_empty who"
    and outcome: "lc_state lc' = TC_Running \<and> d = OutcomeApproved \<and> f = None
                  \<or> lc_state lc' = TC_Denied \<and> d = OutcomeDenied \<and> f \<noteq> None"
  shows "call_ok T (c\<lparr>call_lifecycle := lc', call_tool_version := v, call_failure := f,
            call_approvals := call_approvals c @ [Approval_new T who d (lc_updated_at lc')]\<rparr>)"
proof -
  have none: "call_approvals c = []"
    using call_undecided [OF ok] state by simp
  have rev: "1 \<le> unat (lc_revision (call_lifecycle c))"
    using ok state by (auto simp: call_ok_def lifecycle_ok_def tool_call_defs word_le_nat_alt)
  have "history_ok T lc' [Approval_new T who d (lc_updated_at lc')]"
    using history_ok_decide [of T lc' "[]" tool_call_lifecycle who d] T who
      call_advance_facts [OF T ok adv] by simp
  then show ?thesis
    using none rev outcome ok call_advance_facts [OF T ok adv] call_live [OF ok adv]
    by (cases "call_policy_decision c")
       (auto simp: call_ok_def decision_ok_def ends_denied_def Approval_new_def
        split: policy_verdict.splits)
qed

lemma call_finish_ok:
  assumes T: "time_laws T" and ok: "call_ok T c"
    and adv: "lifecycle_advance tool_call_lifecycle T at (call_lifecycle c) lc'"
    and outcome: "lc_state lc' = TC_Succeeded \<and> out \<noteq> None \<and> f = None
                  \<or> lc_state lc' = TC_Failed \<and> out = None \<and> f \<noteq> None"
  shows "call_ok T (c\<lparr>call_lifecycle := lc', call_failure := f, call_output := out\<rparr>)"
  using outcome ok call_advance_facts [OF T ok adv] call_live [OF ok adv]
  by (cases "call_policy_decision c")
     (auto simp: call_ok_def decision_ok_def ends_denied_def split: policy_verdict.splits)

lemma call_policy_ok:
  assumes T: "time_laws T" and ok: "call_ok T c" and valid: "is_ok (PolicyDecision_validate d)"
    and state: "call_state c = TC_Pending"
    and adv: "lifecycle_advance tool_call_lifecycle T at (call_lifecycle c) lc'"
    and outcome: "lc_state lc' = TC_AwaitingApproval \<and> decision_verdict d = Ask \<and> f = None
       \<or> lc_state lc' = TC_Denied \<and> decision_verdict d = Deny
         \<and> f = Some (Failure_new ''policy'' (decision_reason d))"
  shows "call_ok T (c\<lparr>call_lifecycle := lc', call_failure := f, call_policy_decision := Some d\<rparr>)"
  using outcome ok valid call_undecided [OF ok] state call_advance_facts [OF T ok adv]
    call_live [OF ok adv]
  by (auto simp: call_ok_def decision_ok_def)

lemma call_allow_ok:
  assumes "call_ok T c" "call_state c = TC_Pending" "is_ok (PolicyDecision_validate d)"
    "decision_verdict d = Allow"
  shows "call_ok T (c\<lparr>call_policy_decision := Some d\<rparr>)"
  using assms by (simp add: call_ok_def decision_ok_def)

lemma call_apply_ok:
  assumes T: "time_laws T" and ok: "call_ok T c" and ap: "call_apply T c op = Inr c'"
  shows "call_ok T c'"
proof (cases op)
  case (CallDecide d at)
  show ?thesis
  proof (cases "decision_verdict d")
    case Allow
    then show ?thesis
      using ap CallDecide call_allow_ok [OF ok]
      by (auto simp: call_op_defs result_simps is_ok_iff split: sum.splits)
  next
    case Ask
    then obtain lc' where lc': "lifecycle_advance tool_call_lifecycle T at (call_lifecycle c) lc'"
      "lc_state lc' = TC_AwaitingApproval" "call_state c = TC_Pending"
      "is_ok (PolicyDecision_validate d)"
      and c': "c' = c\<lparr>call_lifecycle := lc', call_policy_decision := Some d\<rparr>"
      using ap CallDecide
      by (auto simp: call_op_defs result_simps is_ok_iff Lifecycle_transition_Inr split: sum.splits)
    have "c' = c\<lparr>call_lifecycle := lc', call_failure := None, call_policy_decision := Some d\<rparr>"
      using c' call_live(1) [OF ok lc'(1)] by (cases c) simp
    then show ?thesis
      using call_policy_ok [OF T ok lc'(4,3,1)] lc'(2) Ask by simp
  next
    case Deny
    then show ?thesis
      using ap CallDecide call_policy_ok [OF T ok, where d = d]
      by (auto simp: call_op_defs result_simps is_ok_iff Lifecycle_transition_Inr split: sum.splits)
  qed
next
  case (CallTransition to at)
  then obtain lc' where lc': "lifecycle_advance tool_call_lifecycle T at (call_lifecycle c) lc'"
    "lc_state lc' = to" "to \<notin> {TC_Succeeded, TC_Failed, TC_Denied}"
    and c': "c' = c\<lparr>call_lifecycle := lc'\<rparr>"
    using ap by (auto simp: call_op_defs result_simps Lifecycle_transition_Inr split: if_splits)
  have "call_ok T (c\<lparr>call_lifecycle := lc', call_tool_version := call_tool_version c\<rparr>)"
    by (rule call_move_ok [OF T ok lc'(1)])
       (use lc'(2,3) in auto)
  moreover have "c\<lparr>call_lifecycle := lc', call_tool_version := call_tool_version c\<rparr> = c'"
    using c' by (cases c) simp
  ultimately show ?thesis
    by simp
next
  case (CallDispatch v at)
  then obtain lc' where lc': "lifecycle_advance tool_call_lifecycle T at (call_lifecycle c) lc'"
    "lc_state lc' = TC_Running" and c': "c' = c\<lparr>call_lifecycle := lc', call_tool_version := v\<rparr>"
    using ap by (auto simp: call_op_defs result_simps Lifecycle_transition_Inr)
  show ?thesis
    unfolding c' by (rule call_move_ok [OF T ok lc'(1)]) (simp_all add: lc'(2))
next
  case (CallDispatchApproved who v at)
  then obtain lc' where lc': "lifecycle_advance tool_call_lifecycle T at (call_lifecycle c) lc'"
    "lc_state lc' = TC_Running" "call_state c = TC_AwaitingApproval" "\<not> trim_is_empty who"
    and c': "c' = c\<lparr>call_lifecycle := lc', call_tool_version := v,
        call_approvals := call_approvals c @ [Approval_new T who OutcomeApproved (lc_updated_at lc')]\<rparr>"
    using ap by (auto simp: call_op_defs result_simps Lifecycle_transition_Inr)
  have "c' = c\<lparr>call_lifecycle := lc', call_tool_version := v, call_failure := None,
        call_approvals := call_approvals c @ [Approval_new T who OutcomeApproved (lc_updated_at lc')]\<rparr>"
    using c' call_live(1) [OF ok lc'(1)] by (cases c) simp
  then show ?thesis
    using call_decide_ok [OF T ok lc'(3,1,4)] lc'(2) by simp
next
  case (CallSucceed out at)
  then obtain lc' where lc': "lifecycle_advance tool_call_lifecycle T at (call_lifecycle c) lc'"
    "lc_state lc' = TC_Succeeded" and c': "c' = c\<lparr>call_lifecycle := lc', call_output := Some out\<rparr>"
    using ap by (auto simp: call_op_defs result_simps Lifecycle_transition_Inr)
  have "c' = c\<lparr>call_lifecycle := lc', call_failure := None, call_output := Some out\<rparr>"
    using c' call_live(1) [OF ok lc'(1)] by (cases c) simp
  then show ?thesis
    using call_finish_ok [OF T ok lc'(1)] lc'(2) by simp
next
  case (CallFail f at)
  then obtain lc' where lc': "lifecycle_advance tool_call_lifecycle T at (call_lifecycle c) lc'"
    "lc_state lc' = TC_Failed" and c': "c' = c\<lparr>call_lifecycle := lc', call_failure := Some f\<rparr>"
    using ap by (auto simp: call_op_defs result_simps Lifecycle_transition_Inr)
  have "c' = c\<lparr>call_lifecycle := lc', call_failure := Some f, call_output := None\<rparr>"
    using c' call_live(2) [OF ok lc'(1)] by (cases c) simp
  then show ?thesis
    using call_finish_ok [OF T ok lc'(1)] lc'(2) by simp
next
  case (CallApprove who at)
  then obtain lc' where lc': "lifecycle_advance tool_call_lifecycle T at (call_lifecycle c) lc'"
    "lc_state lc' = TC_Running" "call_state c = TC_AwaitingApproval" "\<not> trim_is_empty who"
    and c': "c' = c\<lparr>call_lifecycle := lc',
        call_approvals := call_approvals c @ [Approval_new T who OutcomeApproved (lc_updated_at lc')]\<rparr>"
    using ap by (auto simp: call_op_defs result_simps Lifecycle_transition_Inr)
  have "c' = c\<lparr>call_lifecycle := lc', call_tool_version := call_tool_version c, call_failure := None,
        call_approvals := call_approvals c @ [Approval_new T who OutcomeApproved (lc_updated_at lc')]\<rparr>"
    using c' call_live(1) [OF ok lc'(1)] by (cases c) simp
  then show ?thesis
    using call_decide_ok [OF T ok lc'(3,1,4), where v = "call_tool_version c"] lc'(2) by simp
next
  case (CallReject who f at)
  then obtain lc' where lc': "lifecycle_advance tool_call_lifecycle T at (call_lifecycle c) lc'"
    "lc_state lc' = TC_Denied" "call_state c = TC_AwaitingApproval" "\<not> trim_is_empty who"
    and c': "c' = c\<lparr>call_lifecycle := lc', call_failure := Some f,
        call_approvals := call_approvals c @ [Approval_new T who OutcomeDenied (lc_updated_at lc')]\<rparr>"
    using ap by (auto simp: call_op_defs result_simps Lifecycle_transition_Inr)
  have "c' = c\<lparr>call_lifecycle := lc', call_tool_version := call_tool_version c, call_failure := Some f,
        call_approvals := call_approvals c @ [Approval_new T who OutcomeDenied (lc_updated_at lc')]\<rparr>"
    using c' by (cases c) simp
  then show ?thesis
    using call_decide_ok [OF T ok lc'(3,1,4), where v = "call_tool_version c"] lc'(2) by simp
qed

lemma call_reachable_ok: "call_reachable T c \<Longrightarrow> time_laws T \<Longrightarrow> call_ok T c"
  by (induction rule: call_reachable.induct) (simp add: call_new_ok, metis call_apply_ok)

text \<open>What a started call owes to the gate it passed.\<close>

definition call_gated :: "('t, 'v) tool_call \<Rightarrow> bool" where
  "call_gated c \<longleftrightarrow>
     (lc_started_at (call_lifecycle c) \<noteq> None
      \<and> is_some_and (call_policy_decision c) (\<lambda>d. decision_verdict d = Ask) \<longrightarrow>
      (\<exists>a\<in>set (call_approvals c). approval_decision a = OutcomeApproved))"

lemma call_gated_apply:
  assumes "call_ok T c" "call_gated c" "call_apply T c op = Inr c'"
  shows "call_gated c'"
proof -
  have pending: "lc_started_at (call_lifecycle c) = None"
    if "call_state c = TC_Pending \<or> call_state c = TC_AwaitingApproval"
    using assms(1) that by (auto simp: call_ok_def lifecycle_ok_def tool_call_defs)
  have notask: "\<not> is_some_and (call_policy_decision c) (\<lambda>d. decision_verdict d = Ask)"
    if "call_state c = TC_Pending"
    using assms(1) that
    by (cases "call_policy_decision c") (auto simp: call_ok_def decision_ok_def is_some_and_def)
  have running: "call_state c = TC_Pending \<or> call_state c = TC_AwaitingApproval"
    if "lifecycle_advance tool_call_lifecycle T at (call_lifecycle c) lc'" "lc_state lc' = TC_Running"
    for at lc'
    using that by (auto simp: lifecycle_advance_def tool_call_defs)
  have keep: "lc_started_at lc' = lc_started_at (call_lifecycle c)"
    if "lifecycle_advance tool_call_lifecycle T at (call_lifecycle c) lc'" "lc_state lc' \<noteq> TC_Running"
    for at lc'
    using that by (auto simp: lifecycle_advance_def tool_call_lifecycle_def)
  show ?thesis
  proof (cases op)
    case (CallTransition to at)
    then obtain lc' where "lifecycle_advance tool_call_lifecycle T at (call_lifecycle c) lc'"
      "lc_state lc' = to" "\<not> (call_state c = TC_AwaitingApproval \<and> to = TC_Running)"
      "c' = c\<lparr>call_lifecycle := lc'\<rparr>"
      using assms(3) by (auto simp: call_op_defs result_simps Lifecycle_transition_Inr split: if_splits)
    then show ?thesis
      using assms(2) notask running [of at lc'] keep [of at lc']
      by (cases "to = TC_Running") (auto simp: call_gated_def)
  qed (use assms(2,3) pending notask keep in
       \<open>auto simp: call_op_defs result_simps Lifecycle_transition_Inr call_gated_def
          Approval_new_def is_some_and_def split: if_splits sum.splits policy_verdict.splits\<close>)
qed

lemma call_reachable_gated: "call_reachable T c \<Longrightarrow> time_laws T \<Longrightarrow> call_gated c"
proof (induction rule: call_reachable.induct)
  case (call_new i step tool version input at)
  then show ?case
    by (simp add: call_gated_def ToolCall_with_id_def is_some_and_def)
next
  case (call_op c op c')
  then show ?case
    using call_gated_apply call_reachable_ok by blast
qed

lemma call_apply_decision:
  "call_apply T c op = Inr c' \<Longrightarrow> call_state c \<noteq> TC_Pending \<Longrightarrow>
   call_policy_decision c' = call_policy_decision c"
  by (cases op)
     (auto simp: call_op_defs result_simps split: if_splits sum.splits policy_verdict.splits)

section \<open>Scripts of operations\<close>

fun run_script :: "'t time_ops \<Rightarrow> 't run \<Rightarrow> 't run_op list \<Rightarrow> run_domain_error + 't run" where
  "run_script T r [] = Inr r"
| "run_script T r (op # ops) = res_bind (run_apply T r op) (\<lambda>r. run_script T r ops)"

fun step_script :: "'t time_ops \<Rightarrow> 't step \<Rightarrow> 't step_op list \<Rightarrow> run_domain_error + 't step" where
  "step_script T s [] = Inr s"
| "step_script T s (op # ops) = res_bind (step_apply T s op) (\<lambda>s. step_script T s ops)"

fun call_script ::
  "'t time_ops \<Rightarrow> ('t, 'v) tool_call \<Rightarrow> ('t, 'v) call_op list \<Rightarrow> run_domain_error + ('t, 'v) tool_call"
where
  "call_script T c [] = Inr c"
| "call_script T c (op # ops) =
     res_bind (call_apply T c op) (\<lambda>c. call_script T c ops)"

lemma run_script_reachable:
  "run_script T r ops = Inr r' \<Longrightarrow> run_reachable T r \<Longrightarrow> run_reachable T r'"
  by (induction T r ops rule: run_script.induct) (auto simp: result_simps intro: run_op)

lemma step_script_reachable:
  "step_script T s ops = Inr s' \<Longrightarrow> step_reachable T s \<Longrightarrow> step_reachable T s'"
  by (induction T s ops rule: step_script.induct) (auto simp: result_simps intro: step_op)

lemma call_script_reachable:
  "call_script T c ops = Inr c' \<Longrightarrow> call_reachable T c \<Longrightarrow> call_reachable T c'"
  by (induction T c ops rule: call_script.induct)
     (auto simp: result_simps intro: call_op)

definition sample_run :: "run_domain_error + (int \<times> int) run" where
  "sample_run =
     run_script offset_time (Run_retrying_with_id offset_time (RunId 1) (TaskId 2) (RunId 3) True (5, 60))
       [RunTransition ES_Running (4, 0), RunTransition ES_WaitingForApproval (9, - 30),
        RunApprove ''ada'' (7, 0), RunFail (Failure_new ''io'' ''disk full'') (12, 0)]"

definition sample_step :: "run_domain_error + (int \<times> int) step" where
  "sample_step =
     step_script offset_time (Step_with_id offset_time (StepId 1) (RunId 3) 0 ''build'' (5, 60))
       [StepTransition ES_Running (6, 0), StepTransition ES_WaitingForApproval (9, - 30),
        StepReject ''ada'' (Failure_new ''denied'' ''no'') (12, 0)]"

definition sample_call :: "(int \<times> int, int) tool_call" where
  "sample_call =
     ToolCall_with_id offset_time (ToolCallId 7)
       (Step_with_id offset_time (StepId 1) (RunId 3) 0 ''build'' (5, 60)) ''fs.write'' ''1.0.0'' 42
       (6, 0)"

definition sample_decision :: "policy_verdict \<Rightarrow> policy_decision" where
  "sample_decision v = PolicyDecision_new v ''default'' BuiltIn False"

lemma sample_run_ok:
  "is_ok sample_run"
  "case sample_run of Inr r \<Rightarrow> run_retry_of r \<noteq> Some (run_record_id r) | Inl e \<Rightarrow> False"
  by code_simp+

lemma sample_step_ok: "is_ok sample_step"
  by code_simp

definition sample_asked :: "run_domain_error + (int \<times> int, int) tool_call" where
  "sample_asked =
     call_script offset_time sample_call
       [CallDecide (sample_decision Ask) (7, 0), CallDispatchApproved ''ada'' ''1.0.0'' (8, 0),
        CallSucceed 43 (9, 0)]"

definition sample_allowed :: "run_domain_error + (int \<times> int, int) tool_call" where
  "sample_allowed = call_script offset_time sample_call [CallDecide (sample_decision Allow) (7, 0)]"

lemma sample_asked_ok:
  "is_ok sample_asked"
  "case sample_asked of Inr c \<Rightarrow> call_policy_decision c = Some (sample_decision Ask)
      \<and> lc_started_at (call_lifecycle c) \<noteq> None | Inl e \<Rightarrow> False"
  by code_simp+

lemma sample_allowed_ok:
  "is_ok sample_allowed"
  "case sample_allowed of Inr c \<Rightarrow> call_policy_decision c = Some (sample_decision Allow)
      \<and> is_ok (ToolCall_transition offset_time c TC_AwaitingApproval (8, 0)) | Inl e \<Rightarrow> False"
  by code_simp+

lemma sample_reachable:
  "sample_run = Inr r \<Longrightarrow> run_reachable offset_time r"
  "sample_step = Inr s \<Longrightarrow> step_reachable offset_time s"
  "sample_asked = Inr c \<Longrightarrow> call_reachable offset_time c"
  "sample_allowed = Inr c \<Longrightarrow> call_reachable offset_time c"
  unfolding sample_run_def sample_step_def sample_asked_def sample_allowed_def sample_call_def
  by (erule run_script_reachable, rule run_retry)
     (erule step_script_reachable, rule step_new, (erule call_script_reachable, rule call_new)+)

section \<open>Properties\<close>

text \<open>
  C3: Every run that the constructors and any sequence of successful operations can build is
  accepted by the wire validator and read back unchanged, with one exception: a run built as the
  retry of itself, which \<open>Run::retrying_with_id\<close> does not rule out, is refused with the one error
  that names it.
\<close>

theorem run_roundtrip:
  assumes "time_laws T" "run_reachable T r"
  shows "Run_try_from T (Run_to_wire r) =
    (if run_retry_of r = Some (run_record_id r)
     then Inl (InvalidLifecycle ''run'' ''a run cannot be a retry of itself'') else Inr r)"
  using run_ok_roundtrip [OF run_reachable_ok [OF assms(2,1)]] by (simp add: retries_itself_def)

theorem run_roundtrip_witness:
  "(\<exists>r. sample_run = Inr r \<and> run_reachable offset_time r \<and> time_laws offset_time
        \<and> Run_try_from offset_time (Run_to_wire r) = Inr r)
   \<and> \<not> is_ok (Run_try_from offset_time (Run_to_wire
          (Run_retrying_with_id offset_time (RunId 1) (TaskId 2) (RunId 1) False (5, 0))))"
proof -
  obtain r where r: "sample_run = Inr r" "run_retry_of r \<noteq> Some (run_record_id r)"
    using sample_run_ok(2) by (auto split: sum.splits)
  show ?thesis
    using run_roundtrip [OF offset_time_laws sample_reachable(1) [OF r(1)]]
      run_roundtrip [OF offset_time_laws run_retry [of offset_time "RunId 1" "TaskId 2" "RunId 1"]]
      r sample_reachable(1) [OF r(1)] offset_time_laws
    by (auto simp: Run_retrying_with_id_def Run_with_id_def)
qed

text \<open>The same agreement of engine and loader for steps.\<close>

theorem step_roundtrip:
  assumes "time_laws T" "step_reachable T s"
  shows "Step_try_from T (Step_to_wire s) = Inr s"
  using assms by (intro step_ok_roundtrip step_reachable_ok)

theorem step_roundtrip_witness:
  "\<exists>s. sample_step = Inr s \<and> step_reachable offset_time s \<and> time_laws offset_time
       \<and> Step_try_from offset_time (Step_to_wire s) = Inr s"
  using sample_step_ok step_roundtrip [OF offset_time_laws] offset_time_laws sample_reachable(2)
  by (auto simp: is_ok_iff)



text \<open>
  C34: A tool call that started with a policy decision on record passed that gate: the decision is
  not a denial, and when it is \<open>ask\<close> the record holds an approval by a named decider. Once a call
  has started no operation records or replaces a decision, so a call that was dispatched without one
  (which \<open>dispatch\<close> permits) never carries one later.
\<close>

theorem started_call_passed_its_gate:
  assumes "time_laws T" "call_reachable T c" "lc_started_at (call_lifecycle c) \<noteq> None"
  shows "(call_policy_decision c = Some d \<longrightarrow>
       decision_verdict d \<noteq> Deny
       \<and> (decision_verdict d = Ask \<longrightarrow>
          (\<exists>a\<in>set (call_approvals c). approval_decision a = OutcomeApproved
             \<and> \<not> trim_is_empty (approval_decided_by a))))
    \<and> (call_apply T c op = Inr c' \<longrightarrow> call_policy_decision c' = call_policy_decision c)"
proof -
  have ok: "call_ok T c"
    using assms call_reachable_ok by blast
  then have "call_state c \<noteq> TC_Denied" "call_state c \<noteq> TC_Pending"
    using assms(3) by (auto simp: call_ok_def lifecycle_ok_def tool_call_defs)
  then show ?thesis
    using ok call_reachable_gated [OF assms(2,1)] assms(3) call_apply_decision [of T c op c']
    by (auto simp: call_ok_def decision_ok_def call_gated_def is_some_and_def history_ok_def)
qed

theorem started_call_passed_its_gate_witness:
  "\<exists>c a. sample_asked = Inr c \<and> a \<in> set (call_approvals c) \<and> approval_decision a = OutcomeApproved
         \<and> \<not> trim_is_empty (approval_decided_by a)"
proof -
  obtain c where c: "sample_asked = Inr c"
    using sample_asked_ok(1) by (auto simp: is_ok_iff)
  have "call_policy_decision c = Some (sample_decision Ask)"
    "lc_started_at (call_lifecycle c) \<noteq> None"
    using sample_asked_ok(2) unfolding c by auto
  then show ?thesis
    using started_call_passed_its_gate
        [OF offset_time_laws sample_reachable(3) [OF c], of "sample_decision Ask"
         "CallTransition TC_Running (9, 0)" c] c
    by (auto simp: sample_decision_def PolicyDecision_new_def)
qed

text \<open>
  A run, step or tool call in a terminal state is frozen: every operation on it returns an
  error, so nothing of the record changes again.
\<close>

theorem terminal_records_are_frozen:
  "(\<forall>op. \<not> (is_terminal execution_lifecycle (run_state r) \<and> is_ok (run_apply T r op)))
   \<and> (\<forall>op. \<not> (is_terminal execution_lifecycle (step_state s) \<and> is_ok (step_apply T s op)))
   \<and> (\<forall>op. \<not> (is_terminal tool_call_lifecycle (call_state c) \<and> is_ok (call_apply T c op)))"
proof (intro conjI allI notI; elim conjE)
  fix op assume "is_terminal execution_lifecycle (run_state r)" "is_ok (run_apply T r op)"
  then show False
    using run_apply_step(1) [of T r op] execution.terminal_is_final
    by (auto simp: is_ok_iff execution_step_def lifecycle_advance_def)
next
  fix op assume "is_terminal execution_lifecycle (step_state s)" "is_ok (step_apply T s op)"
  then show False
    using step_apply_step(1) [of T s op] execution.terminal_is_final
    by (auto simp: is_ok_iff execution_step_def lifecycle_advance_def)
next
  fix op assume "is_terminal tool_call_lifecycle (call_state c)" "is_ok (call_apply T c op)"
  then show False
    using call_apply_advance [of T c op] tool_call.terminal_is_final [of TC_Pending]
      tool_call.terminal_is_final tool_call.initial_live
    by (auto simp: is_ok_iff lifecycle_advance_def tool_call_lifecycle_def)
qed

text \<open>
  A successful operation on a run moves along one edge of the transition table, increases the
  revision by exactly one, never moves \<open>updated_at\<close> back (whatever the clock said), keeps
  \<open>created_at\<close>, the identifiers and a start time once set, and only appends to the approval history.
\<close>

theorem run_operation_advances:
  assumes "run_apply T r op = Inr r'"
  shows "(run_state r, run_state r') \<in> set EXECUTION_TRANSITIONS
    \<and> unat (lc_revision (run_lifecycle r')) = Suc (unat (lc_revision (run_lifecycle r)))
    \<and> instant T (lc_updated_at (run_lifecycle r)) \<le> instant T (lc_updated_at (run_lifecycle r'))
    \<and> lc_created_at (run_lifecycle r') = lc_created_at (run_lifecycle r)
    \<and> run_record_id r' = run_record_id r \<and> run_task_id r' = run_task_id r
    \<and> run_retry_of r' = run_retry_of r
    \<and> (lc_started_at (run_lifecycle r) \<noteq> None \<longrightarrow>
         lc_started_at (run_lifecycle r') = lc_started_at (run_lifecycle r))
    \<and> (\<exists>more. run_approvals r' = run_approvals r @ more \<and> length more \<le> 1)"
proof -
  obtain at where step: "execution_step T at (run_lifecycle r, run_failure r, run_approvals r)
      (run_lifecycle r', run_failure r', run_approvals r')"
    using run_apply_step(1) [OF assms] by blast
  then have "lifecycle_advance execution_lifecycle T at (run_lifecycle r) (run_lifecycle r')"
    by (simp add: execution_step_def)
  moreover have "\<exists>more. run_approvals r' = run_approvals r @ more \<and> length more \<le> 1"
    using step by (auto simp: execution_step_def)
  ultimately show ?thesis
    using run_apply_step(2-5) [OF assms] advance_monotone advance_started
    by (auto simp: lifecycle_advance_def execution_lifecycle_def time_max_instant)
qed

lemma sample_start_ok:
  "is_ok (run_apply offset_time (Run_with_id offset_time (RunId 1) (TaskId 2) (5, 0))
     (RunTransition ES_Running (4, 0)))"
  by code_simp

theorem run_operation_advances_witness:
  "\<exists>r'. run_apply offset_time (Run_with_id offset_time (RunId 1) (TaskId 2) (5, 0))
            (RunTransition ES_Running (4, 0)) = Inr r'
       \<and> unat (lc_revision (run_lifecycle r')) = 1"
proof -
  obtain r' where r': "run_apply offset_time (Run_with_id offset_time (RunId 1) (TaskId 2) (5, 0))
            (RunTransition ES_Running (4, 0)) = Inr r'"
    using sample_start_ok by (auto simp: is_ok_iff)
  then show ?thesis
    using run_operation_advances [OF r'] by (simp add: Run_with_id_def Lifecycle_new_def Let_def)
qed

text \<open>
  A run leaves \<open>waiting_for_approval\<close> for \<open>running\<close> only by an approval or by resuming after a
  denial, each with a decider that is not blank; \<open>Run::transition\<close> cannot do it.
\<close>

theorem run_resumes_only_by_decision:
  assumes "run_apply T r op = Inr r'"
    and "run_state r = ES_WaitingForApproval" "run_state r' = ES_Running"
  shows "\<exists>who at. (op = RunApprove who at \<or> op = RunResume who at) \<and> \<not> trim_is_empty who"
  using assms
  by (cases op) (auto simp: run_op_defs result_simps Lifecycle_transition_Inr split: if_splits)

definition sample_waiting :: "run_domain_error + (int \<times> int) run" where
  "sample_waiting =
     run_script offset_time (Run_with_id offset_time (RunId 1) (TaskId 2) (5, 0))
       [RunTransition ES_Running (6, 0), RunTransition ES_WaitingForApproval (7, 0)]"

lemma sample_waiting_ok:
  "case sample_waiting of Inr r \<Rightarrow> run_state r = ES_WaitingForApproval
     \<and> (case run_apply offset_time r (RunApprove ''ada'' (8, 0)) of
          Inr r' \<Rightarrow> run_state r' = ES_Running | Inl e \<Rightarrow> False) | Inl e \<Rightarrow> False"
  by code_simp

theorem run_resumes_only_by_decision_witness:
  "\<exists>r r'. sample_waiting = Inr r \<and> run_apply offset_time r (RunApprove ''ada'' (8, 0)) = Inr r'
     \<and> \<not> trim_is_empty ''ada''"
proof -
  obtain r where r: "sample_waiting = Inr r" "run_state r = ES_WaitingForApproval"
    and ap: "case run_apply offset_time r (RunApprove ''ada'' (8, 0)) of
          Inr r' \<Rightarrow> run_state r' = ES_Running | Inl e \<Rightarrow> False"
    using sample_waiting_ok by (auto split: sum.splits)
  from ap obtain r' where r': "run_apply offset_time r (RunApprove ''ada'' (8, 0)) = Inr r'"
    "run_state r' = ES_Running"
    by (auto split: sum.splits)
  show ?thesis
    using run_resumes_only_by_decision [OF r'(1) r(2) r'(2)] r r' by auto
qed

text \<open>
  What the loader accepts, it accepts whole: the record read is the wire record field by
  field, so writing it again gives the wire record at the current schema version; its lifecycle is
  well formed, and it has failure detail exactly in \<open>failed\<close> and \<open>denied\<close> and output exactly in
  \<open>succeeded\<close>.
\<close>

theorem tool_call_loader_sound:
  assumes "ToolCall_try_from T w = Inr c"
  shows "ToolCall_to_wire c = w\<lparr>cw_schema_version := RUNTIME_RECORD_SCHEMA_VERSION\<rparr>
    \<and> 1 \<le> cw_schema_version w \<and> cw_schema_version w \<le> 4
    \<and> lifecycle_ok tool_call_lifecycle T (call_lifecycle c)
    \<and> (call_failure c \<noteq> None \<longleftrightarrow> call_state c \<in> {TC_Failed, TC_Denied})
    \<and> (call_output c \<noteq> None \<longleftrightarrow> call_state c = TC_Succeeded)"
proof -
  have v: "1 \<le> cw_schema_version w \<and> cw_schema_version w \<le> 4"
    using assms by (auto simp: ToolCall_try_from_def res_bind_Inr_iff validate_schema_version_Inr)
  have f: "validate_failure ''tool_call'' (cw_state w = TC_Failed \<or> cw_state w = TC_Denied)
      (cw_failure w) = Inr ()" "validate_output (cw_state w) (cw_output w) = Inr ()"
    using assms by (auto simp: ToolCall_try_from_def res_bind_Inr_iff)
  have c: "c = \<lparr>call_record_id = cw_id w, call_run_id = cw_run_id w,
            call_step_id = cw_step_id w, call_tool_id = cw_tool_id w,
            call_tool_version = cw_tool_version w, call_input = cw_input w,
            call_lifecycle = \<lparr>lc_state = cw_state w, lc_created_at = cw_created_at w,
               lc_updated_at = cw_updated_at w, lc_started_at = cw_started_at w,
               lc_finished_at = cw_finished_at w, lc_revision = cw_revision w\<rparr>,
            call_failure = cw_failure w, call_output = cw_output w,
            call_approvals = cw_approvals w, call_policy_decision = cw_policy_decision w\<rparr>"
    and lc: "lifecycle_ok tool_call_lifecycle T (call_lifecycle c)"
    using assms by (auto simp: ToolCall_try_from_def res_bind_Inr_iff Lifecycle_from_wire_Inr)
  have "call_failure c \<noteq> None \<longleftrightarrow> call_state c \<in> {TC_Failed, TC_Denied}"
    using f(1) by (cases "cw_failure w") (auto simp: c validate_failure_def split: bool.splits)
  moreover have "call_output c \<noteq> None \<longleftrightarrow> call_state c = TC_Succeeded"
    using f(2) by (cases "cw_output w") (auto simp: c validate_output_def split: bool.splits)
  moreover have "ToolCall_to_wire c = w\<lparr>cw_schema_version := RUNTIME_RECORD_SCHEMA_VERSION\<rparr>"
    by (cases w) (simp add: c ToolCall_to_wire_def Let_def)
  ultimately show ?thesis
    using v lc by simp
qed

lemma sample_loaded:
  "is_ok (ToolCall_try_from offset_time
     ((ToolCall_to_wire sample_call)\<lparr>cw_schema_version := 2\<rparr>))"
  by code_simp

theorem tool_call_loader_sound_witness:
  "\<exists>c. ToolCall_try_from offset_time ((ToolCall_to_wire sample_call)\<lparr>cw_schema_version := 2\<rparr>)
        = Inr c
     \<and> ToolCall_to_wire c = (ToolCall_to_wire sample_call)\<lparr>cw_schema_version := 4\<rparr>"
proof -
  obtain c where c: "ToolCall_try_from offset_time
      ((ToolCall_to_wire sample_call)\<lparr>cw_schema_version := 2\<rparr>) = Inr c"
    using sample_loaded by (auto simp: is_ok_iff)
  show ?thesis
    using tool_call_loader_sound [OF c] c by (simp add: RUNTIME_RECORD_SCHEMA_VERSION_def)
qed

text \<open>
  C38: A pending tool call that policy allowed can still be moved to \<open>awaiting_approval\<close> by
  \<open>ToolCall::transition\<close>, and the record this makes is refused by the record's own loader.
\<close>

theorem parked_after_allow_is_unreadable:
  assumes "time_laws T" "call_reachable T c" "call_policy_decision c = Some d"
    and "decision_verdict d = Allow" "ToolCall_transition T c TC_AwaitingApproval at = Inr c'"
  shows "ToolCall_try_from T (ToolCall_to_wire c') = Inl (InvalidLifecycle ''tool_call''
           ''policy decision contradicts the tool-call lifecycle'')"
proof -
  have "call_apply T c (CallTransition TC_AwaitingApproval at) = Inr c'"
    using assms(5) by simp
  then have "call_ok T c'"
    using assms(1,2) call_reachable_ok call_op by blast
  moreover have "call_state c' = TC_AwaitingApproval" "call_policy_decision c' = Some d"
    using assms(3,5)
    by (auto simp: ToolCall_transition_def result_simps Lifecycle_transition_Inr split: if_splits)
  ultimately show ?thesis
    using call_ok_roundtrip [of T c'] assms(4)
    by (simp add: contradicts_allow_def allowed_call_def is_some_and_def)
qed

theorem parked_after_allow_is_unreadable_witness:
  "\<exists>c c'. sample_allowed = Inr c
     \<and> ToolCall_transition offset_time c TC_AwaitingApproval (8, 0) = Inr c'
     \<and> \<not> is_ok (ToolCall_try_from offset_time (ToolCall_to_wire c'))"
proof -
  obtain c where c: "sample_allowed = Inr c"
    using sample_allowed_ok(1) by (auto simp: is_ok_iff)
  obtain c' where d: "call_policy_decision c = Some (sample_decision Allow)"
    and c': "ToolCall_transition offset_time c TC_AwaitingApproval (8, 0) = Inr c'"
    using sample_allowed_ok(2) unfolding c by (auto simp: is_ok_iff)
  have "decision_verdict (sample_decision Allow) = Allow"
    by (simp add: sample_decision_def PolicyDecision_new_def)
  then show ?thesis
    using parked_after_allow_is_unreadable [OF offset_time_laws sample_reachable(4) [OF c] d _ c']
      c c' by auto
qed

text \<open>
  \<open>Run::retrying_with_id\<close> accepts a run as the retry of itself, and the loader refuses exactly
  that record.
\<close>

theorem self_retry_is_unreadable:
  assumes "time_laws T"
  shows "Run_try_from T (Run_to_wire (Run_retrying_with_id T i task i modified at)) =
    Inl (InvalidLifecycle ''run'' ''a run cannot be a retry of itself'')"
  using run_ok_roundtrip [OF run_reachable_ok [OF run_retry assms]]
  by (simp add: retries_itself_def Run_retrying_with_id_def Run_with_id_def)

theorem self_retry_is_unreadable_witness:
  "\<not> is_ok (Run_try_from offset_time (Run_to_wire
     (Run_retrying_with_id offset_time (RunId 1) (TaskId 2) (RunId 1) False (5, 0))))"
  using self_retry_is_unreadable [OF offset_time_laws, of "RunId 1" "TaskId 2" False "(5, 0)"]
  by simp

end
