(* ===== verification/Path_Boundary.thy ===== *)
theory Path_Boundary
  imports Trust "HOL-Library.Sublist"
begin

text \<open>
  Path containment: the roots a tool invocation may address, the check that a candidate lies inside
  one of them, and command specifications.

  Source: \<open>harkness-runtime/src/trust.rs\<close> (\<open>PathBoundary\<close>, \<open>ContainedPath\<close>, \<open>CommandSpec\<close>) and
  \<open>harkness-git/src/path.rs\<close>. A path is the list of its components, as \<open>Path::components\<close> yields
  them; a canonical location is the list of names below the root. The filesystem is a map from
  locations to nodes at the moment of the call, and \<open>fs::canonicalize\<close>, \<open>fs::symlink_metadata\<close> and
  \<open>fs::read_link\<close> are what a POSIX system answers on it. A trailing separator or \<open>/.\<close> is not part of
  a component list: on such a spelling of a regular file \<open>canonicalize\<close> answers the file, where the
  system answers \<open>ENOTDIR\<close>.
\<close>

section \<open>Paths\<close>

datatype component = RootDir | CurDir | ParentDir | Normal string

type_synonym path = "component list"
type_synonym location = "string list"

text \<open>\<open>Path::components\<close>: empty parts vanish, and so does every \<open>.\<close> but a leading one.\<close>

definition part_component :: "string \<Rightarrow> component list" where
  "part_component part =
     (if part = '''' \<or> part = ''.'' then [] else if part = ''..'' then [ParentDir] else [Normal part])"

definition parse_path :: "string \<Rightarrow> path" where
  "parse_path s =
     (let parts = split_on CHR ''/'' s; tail = concat (map part_component parts)
      in if s \<noteq> [] \<and> hd s = CHR ''/'' then RootDir # tail
         else if hd parts = ''.'' then CurDir # tail
         else tail)"

primrec component_string :: "component \<Rightarrow> string" where
  "component_string RootDir = ''''"
| "component_string CurDir = ''.''"
| "component_string ParentDir = ''..''"
| "component_string (Normal c) = c"

fun path_string :: "path \<Rightarrow> string" where
  "path_string [] = ''''"
| "path_string [RootDir] = ''/''"
| "path_string [c] = component_string c"
| "path_string (c # cs) = component_string c @ ''/'' @ path_string cs"

definition location_path :: "location \<Rightarrow> path" where
  "location_path loc = RootDir # map Normal loc"

definition is_absolute :: "path \<Rightarrow> bool" where
  "is_absolute p \<longleftrightarrow> p \<noteq> [] \<and> hd p = RootDir"

text \<open>\<open>Path::join\<close>, and \<open>PathBuf::push\<close> of one component.\<close>

definition join_path :: "path \<Rightarrow> path \<Rightarrow> path" where
  "join_path p q =
     (if is_absolute q then q
      else if p \<noteq> [] \<and> q \<noteq> [] \<and> hd q = CurDir then p @ tl q
      else p @ q)"

definition file_name :: "path \<Rightarrow> string option" where
  "file_name p =
     (if p = [] then None else case last p of Normal c \<Rightarrow> Some c | _ \<Rightarrow> None)"

definition parent :: "path \<Rightarrow> path option" where
  "parent p = (if p = [] \<or> last p = RootDir then None else Some (butlast p))"

definition starts_with :: "path \<Rightarrow> path \<Rightarrow> bool" where
  "starts_with p root \<longleftrightarrow> prefix root p"

section \<open>The filesystem\<close>

datatype node = Directory | Unsearchable | RegularFile | Symlink path

datatype io_error = Io_NotFound | Io_NotADirectory | Io_PermissionDenied | Io_FilesystemLoop | Io_InvalidInput

primrec io_error_string :: "io_error \<Rightarrow> string" where
  "io_error_string Io_NotFound = ''No such file or directory''"
| "io_error_string Io_NotADirectory = ''Not a directory''"
| "io_error_string Io_PermissionDenied = ''Permission denied''"
| "io_error_string Io_FilesystemLoop = ''Too many levels of symbolic links''"
| "io_error_string Io_InvalidInput = ''Invalid argument''"

record filesystem =
  fs_node :: "location \<Rightarrow> node option"
  fs_cwd :: location
  fs_link_limit :: nat

text \<open>The root is always a directory; a name is looked up only in a directory one may search.\<close>

definition node_at :: "filesystem \<Rightarrow> location \<Rightarrow> node option" where
  "node_at fs loc = (if loc = [] then Some Directory else fs_node fs loc)"

definition lookup_error :: "filesystem \<Rightarrow> location \<Rightarrow> io_error option" where
  "lookup_error fs loc =
     (case node_at fs loc of
        Some Directory \<Rightarrow> None
      | Some Unsearchable \<Rightarrow> Some Io_PermissionDenied
      | _ \<Rightarrow> Some Io_NotADirectory)"

text \<open>Resolution of a path from a directory, following links; the number is the links still allowed.\<close>

function walk :: "filesystem \<Rightarrow> nat \<Rightarrow> location \<Rightarrow> path \<Rightarrow> io_error + nat \<times> location" where
  "walk fs n cur [] = Inr (n, cur)"
| "walk fs n cur (RootDir # cs) = walk fs n [] cs"
| "walk fs n cur (CurDir # cs) =
     (case lookup_error fs cur of Some e \<Rightarrow> Inl e | None \<Rightarrow> walk fs n cur cs)"
| "walk fs n cur (ParentDir # cs) =
     (case lookup_error fs cur of Some e \<Rightarrow> Inl e | None \<Rightarrow> walk fs n (butlast cur) cs)"
| "walk fs n cur (Normal c # cs) =
     (case lookup_error fs cur of
        Some e \<Rightarrow> Inl e
      | None \<Rightarrow>
          (case node_at fs (cur @ [c]) of
             None \<Rightarrow> Inl Io_NotFound
           | Some (Symlink target) \<Rightarrow>
               (if n = 0 then Inl Io_FilesystemLoop else walk fs (n - 1) cur (target @ cs))
           | Some _ \<Rightarrow> walk fs n (cur @ [c]) cs))"
  by pat_completeness auto
termination
  by (relation "measures [\<lambda>(_, n, _, _). n, \<lambda>(_, _, _, cs). length cs]") auto

definition start_of :: "filesystem \<Rightarrow> path \<Rightarrow> location" where
  "start_of fs p = (if is_absolute p then [] else fs_cwd fs)"

definition canonicalize :: "filesystem \<Rightarrow> path \<Rightarrow> io_error + location" where
  "canonicalize fs p =
     (if p = [] then Inl Io_NotFound
      else res_bind (walk fs (fs_link_limit fs) (start_of fs p) p) (\<lambda>(_, loc). Inr loc))"

text \<open>\<open>fs::symlink_metadata\<close>: the last name is not followed.\<close>

definition symlink_metadata :: "filesystem \<Rightarrow> path \<Rightarrow> io_error + node" where
  "symlink_metadata fs p =
     (case file_name p of
        Some c \<Rightarrow>
          res_bind (walk fs (fs_link_limit fs) (start_of fs p) (butlast p)) (\<lambda>(_, loc).
            case lookup_error fs loc of
              Some e \<Rightarrow> Inl e
            | None \<Rightarrow> (case node_at fs (loc @ [c]) of None \<Rightarrow> Inl Io_NotFound | Some nd \<Rightarrow> Inr nd))
      | None \<Rightarrow>
          res_bind (canonicalize fs p) (\<lambda>loc.
            case node_at fs loc of None \<Rightarrow> Inl Io_NotFound | Some nd \<Rightarrow> Inr nd))"

definition read_link :: "filesystem \<Rightarrow> path \<Rightarrow> io_error + path" where
  "read_link fs p =
     res_bind (symlink_metadata fs p) (\<lambda>nd.
       case nd of Symlink target \<Rightarrow> Inr target | _ \<Rightarrow> Inl Io_InvalidInput)"

section \<open>The nearest existing ancestor\<close>

function canonicalize_missing_loop ::
  "filesystem \<Rightarrow> path \<Rightarrow> string list \<Rightarrow> io_error + location" where
  "canonicalize_missing_loop fs current missing =
     (case canonicalize fs current of
        Inr resolved \<Rightarrow> Inr (resolved @ rev missing)
      | Inl Io_NotFound \<Rightarrow>
          (case file_name current of
             None \<Rightarrow> Inl Io_NotFound
           | Some component \<Rightarrow>
               (case parent current of
                  None \<Rightarrow> Inl Io_NotFound
                | Some up \<Rightarrow> canonicalize_missing_loop fs up (missing @ [component])))
      | Inl error \<Rightarrow> Inl error)"
  by pat_completeness auto
termination
  by (relation "measure (\<lambda>(_, current, _). length current)")
    (auto simp: parent_def split: if_splits)

declare canonicalize_missing_loop.simps [simp del]

definition canonicalize_with_missing_tail :: "filesystem \<Rightarrow> path \<Rightarrow> io_error + location" where
  "canonicalize_with_missing_tail fs path = canonicalize_missing_loop fs path []"

section \<open>Boundaries\<close>

definition boundary_root :: "filesystem \<Rightarrow> path \<Rightarrow> boundary_error + location" where
  "boundary_root fs root =
     (case canonicalize fs root of
        Inl e \<Rightarrow> Inl (RootUnavailable (path_string root) (io_error_string e))
      | Inr canonical \<Rightarrow>
          if node_at fs canonical \<notin> {Some Directory, Some Unsearchable}
          then Inl (RootUnavailable (path_string root) ''it is not a directory'')
          else Inr canonical)"

record path_boundary =
  pb_workspace_root :: location
  pb_extra_roots :: "location list"

fun canonical_roots :: "filesystem \<Rightarrow> path list \<Rightarrow> boundary_error + location list" where
  "canonical_roots fs [] = Inr []"
| "canonical_roots fs (root # roots) =
     res_bind (boundary_root fs root) (\<lambda>r. res_bind (canonical_roots fs roots) (\<lambda>rs. Inr (r # rs)))"

definition PathBoundary_new ::
  "filesystem \<Rightarrow> path \<Rightarrow> path list \<Rightarrow> boundary_error + path_boundary" where
  "PathBoundary_new fs workspace_root extra_roots =
     res_bind (boundary_root fs workspace_root) (\<lambda>root.
     res_bind (canonical_roots fs extra_roots) (\<lambda>extras.
       Inr \<lparr>pb_workspace_root = root,
            pb_extra_roots = remdups_adj (sort (filter (\<lambda>r. r \<noteq> root) extras))\<rparr>))"

definition PathBoundary_roots :: "path_boundary \<Rightarrow> location list" where
  "PathBoundary_roots b = pb_workspace_root b # pb_extra_roots b"

record contained_path =
  cp_boundary :: path_boundary
  cp_supplied :: path
  cp_resolved :: location

definition contains_resolved :: "path_boundary \<Rightarrow> path \<Rightarrow> bool" where
  "contains_resolved b candidate \<longleftrightarrow>
     list_ex (\<lambda>root. starts_with candidate (location_path root)) (PathBoundary_roots b)"

definition outside :: "path_boundary \<Rightarrow> path \<Rightarrow> boundary_error" where
  "outside b candidate =
     OutsideAllowedRoots (path_string candidate)
       (map (\<lambda>root. path_string (location_path root)) (PathBoundary_roots b))"

definition candidate_unavailable :: "path \<Rightarrow> io_error \<Rightarrow> boundary_error" where
  "candidate_unavailable candidate e = CandidateUnavailable (path_string candidate) (io_error_string e)"

text \<open>The loop over \<open>candidate.components()\<close>, with the path reached so far.\<close>

fun escaping_symlink_from ::
  "filesystem \<Rightarrow> path_boundary \<Rightarrow> path \<Rightarrow> path \<Rightarrow> path \<Rightarrow>
   boundary_error + (path \<times> path) option" where
  "escaping_symlink_from fs b candidate reached [] = Inr None"
| "escaping_symlink_from fs b candidate reached (component # components) =
     (let reached = join_path reached [component]
      in if component = RootDir then escaping_symlink_from fs b candidate reached components
         else
           case symlink_metadata fs reached of
             Inl Io_NotFound \<Rightarrow> Inr None
           | Inl e \<Rightarrow> Inl (candidate_unavailable candidate e)
           | Inr (Symlink _) \<Rightarrow>
               (case parent reached of
                  None \<Rightarrow> Inr None
                | Some directory \<Rightarrow>
                    if \<not> contains_resolved b directory then Inr None
                    else
                      case read_link fs reached of
                        Inl e \<Rightarrow> Inl (candidate_unavailable candidate e)
                      | Inr link \<Rightarrow>
                          (let target = if is_absolute link then link else join_path directory link
                           in case canonicalize_with_missing_tail fs target of
                                Inl e \<Rightarrow> Inl (candidate_unavailable candidate e)
                              | Inr target \<Rightarrow>
                                  if \<not> contains_resolved b (location_path target)
                                  then Inr (Some (reached, location_path target))
                                  else escaping_symlink_from fs b candidate (location_path target)
                                         components))
           | Inr _ \<Rightarrow> escaping_symlink_from fs b candidate reached components)"

definition escaping_symlink ::
  "filesystem \<Rightarrow> path_boundary \<Rightarrow> path \<Rightarrow> boundary_error + (path \<times> path) option" where
  "escaping_symlink fs b candidate = escaping_symlink_from fs b candidate [] candidate"

definition absolute_candidate :: "path_boundary \<Rightarrow> path \<Rightarrow> path" where
  "absolute_candidate b supplied =
     (if is_absolute supplied then supplied
      else join_path (location_path (pb_workspace_root b)) supplied)"

definition contain :: "filesystem \<Rightarrow> path_boundary \<Rightarrow> path \<Rightarrow> boundary_error + contained_path" where
  "contain fs b supplied =
     (let absolute = absolute_candidate b supplied
      in case canonicalize_with_missing_tail fs absolute of
           Inl e \<Rightarrow> Inl (candidate_unavailable supplied e)
         | Inr resolved \<Rightarrow>
             res_bind (escaping_symlink fs b absolute) (\<lambda>escaping.
               case escaping of
                 Some (link, target) \<Rightarrow> Inl (SymlinkEscapes (path_string link) (path_string target))
               | None \<Rightarrow>
                   if contains_resolved b (location_path resolved)
                   then Inr \<lparr>cp_boundary = b, cp_supplied = supplied, cp_resolved = resolved\<rparr>
                   else Inl (outside b supplied)))"

definition ContainedPath_revalidate ::
  "filesystem \<Rightarrow> contained_path \<Rightarrow> boundary_error + contained_path" where
  "ContainedPath_revalidate fs p = contain fs (cp_boundary p) (cp_supplied p)"

definition ContainedPath_eq :: "contained_path \<Rightarrow> contained_path \<Rightarrow> bool" where
  "ContainedPath_eq p q \<longleftrightarrow> cp_boundary p = cp_boundary q \<and> cp_resolved p = cp_resolved q"

primrec BoundaryError_kind :: "boundary_error \<Rightarrow> string" where
  "BoundaryError_kind (OutsideAllowedRoots candidate roots) = ''outside_allowed_roots''"
| "BoundaryError_kind (SymlinkEscapes link target) = ''symlink_escapes''"
| "BoundaryError_kind (RootUnavailable root reason) = ''root_unavailable''"
| "BoundaryError_kind (CandidateUnavailable candidate reason) = ''candidate_unavailable''"

section \<open>Command specifications\<close>

record command_spec =
  cs_program :: string
  cs_args :: "string list"
  cs_cwd :: contained_path
  cs_env :: allowlisted_env

datatype command_spec_error = AmbiguousProgram string

definition CommandSpec_new ::
  "string \<Rightarrow> string list \<Rightarrow> contained_path \<Rightarrow> allowlisted_env \<Rightarrow>
   command_spec_error + command_spec" where
  "CommandSpec_new program args cwd env =
     (let components = parse_path program;
          bare = program \<noteq> [] \<and> list_all (\<lambda>c. file_name [c] \<noteq> None) components
                 \<and> length components = 1
      in if \<not> is_absolute components \<and> \<not> bare then Inl (AmbiguousProgram program)
         else Inr \<lparr>cs_program = program, cs_args = args, cs_cwd = cwd, cs_env = env\<rparr>)"

end
