(* ===== verification/Path_Boundary_Properties.thy ===== *)
theory Path_Boundary_Properties
  imports Path_Boundary
begin

text \<open>
  What containment guarantees. \<open>land\<close> is the location an operation on a path reaches: the path with
  every link followed, where names that are missing at the end will be created. A contained path
  lands inside a root, provided its resolved location does not itself pass through a link; the two
  ways in which that can fail are shown on concrete filesystems.
\<close>

section \<open>Resolution in parts\<close>

lemma walk_append:
  "walk fs n cur (xs @ ys) = res_bind (walk fs n cur xs) (\<lambda>(k, loc). walk fs k loc ys)"
proof (induction fs n cur xs rule: walk.induct)
  case (5 fs n cur c cs)
  then show ?case
    by (auto split: option.splits node.splits)
qed (auto split: option.splits)

function land :: "filesystem \<Rightarrow> nat \<Rightarrow> location \<Rightarrow> path \<Rightarrow> io_error + location" where
  "land fs n cur [] = Inr cur"
| "land fs n cur (RootDir # cs) = land fs n [] cs"
| "land fs n cur (CurDir # cs) =
     (case lookup_error fs cur of Some e \<Rightarrow> Inl e | None \<Rightarrow> land fs n cur cs)"
| "land fs n cur (ParentDir # cs) =
     (case lookup_error fs cur of Some e \<Rightarrow> Inl e | None \<Rightarrow> land fs n (butlast cur) cs)"
| "land fs n cur (Normal c # cs) =
     (case lookup_error fs cur of
        Some e \<Rightarrow> Inl e
      | None \<Rightarrow>
          (case node_at fs (cur @ [c]) of
             None \<Rightarrow>
               (if list_all (\<lambda>d. file_name [d] \<noteq> None) cs
                then Inr (cur @ c # map component_string cs) else Inl Io_NotFound)
           | Some (Symlink target) \<Rightarrow>
               (if n = 0 then Inl Io_FilesystemLoop else land fs (n - 1) cur (target @ cs))
           | Some _ \<Rightarrow> land fs n (cur @ [c]) cs))"
  by pat_completeness auto
termination
  by (relation "measures [\<lambda>(_, n, _, _). n, \<lambda>(_, _, _, cs). length cs]") auto

definition lands_at :: "filesystem \<Rightarrow> path \<Rightarrow> io_error + location" where
  "lands_at fs p = land fs (fs_link_limit fs) (start_of fs p) p"

lemma land_append:
  "walk fs n cur xs = Inr (k, loc) \<Longrightarrow> land fs n cur (xs @ ys) = land fs k loc ys"
proof (induction fs n cur xs rule: walk.induct)
  case (5 fs n cur c cs)
  then show ?case
    by (auto split: option.splits node.splits if_splits)
qed (auto split: option.splits)

text \<open>A path that resolves lands where it resolves to.\<close>

lemma canonicalize_lands: "canonicalize fs p = Inr loc \<Longrightarrow> lands_at fs p = Inr loc"
  using land_append [of fs "fs_link_limit fs" "start_of fs p" p _ loc "[]"]
  by (auto simp: canonicalize_def lands_at_def res_bind_Inr_iff split: if_splits)

section \<open>The nearest existing ancestor\<close>

definition link_at :: "filesystem \<Rightarrow> location \<Rightarrow> bool" where
  "link_at fs loc \<longleftrightarrow> (case node_at fs loc of Some (Symlink _) \<Rightarrow> True | _ \<Rightarrow> False)"

text \<open>No name on the way to a location is a link.\<close>

definition link_free :: "filesystem \<Rightarrow> location \<Rightarrow> bool" where
  "link_free fs loc \<longleftrightarrow> list_all (\<lambda>q. \<not> link_at fs q) (prefixes loc)"

lemma link_free_prefix: "link_free fs (xs @ ys) \<Longrightarrow> \<not> link_at fs xs"
  by (simp add: link_free_def list_all_iff)

lemma missing_step:
  assumes "walk fs n cur (xs @ [Normal c]) = Inl Io_NotFound" and "walk fs n cur xs = Inr (k, loc)"
    and "\<not> link_at fs (loc @ [c])"
  shows "lookup_error fs loc = None" and "node_at fs (loc @ [c]) = None"
  using assms unfolding walk_append link_at_def
  by (auto simp: lookup_error_def split: option.splits node.splits if_splits)

lemma land_missing:
  assumes "walk fs n cur (xs @ [Normal c]) = Inl Io_NotFound" and "walk fs n cur xs = Inr (k, loc)"
    and "\<not> link_at fs (loc @ [c])"
  shows "land fs n cur (xs @ Normal c # map Normal cs) = Inr (loc @ c # cs)"
proof -
  have "list_all (\<lambda>d. file_name [d] \<noteq> None) (map Normal cs)"
    and "map component_string (map Normal cs) = cs"
    by (induction cs) (auto simp: file_name_def)
  then show ?thesis
    using missing_step [OF assms] land_append [OF assms(2), of "Normal c # map Normal cs"] by simp
qed

lemma file_name_Some: "file_name p = Some c \<longleftrightarrow> p \<noteq> [] \<and> last p = Normal c"
  by (auto simp: file_name_def split: component.splits)

lemma missing_loop_decomposed:
  assumes "canonicalize_missing_loop fs current missing = Inr r"
    and "missing \<noteq> [] \<longrightarrow> canonicalize fs (current @ [Normal (last missing)]) = Inl Io_NotFound"
  shows "\<exists>base names loc. current = base @ map Normal names \<and> canonicalize fs base = Inr loc
    \<and> r = loc @ names @ rev missing
    \<and> (names @ rev missing \<noteq> [] \<longrightarrow>
        canonicalize fs (base @ [Normal (hd (names @ rev missing))]) = Inl Io_NotFound)"
  using assms
proof (induction fs current missing rule: canonicalize_missing_loop.induct)
  case (1 fs current missing)
  show ?case
  proof (cases "canonicalize fs current")
    case (Inr loc)
    then have "r = loc @ rev missing"
      using "1.prems"(1) by (simp add: canonicalize_missing_loop.simps)
    with Inr "1.prems"(2) show ?thesis
      by (intro exI [of _ current] exI [of _ "[]"] exI [of _ loc]) (simp add: hd_rev)
  next
    case (Inl e)
    then obtain c where e: "e = Io_NotFound" and c: "current \<noteq> []" "last current = Normal c"
      using "1.prems"(1)
      by (subst (asm) canonicalize_missing_loop.simps)
        (auto simp: file_name_Some split: io_error.splits option.splits)
    then have steps: "file_name current = Some c" "parent current = Some (butlast current)"
      by (simp_all add: file_name_Some parent_def)
    have "canonicalize_missing_loop fs (butlast current) (missing @ [c]) = Inr r"
      using "1.prems"(1) Inl e steps by (subst (asm) canonicalize_missing_loop.simps) simp
    moreover have last: "butlast current @ [Normal c] = current"
      using c by (metis append_butlast_last_id)
    ultimately obtain base names loc where
      "butlast current = base @ map Normal names" "canonicalize fs base = Inr loc"
      "r = loc @ names @ rev (missing @ [c])"
      "canonicalize fs (base @ [Normal (hd (names @ rev (missing @ [c])))]) = Inl Io_NotFound"
      using "1.IH" [OF _ _ steps] Inl e by auto
    with last show ?thesis
      by (intro exI [of _ base] exI [of _ "names @ [c]"] exI [of _ loc]) (auto simp: hd_append)
  qed
qed

lemma missing_tail_lands:
  assumes "canonicalize_with_missing_tail fs p = Inr r" and "link_free fs r" and "is_absolute p"
  shows "lands_at fs p = Inr r"
proof -
  from missing_loop_decomposed [OF assms(1) [unfolded canonicalize_with_missing_tail_def]] obtain
    base names loc where p: "p = base @ map Normal names" and base: "canonicalize fs base = Inr loc"
    and r: "r = loc @ names"
    and gone: "names \<noteq> [] \<longrightarrow> canonicalize fs (base @ [Normal (hd names)]) = Inl Io_NotFound"
    by auto
  have abs: "is_absolute base"
    using base assms(3) by (cases base) (auto simp: p canonicalize_def is_absolute_def)
  obtain k where k: "walk fs (fs_link_limit fs) [] base = Inr (k, loc)"
    using base abs by (auto simp: canonicalize_def start_of_def res_bind_Inr_iff split: if_splits)
  show ?thesis
  proof (cases names)
    case Nil
    then show ?thesis
      using canonicalize_lands base by (simp add: p r)
  next
    case (Cons c cs)
    have "walk fs (fs_link_limit fs) [] (base @ [Normal c]) = Inl Io_NotFound"
      using gone abs Cons
      by (auto simp: canonicalize_def start_of_def is_absolute_def res_bind_Inl_iff hd_append)
    moreover have "\<not> link_at fs (loc @ [c])"
      using assms(2) link_free_prefix [of fs "loc @ [c]" cs] by (simp add: r Cons)
    ultimately show ?thesis
      using land_missing [OF _ k, of c cs] abs
      by (simp add: lands_at_def start_of_def is_absolute_def p r Cons hd_append)
  qed
qed

section \<open>Containment\<close>

definition inside :: "path_boundary \<Rightarrow> location \<Rightarrow> bool" where
  "inside b loc \<longleftrightarrow> list_ex (\<lambda>root. prefix root loc) (PathBoundary_roots b)"

lemma prefix_map_Normal [simp]: "prefix (map Normal xs) (map Normal ys) \<longleftrightarrow> prefix xs ys"
proof (induction xs arbitrary: ys)
  case (Cons x xs)
  then show ?case
    by (cases ys) auto
qed simp

lemma contains_resolved_location: "contains_resolved b (location_path loc) \<longleftrightarrow> inside b loc"
  by (simp add: contains_resolved_def inside_def starts_with_def location_path_def)

lemma absolute_candidate: "is_absolute (absolute_candidate b supplied)"
  by (auto simp: absolute_candidate_def join_path_def is_absolute_def location_path_def)

lemma contain_Inr:
  assumes "contain fs b supplied = Inr p"
  shows "cp_boundary p = b" and "cp_supplied p = supplied" and "inside b (cp_resolved p)"
    and "canonicalize_with_missing_tail fs (absolute_candidate b supplied) = Inr (cp_resolved p)"
  using assms
  by (auto simp: contain_def Let_def res_bind_Inr_iff contains_resolved_location
      split: sum.splits option.splits if_splits)

lemma missing_tail_existing:
  "canonicalize fs p = Inr loc \<Longrightarrow> canonicalize_with_missing_tail fs p = Inr loc"
  by (simp add: canonicalize_with_missing_tail_def canonicalize_missing_loop.simps)

section \<open>Resolved locations are free of links\<close>

lemma link_free_butlast: "link_free fs loc \<Longrightarrow> link_free fs (butlast loc)"
  using prefix_order.trans [OF _ prefixeq_butlast] by (fastforce simp: link_free_def list_all_iff)

lemma link_free_snoc: "link_free fs loc \<Longrightarrow> \<not> link_at fs (loc @ [c]) \<Longrightarrow> link_free fs (loc @ [c])"
  by (auto simp: link_free_def list_all_iff)

lemma link_free_Nil: "link_free fs []"
  by (simp add: link_free_def link_at_def node_at_def)

lemma walk_link_free: "walk fs n cur p = Inr (k, loc) \<Longrightarrow> link_free fs cur \<Longrightarrow> link_free fs loc"
proof (induction fs n cur p rule: walk.induct)
  case (5 fs n cur c cs)
  then show ?case
    using link_free_snoc [of fs cur c]
    by (auto simp: link_at_def split: option.splits node.splits if_splits)
qed (auto split: option.splits intro: link_free_Nil link_free_butlast)

lemma canonicalize_link_free:
  "canonicalize fs p = Inr loc \<Longrightarrow> is_absolute p \<or> link_free fs (fs_cwd fs) \<Longrightarrow> link_free fs loc"
  using walk_link_free [of fs "fs_link_limit fs" "start_of fs p" p _ loc] link_free_Nil
  by (auto simp: canonicalize_def start_of_def res_bind_Inr_iff split: if_splits)

section \<open>Plain paths\<close>

definition directories :: "filesystem \<Rightarrow> location \<Rightarrow> location \<Rightarrow> bool" where
  "directories fs cur names \<longleftrightarrow>
     list_all (\<lambda>k. node_at fs (cur @ take k names) = Some Directory) [0..<length names]"

lemma directories_Cons:
  "directories fs cur (c # names) \<longleftrightarrow>
     node_at fs cur = Some Directory \<and> directories fs (cur @ [c]) names"
  unfolding directories_def list_all_iff
  by (auto simp: less_Suc_eq_0_disj upt_conv_Cons atLeastLessThan_upt [symmetric] Ball_def
      simp del: upt_Suc)

lemma directories_append:
  "directories fs cur (xs @ ys) \<longleftrightarrow> directories fs cur xs \<and> directories fs (cur @ xs) ys"
proof (induction xs arbitrary: cur)
  case Nil
  then show ?case
    by (simp add: directories_def)
next
  case (Cons x xs)
  then show ?case
    by (simp add: directories_Cons)
qed

lemma walk_plain:
  assumes "directories fs cur names" and "names = [] \<or> node_at fs (cur @ names) \<in> {Some Directory, Some RegularFile}"
  shows "walk fs n cur (map Normal names) = Inr (n, cur @ names)"
  using assms
proof (induction names arbitrary: cur)
  case (Cons c names)
  then have "node_at fs (cur @ [c]) \<in> {Some Directory, Some RegularFile}"
    by (cases names) (auto simp: directories_Cons)
  with Cons show ?case
    by (auto simp: directories_Cons lookup_error_def)
qed simp

lemma plain_metadata:
  assumes "directories fs [] loc" and "node_at fs loc = Some nd" and "nd \<in> {Directory, RegularFile}"
  shows "symlink_metadata fs (location_path loc) = Inr nd"
proof (cases loc rule: rev_cases)
  case Nil
  then show ?thesis
    using assms(2) by (simp add: symlink_metadata_def file_name_def location_path_def canonicalize_def
        node_at_def)
next
  case (snoc xs c)
  have "directories fs [] xs" and "node_at fs xs = Some Directory"
    using assms(1) by (auto simp: snoc directories_def less_Suc_eq list_all_iff)
  then have "walk fs n [] (map Normal xs) = Inr (n, xs)" for n
    using walk_plain [of fs "[]" xs n] by simp
  with \<open>node_at fs xs = Some Directory\<close> assms(2) show ?thesis
    by (simp add: symlink_metadata_def file_name_def location_path_def snoc butlast_append start_of_def
        is_absolute_def lookup_error_def)
qed

lemma plain_not_escaping:
  assumes "directories fs [] (done @ names)"
    and "node_at fs (done @ names) \<in> {Some Directory, Some RegularFile}"
  shows "escaping_symlink_from fs b candidate (location_path done) (map Normal names @ rest)
    = escaping_symlink_from fs b candidate (location_path (done @ names)) rest"
  using assms
proof (induction names arbitrary: "done")
  case (Cons c names)
  let ?here = "done @ [c]"
  have split: "done @ c # names = ?here @ names"
    by simp
  have "directories fs [] ?here" and rest: "directories fs ?here names"
    using Cons.prems(1) unfolding split directories_append by simp_all
  moreover obtain nd where "node_at fs ?here = Some nd" "nd \<in> {Directory, RegularFile}"
    using Cons.prems(2) rest by (cases names) (auto simp: directories_Cons)
  ultimately have "symlink_metadata fs (location_path ?here) = Inr nd" "nd \<in> {Directory, RegularFile}"
    using plain_metadata by auto
  moreover have "join_path (location_path done) [Normal c] = location_path ?here"
    by (simp add: join_path_def is_absolute_def location_path_def)
  ultimately show ?case
    using Cons.IH [of ?here] Cons.prems by auto
qed simp

section \<open>Dangling links\<close>

text \<open>A place below directories only: its own name may be anything.\<close>

definition plain_directory :: "filesystem \<Rightarrow> location \<Rightarrow> bool" where
  "plain_directory fs loc \<longleftrightarrow> directories fs [] loc \<and> node_at fs loc = Some Directory"

lemma walk_to_entry:
  assumes "plain_directory fs dir"
  shows "walk fs n [] (location_path (dir @ [c])) = walk fs n dir [Normal c]"
  using assms walk_plain [of fs "[]" dir n]
  by (simp add: plain_directory_def location_path_def walk_append del: walk.simps(5))

lemma canonicalize_directory: "plain_directory fs dir \<Longrightarrow> canonicalize fs (location_path dir) = Inr dir"
  using walk_plain [of fs "[]" dir]
  by (simp add: plain_directory_def canonicalize_def location_path_def start_of_def is_absolute_def)

lemma canonicalize_entry:
  "plain_directory fs dir \<Longrightarrow> walk fs (fs_link_limit fs) dir [Normal c] = Inl e \<Longrightarrow>
   canonicalize fs (location_path (dir @ [c])) = Inl e"
  using walk_to_entry [of fs dir "fs_link_limit fs" c]
  by (simp add: canonicalize_def start_of_def is_absolute_def location_path_def)

lemma missing_entry:
  assumes "plain_directory fs dir" "walk fs (fs_link_limit fs) dir [Normal c] = Inl Io_NotFound"
  shows "canonicalize_with_missing_tail fs (location_path (dir @ [c])) = Inr (dir @ [c])"
proof -
  have "file_name (location_path (dir @ [c])) = Some c"
    "parent (location_path (dir @ [c])) = Some (location_path dir)"
    by (simp_all add: file_name_Some parent_def location_path_def butlast_append)
  then show ?thesis
    unfolding canonicalize_with_missing_tail_def
    by (subst canonicalize_missing_loop.simps, subst canonicalize_missing_loop.simps)
       (simp add: canonicalize_entry [OF assms] canonicalize_directory [OF assms(1)])
qed

lemma entry_metadata:
  assumes "plain_directory fs dir" "node_at fs (dir @ [c]) = Some nd"
  shows "symlink_metadata fs (location_path (dir @ [c])) = Inr nd"
  using assms walk_plain [of fs "[]" dir "fs_link_limit fs"]
  by (simp add: symlink_metadata_def file_name_def location_path_def butlast_append start_of_def
      is_absolute_def lookup_error_def plain_directory_def)

lemma reach_entry:
  assumes "plain_directory fs dir"
  shows "escaping_symlink fs b (location_path (dir @ [c]))
    = escaping_symlink_from fs b (location_path (dir @ [c])) (location_path dir) [Normal c]"
  using plain_not_escaping [of fs "[]" dir b "location_path (dir @ [c])" "[Normal c]"] assms
  by (simp add: escaping_symlink_def location_path_def join_path_def is_absolute_def plain_directory_def
      del: escaping_symlink_from.simps(2)) (simp add: join_path_def is_absolute_def)

text \<open>A link in a directory of the roots whose target has no canonical form yet.\<close>

lemma link_escapes:
  assumes "plain_directory fs dir" "inside b dir" "node_at fs (dir @ [c]) = Some (Symlink link)"
    and "canonicalize_with_missing_tail fs
      (if is_absolute link then link else join_path (location_path dir) link) = Inr target"
  shows "escaping_symlink fs b (location_path (dir @ [c]))
    = Inr (if inside b target then None
           else Some (location_path (dir @ [c]), location_path target))"
proof -
  have here: "join_path (location_path dir) [Normal c] = location_path (dir @ [c])"
    "parent (location_path (dir @ [c])) = Some (location_path dir)"
    by (simp_all add: join_path_def is_absolute_def location_path_def parent_def butlast_append)
  have "read_link fs (location_path (dir @ [c])) = Inr link"
    by (simp add: read_link_def entry_metadata [OF assms(1,3)])
  then show ?thesis
    unfolding reach_entry [OF assms(1)]
    by (simp add: Let_def here entry_metadata [OF assms(1,3)] contains_resolved_location assms(2,4))
qed

section \<open>Properties\<close>

definition sample_nodes :: "(location \<times> node) list" where
  "sample_nodes =
     [([''ws''], Directory), ([''out''], Directory), ([''ws'', ''src''], Directory),
      ([''ws'', ''src'', ''main''], RegularFile),
      ([''ws'', ''b''], Symlink [RootDir, Normal ''out'', Normal ''new'']),
      ([''ws'', ''a''], Symlink [Normal ''b'']),
      ([''alias''], Symlink [RootDir, Normal ''ws''])]"

definition sample_fs :: filesystem where
  "sample_fs = \<lparr>fs_node = map_of sample_nodes, fs_cwd = [], fs_link_limit = 8\<rparr>"

definition sample_boundary :: path_boundary where
  "sample_boundary = \<lparr>pb_workspace_root = [''ws''], pb_extra_roots = []\<rparr>"

definition sample_contained :: "path \<Rightarrow> location \<Rightarrow> contained_path" where
  "sample_contained supplied resolved =
     \<lparr>cp_boundary = sample_boundary, cp_supplied = supplied, cp_resolved = resolved\<rparr>"

text \<open>
  C10: A contained path stays inside. When containment accepts a candidate and no name on the way
  to the resolved location is itself a link, an operation on the candidate, following every link and
  creating what is missing at the end, lands at the resolved location, and that lies in a root.
  For a candidate that exists the resolved location is always free of links.
\<close>

theorem contained_path_lands_inside:
  assumes "contain fs b supplied = Inr p"
    and "link_free fs (cp_resolved p) \<or> is_ok (canonicalize fs (absolute_candidate b supplied))"
  shows "lands_at fs (absolute_candidate b supplied) = Inr (cp_resolved p) \<and> inside b (cp_resolved p)"
proof -
  note facts = contain_Inr [OF assms(1)]
  have "link_free fs (cp_resolved p)"
  proof (cases "is_ok (canonicalize fs (absolute_candidate b supplied))")
    case True
    then obtain loc where "canonicalize fs (absolute_candidate b supplied) = Inr loc"
      by (auto simp: is_ok_iff)
    then show ?thesis
      using canonicalize_link_free absolute_candidate missing_tail_existing facts(4) by fastforce
  next
    case False
    with assms(2) show ?thesis
      by simp
  qed
  then show ?thesis
    using missing_tail_lands [OF facts(4) _ absolute_candidate] facts(3) by blast
qed

theorem contained_path_lands_inside_witness:
  "lands_at sample_fs (absolute_candidate sample_boundary [Normal ''src'', ParentDir, Normal ''new''])
     = Inr [''ws'', ''new''] \<and> inside sample_boundary [''ws'', ''new'']"
proof -
  have "contain sample_fs sample_boundary [Normal ''src'', ParentDir, Normal ''new'']
      = Inr (sample_contained [Normal ''src'', ParentDir, Normal ''new''] [''ws'', ''new''])"
    and "link_free sample_fs [''ws'', ''new'']"
    by code_simp+
  from contained_path_lands_inside [OF this(1)] this(2) show ?thesis
    by (simp add: sample_contained_def)
qed

text \<open>
  C11: Containment does not stand in the way: a relative path of names that are directories down to a
  directory or file, none of them a link, below a root whose own names are directories, is accepted
  and resolves to the location it spells.
\<close>

theorem plain_paths_are_contained:
  assumes "directories fs [] (pb_workspace_root b @ names)"
    and "node_at fs (pb_workspace_root b @ names) \<in> {Some Directory, Some RegularFile}"
  shows "contain fs b (map Normal names)
    = Inr \<lparr>cp_boundary = b, cp_supplied = map Normal names,
           cp_resolved = pb_workspace_root b @ names\<rparr>"
proof -
  let ?loc = "pb_workspace_root b @ names"
  have abs: "absolute_candidate b (map Normal names) = location_path ?loc"
    by (cases names) (auto simp: absolute_candidate_def join_path_def is_absolute_def location_path_def)
  have "canonicalize fs (location_path ?loc) = Inr ?loc"
    using walk_plain [OF assms(1)] assms(2)
    by (auto simp: canonicalize_def location_path_def start_of_def is_absolute_def)
  moreover have "escaping_symlink fs b (location_path ?loc) = Inr None"
    using plain_not_escaping [of fs "[]" ?loc b "location_path ?loc" "[]"] assms
    by (simp add: escaping_symlink_def location_path_def join_path_def is_absolute_def)
  moreover have "inside b ?loc"
    by (simp add: inside_def PathBoundary_roots_def)
  ultimately show ?thesis
    by (simp add: contain_def Let_def abs missing_tail_existing contains_resolved_location)
qed

theorem plain_paths_are_contained_witness:
  "contain sample_fs sample_boundary (map Normal [''src'', ''main''])
     = Inr (sample_contained (map Normal [''src'', ''main'']) [''ws'', ''src'', ''main''])"
proof -
  have "directories sample_fs [] (pb_workspace_root sample_boundary @ [''src'', ''main''])"
    and "node_at sample_fs (pb_workspace_root sample_boundary @ [''src'', ''main'']) = Some RegularFile"
    by code_simp+
  with plain_paths_are_contained [of sample_fs sample_boundary "[''src'', ''main'']"] show ?thesis
    by (simp add: sample_contained_def sample_boundary_def)
qed

text \<open>
  C12: Containment sees through one dangling link and not through two. Where a directory of the roots
  holds a link \<open>second\<close> to a file outside every root that does not exist yet, that link is refused as
  an escape; but where the same directory holds a link \<open>first\<close> to \<open>second\<close>, \<open>first\<close> is accepted as
  a path of its own in that directory, and creating it creates the file outside.
\<close>

theorem dangling_links_escape:
  assumes dir: "plain_directory fs (pb_workspace_root b @ dirs)"
    and links: "node_at fs (pb_workspace_root b @ dirs @ [first]) = Some (Symlink [Normal second])"
      "node_at fs (pb_workspace_root b @ dirs @ [second])
        = Some (Symlink (location_path (out @ [missing])))"
    and out: "plain_directory fs out" "node_at fs (out @ [missing]) = None"
      "\<not> inside b (out @ [missing])" and limit: "2 \<le> fs_link_limit fs"
  shows "contain fs b (map Normal (dirs @ [second]))
      = Inl (SymlinkEscapes (path_string (location_path (pb_workspace_root b @ dirs @ [second])))
               (path_string (location_path (out @ [missing]))))
    \<and> contain fs b (map Normal (dirs @ [first]))
      = Inr \<lparr>cp_boundary = b, cp_supplied = map Normal (dirs @ [first]),
             cp_resolved = pb_workspace_root b @ dirs @ [first]\<rparr>
    \<and> lands_at fs (absolute_candidate b (map Normal (dirs @ [first]))) = Inr (out @ [missing])"
proof -
  let ?dir = "pb_workspace_root b @ dirs"
  have gone: "walk fs n [] (location_path (out @ [missing])) = Inl Io_NotFound" for n
    using out(1,2) by (simp add: walk_to_entry [OF out(1)] plain_directory_def lookup_error_def)
  have search: "lookup_error fs ?dir = None"
    using dir by (simp add: plain_directory_def lookup_error_def)
  have second: "walk fs n ?dir [Normal second] = Inl Io_NotFound" if "1 \<le> n" for n
    using gone [of "n - 1"] links(2) search that by (simp add: location_path_def)
  have first: "walk fs n ?dir [Normal first] = Inl Io_NotFound" if "2 \<le> n" for n
    using second [of "n - 1"] links(1) search that by (simp del: walk.simps(5)) (simp add: second)
  have abs: "absolute_candidate b (map Normal (dirs @ [c])) = location_path (?dir @ [c])" for c
    by (cases dirs) (auto simp: absolute_candidate_def join_path_def is_absolute_def location_path_def)
  have inside: "inside b (?dir @ xs)" for xs
    by (simp add: inside_def PathBoundary_roots_def)
  have outside: "canonicalize_with_missing_tail fs (location_path (out @ [missing])) = Inr (out @ [missing])"
    using out(1,2) by (intro missing_entry) (simp_all add: plain_directory_def lookup_error_def)
  have tails: "canonicalize_with_missing_tail fs (location_path (?dir @ [c])) = Inr (?dir @ [c])"
    if "c = first \<or> c = second" for c
    using that first [of "fs_link_limit fs"] second [of "fs_link_limit fs"] limit
    by (intro missing_entry [OF dir]) (auto simp del: walk.simps(5))
  have "escaping_symlink fs b (location_path (?dir @ [second]))
      = Inr (Some (location_path (?dir @ [second]), location_path (out @ [missing])))"
    using link_escapes [OF dir inside [of "[]", simplified], of second "location_path (out @ [missing])"] links(2)
      outside out(3) by (simp add: is_absolute_def location_path_def)
  moreover have "join_path (location_path ?dir) [Normal second] = location_path (?dir @ [second])"
    by (simp add: join_path_def is_absolute_def location_path_def)
  then have "escaping_symlink fs b (location_path (?dir @ [first])) = Inr None"
    using link_escapes [OF dir inside [of "[]", simplified], of first "[Normal second]"] links(1)
      tails [of second] inside [of "[second]"] by (simp add: is_absolute_def)
  moreover have "lands_at fs (location_path (?dir @ [first])) = Inr (out @ [missing])"
  proof -
    have "land fs n [] (location_path (xs @ [c])) = land fs n xs [Normal c]"
      if "plain_directory fs xs" for xs n c
      using land_append [of fs n "[]" "map Normal xs" n xs "[Normal c]"] walk_plain [of fs "[]" xs n] that
      by (simp add: plain_directory_def location_path_def del: land.simps(5))
    note enter = this
    have "land fs n [] (location_path (out @ [missing])) = Inr (out @ [missing])" for n
      using out(1,2) by (simp add: enter plain_directory_def lookup_error_def)
    then have "land fs (fs_link_limit fs) ?dir [Normal first] = Inr (out @ [missing])"
      using links search limit by (simp add: location_path_def)
    then have "land fs (fs_link_limit fs) [] (location_path (?dir @ [first])) = Inr (out @ [missing])"
      by (subst enter [OF dir])
    then show ?thesis
      by (simp only: lands_at_def) (simp add: start_of_def is_absolute_def location_path_def
          del: land.simps append.simps append_assoc)
  qed
  ultimately show ?thesis
    using tails inside [of "[first]"]
    by (simp add: contain_def Let_def abs [simplified] contains_resolved_location)
qed

theorem dangling_links_escape_witness:
  "contain sample_fs sample_boundary [Normal ''a''] = Inr (sample_contained [Normal ''a''] [''ws'', ''a''])
   \<and> lands_at sample_fs (absolute_candidate sample_boundary [Normal ''a'']) = Inr [''out'', ''new'']"
proof -
  have "plain_directory sample_fs (pb_workspace_root sample_boundary @ [])"
    "node_at sample_fs (pb_workspace_root sample_boundary @ [] @ [''a'']) = Some (Symlink [Normal ''b''])"
    "node_at sample_fs (pb_workspace_root sample_boundary @ [] @ [''b''])
      = Some (Symlink (location_path ([''out''] @ [''new''])))"
    "plain_directory sample_fs [''out'']" "node_at sample_fs ([''out''] @ [''new'']) = None"
    "\<not> inside sample_boundary ([''out''] @ [''new''])" "2 \<le> fs_link_limit sample_fs"
    by code_simp+
  from dangling_links_escape [OF this] show ?thesis
    by (simp add: sample_contained_def sample_boundary_def)
qed

text \<open>
  A relative program that contains a separator is accepted as a bare name when nothing but the
  separator follows.
\<close>

theorem trailing_separator_is_bare:
  "CommandSpec_new ''tool/'' args cwd env
     = Inr \<lparr>cs_program = ''tool/'', cs_args = args, cs_cwd = cwd, cs_env = env\<rparr>"
proof -
  have "parse_path ''tool/'' = [Normal ''tool'']"
    by code_simp
  then show ?thesis
    by (simp add: CommandSpec_new_def Let_def is_absolute_def file_name_def)
qed

section \<open>Roots\<close>

lemma distinct_remdups_adj: "sorted xs \<Longrightarrow> distinct (remdups_adj xs)" for xs :: "'a::linorder list"
  by (induction xs rule: remdups_adj.induct) (auto simp: le_less)

lemma boundary_root_Inr:
  assumes "boundary_root fs root = Inr r"
  shows "node_at fs r \<in> {Some Directory, Some Unsearchable}" and "canonicalize fs root = Inr r"
  using assms by (auto simp: boundary_root_def split: sum.splits if_splits)

lemma canonical_roots_Inr:
  "canonical_roots fs roots = Inr rs \<Longrightarrow> \<forall>r \<in> set rs. \<exists>root \<in> set roots. boundary_root fs root = Inr r"
  by (induction roots arbitrary: rs) (fastforce simp: res_bind_Inr_iff)+

text \<open>
  The roots of a boundary are canonical directories, free of links, all different, the extra ones
  sorted.
\<close>

theorem boundary_roots_are_canonical:
  assumes "PathBoundary_new fs workspace_root extra_roots = Inr b" and "link_free fs (fs_cwd fs)"
  shows "(\<forall>r \<in> set (PathBoundary_roots b).
      node_at fs r \<in> {Some Directory, Some Unsearchable} \<and> link_free fs r)
    \<and> distinct (PathBoundary_roots b) \<and> sorted (pb_extra_roots b)"
proof -
  obtain root extras where root: "boundary_root fs workspace_root = Inr root"
    and extras: "canonical_roots fs extra_roots = Inr extras"
    and b: "pb_workspace_root b = root"
      "pb_extra_roots b = remdups_adj (sort (filter (\<lambda>r. r \<noteq> root) extras))"
    using assms(1) by (auto simp: PathBoundary_new_def res_bind_Inr_iff)
  have good: "node_at fs r \<in> {Some Directory, Some Unsearchable} \<and> link_free fs r"
    if "boundary_root fs s = Inr r" for r s
    using boundary_root_Inr [OF that] canonicalize_link_free assms(2) by blast
  have "\<forall>r \<in> set (PathBoundary_roots b). \<exists>s. boundary_root fs s = Inr r"
    using root canonical_roots_Inr [OF extras] by (auto simp: PathBoundary_roots_def b)
  moreover have "distinct (PathBoundary_roots b) \<and> sorted (pb_extra_roots b)"
    by (auto simp: PathBoundary_roots_def b distinct_remdups_adj)
  ultimately show ?thesis
    using good by blast
qed

end
