(* ===== verification/Approval_Record.thy ===== *)
theory Approval_Record
  imports Policy
begin

text \<open>
  The durable approval request: its vocabulary, its lifecycle, the decision that ends it, and the
  check a stored row passes.

  Source: \<open>harkness-runtime/src/approval/record.rs\<close>, \<open>approval/error.rs\<close> and the hash value of
  \<open>approval/canonical.rs\<close>. A \<open>&mut self\<close> method is a function to the changed request or the
  error. The store's redactor rewrites only the summary and the reason text
  (\<open>with_redacted_summary\<close>, \<open>with_redacted_reason\<close>).
\<close>

section \<open>Input hashes\<close>

text \<open>\<open>[u8; 32]\<close> is a list of bytes; \<open>input_hash_ok\<close> is its length.\<close>

datatype input_hash = InputHash (hash_bytes: "8 word list")

definition input_hash_ok :: "input_hash \<Rightarrow> bool" where
  "input_hash_ok h \<longleftrightarrow> length (hash_bytes h) = 32"

definition hex_digit :: "8 word \<Rightarrow> char" where
  "hex_digit n = (if n < 10 then char_of (48 + unat n) else char_of (87 + unat n))"

definition InputHash_to_hex :: "input_hash \<Rightarrow> string" where
  "InputHash_to_hex h =
     concat (map (\<lambda>b. [hex_digit (drop_bit 4 b), hex_digit (take_bit 4 b)]) (hash_bytes h))"

definition nibble :: "char \<Rightarrow> 8 word option" where
  "nibble c =
     (let d = of_char c :: nat
      in if 48 \<le> d \<and> d \<le> 57 then Some (of_nat (d - 48))
         else if 97 \<le> d \<and> d \<le> 102 then Some (of_nat (d - 97 + 10))
         else None)"

unbundle bit_operations_syntax

fun parse_pairs :: "string \<Rightarrow> 8 word list option" where
  "parse_pairs (a # b # r) =
     (case nibble a of
        None \<Rightarrow> None
      | Some x \<Rightarrow>
          (case nibble b of
             None \<Rightarrow> None
           | Some y \<Rightarrow> map_option ((#) (push_bit 4 (push_bit 4 0 OR x) OR y)) (parse_pairs r)))"
| "parse_pairs r = Some []"

section \<open>States, scopes, verdicts and surfaces\<close>

datatype approval_state =
    AS_Pending | AS_Granted | AS_Denied | AS_Expired | AS_Cancelled | AS_Superseded

definition ApprovalState_ALL :: "approval_state list" where
  "ApprovalState_ALL =
     [AS_Pending, AS_Granted, AS_Denied, AS_Expired, AS_Cancelled, AS_Superseded]"

primrec ApprovalState_as_str :: "approval_state \<Rightarrow> string" where
  "ApprovalState_as_str AS_Pending = ''pending''"
| "ApprovalState_as_str AS_Granted = ''granted''"
| "ApprovalState_as_str AS_Denied = ''denied''"
| "ApprovalState_as_str AS_Expired = ''expired''"
| "ApprovalState_as_str AS_Cancelled = ''cancelled''"
| "ApprovalState_as_str AS_Superseded = ''superseded''"

definition ApprovalState_from_stored :: "string \<Rightarrow> approval_state option" where
  "ApprovalState_from_stored = find_spelling ApprovalState_ALL ApprovalState_as_str"

definition ApprovalState_is_terminal :: "approval_state \<Rightarrow> bool" where
  "ApprovalState_is_terminal s \<longleftrightarrow> s \<noteq> AS_Pending"

definition APPROVAL_TRANSITIONS :: "(approval_state \<times> approval_state) list" where
  "APPROVAL_TRANSITIONS =
     [(AS_Pending, AS_Granted), (AS_Pending, AS_Denied), (AS_Pending, AS_Expired),
      (AS_Pending, AS_Cancelled), (AS_Pending, AS_Superseded)]"

datatype approval_scope = ExactCall | ToolForRun | CapabilityForRun

definition ApprovalScope_ALL :: "approval_scope list" where
  "ApprovalScope_ALL = [ExactCall, ToolForRun, CapabilityForRun]"

primrec ApprovalScope_as_str :: "approval_scope \<Rightarrow> string" where
  "ApprovalScope_as_str ExactCall = ''exact_call''"
| "ApprovalScope_as_str ToolForRun = ''tool_for_run''"
| "ApprovalScope_as_str CapabilityForRun = ''capability_for_run''"

definition ApprovalScope_from_stored :: "string \<Rightarrow> approval_scope option" where
  "ApprovalScope_from_stored = find_spelling ApprovalScope_ALL ApprovalScope_as_str"

definition ApprovalScope_ceiling :: "approval_scope \<Rightarrow> risk_level \<Rightarrow> approval_scope" where
  "ApprovalScope_ceiling scope risk =
     (if risk = RemoteWrite \<or> risk = Destructive then ExactCall else scope)"

datatype approval_verdict = VerdictGranted | VerdictDenied

definition ApprovalVerdict_ALL :: "approval_verdict list" where
  "ApprovalVerdict_ALL = [VerdictGranted, VerdictDenied]"

primrec ApprovalVerdict_as_str :: "approval_verdict \<Rightarrow> string" where
  "ApprovalVerdict_as_str VerdictGranted = ''granted''"
| "ApprovalVerdict_as_str VerdictDenied = ''denied''"

definition ApprovalVerdict_from_stored :: "string \<Rightarrow> approval_verdict option" where
  "ApprovalVerdict_from_stored = find_spelling ApprovalVerdict_ALL ApprovalVerdict_as_str"

datatype decided_via = ViaCli | ViaGui

definition DecidedVia_ALL :: "decided_via list" where
  "DecidedVia_ALL = [ViaCli, ViaGui]"

primrec DecidedVia_as_str :: "decided_via \<Rightarrow> string" where
  "DecidedVia_as_str ViaCli = ''cli''"
| "DecidedVia_as_str ViaGui = ''gui''"

definition DecidedVia_from_stored :: "string \<Rightarrow> decided_via option" where
  "DecidedVia_from_stored = find_spelling DecidedVia_ALL DecidedVia_as_str"

section \<open>Errors\<close>

datatype 't approval_error =
    InvalidTransition approval_id approval_state approval_state
  | AlreadyResolved approval_id approval_state
  | DecisionIdentityMismatch approval_id approval_id
  | ScopeExceedsRequest approval_id approval_scope approval_scope
  | ApprovalExpired approval_id 't
  | ScopeRequiresCapability approval_scope
  | InvalidIntegrationIdentity string
  | UncanonicalizableInput string string
  | InconsistentRecord approval_id string
  | MalformedInputHash string string

definition ApprovalError_KINDS :: "string list" where
  "ApprovalError_KINDS =
     [''approval_invalid_transition'', ''approval_already_resolved'',
      ''approval_decision_identity_mismatch'', ''approval_scope_exceeds_request'',
      ''approval_expired'', ''approval_scope_requires_capability'',
      ''approval_invalid_integration_identity'', ''approval_uncanonicalizable_input'',
      ''approval_inconsistent_record'', ''approval_malformed_input_hash'']"

primrec ApprovalError_kind :: "'t approval_error \<Rightarrow> string" where
  "ApprovalError_kind (InvalidTransition i a b) = ApprovalError_KINDS ! 0"
| "ApprovalError_kind (AlreadyResolved i a) = ApprovalError_KINDS ! 1"
| "ApprovalError_kind (DecisionIdentityMismatch i j) = ApprovalError_KINDS ! 2"
| "ApprovalError_kind (ScopeExceedsRequest i a b) = ApprovalError_KINDS ! 3"
| "ApprovalError_kind (ApprovalExpired i t) = ApprovalError_KINDS ! 4"
| "ApprovalError_kind (ScopeRequiresCapability s) = ApprovalError_KINDS ! 5"
| "ApprovalError_kind (InvalidIntegrationIdentity x) = ApprovalError_KINDS ! 6"
| "ApprovalError_kind (UncanonicalizableInput p x) = ApprovalError_KINDS ! 7"
| "ApprovalError_kind (InconsistentRecord i x) = ApprovalError_KINDS ! 8"
| "ApprovalError_kind (MalformedInputHash v x) = ApprovalError_KINDS ! 9"

definition InputHash_parse :: "string \<Rightarrow> 't approval_error + input_hash" where
  "InputHash_parse v =
     (if length v \<noteq> 64
      then Inl (MalformedInputHash v ''it is not 64 hexadecimal characters long'')
      else case parse_pairs v of
          None \<Rightarrow> Inl (MalformedInputHash v ''it is not spelled in lowercase hexadecimal'')
        | Some bytes \<Rightarrow> Inr (InputHash bytes))"

section \<open>Bindings and decisions\<close>

text \<open>The root is canonical, so comparing its text and comparing its components agree.\<close>

record workspace_binding =
  wb_project_id :: "project_id option"
  wb_canonical_root :: string

definition WorkspaceBinding_new :: "project_id option \<Rightarrow> string \<Rightarrow> workspace_binding" where
  "WorkspaceBinding_new project root = \<lparr>wb_project_id = project, wb_canonical_root = root\<rparr>"

record 't approval_decision_record =
  ad_approval_id :: approval_id
  ad_verdict :: approval_verdict
  ad_scope :: "approval_scope option"
  ad_decided_at :: 't
  ad_decided_via :: decided_via
  ad_reason :: "string option"

definition ApprovalDecision_grant ::
  "'t time_ops \<Rightarrow> approval_id \<Rightarrow> approval_scope \<Rightarrow> decided_via \<Rightarrow> 't \<Rightarrow> 't approval_decision_record"
where
  "ApprovalDecision_grant T i scope via at =
     \<lparr>ad_approval_id = i, ad_verdict = VerdictGranted, ad_scope = Some scope,
      ad_decided_at = to_utc T at, ad_decided_via = via, ad_reason = None\<rparr>"

definition ApprovalDecision_deny ::
  "'t time_ops \<Rightarrow> approval_id \<Rightarrow> decided_via \<Rightarrow> 't \<Rightarrow> 't approval_decision_record" where
  "ApprovalDecision_deny T i via at =
     \<lparr>ad_approval_id = i, ad_verdict = VerdictDenied, ad_scope = None,
      ad_decided_at = to_utc T at, ad_decided_via = via, ad_reason = None\<rparr>"

definition ApprovalDecision_because ::
  "string \<Rightarrow> 't approval_decision_record \<Rightarrow> 't approval_decision_record" where
  "ApprovalDecision_because reason d = d\<lparr>ad_reason := Some reason\<rparr>"

definition ApprovalDecision_with_redacted_reason ::
  "string option \<Rightarrow> 't approval_decision_record \<Rightarrow> 't approval_decision_record" where
  "ApprovalDecision_with_redacted_reason reason d = d\<lparr>ad_reason := reason\<rparr>"

definition ApprovalDecision_from_stored ::
  "approval_id \<Rightarrow> approval_verdict \<Rightarrow> approval_scope option \<Rightarrow> decided_via \<Rightarrow> 't \<Rightarrow> string option \<Rightarrow>
   't approval_decision_record" where
  "ApprovalDecision_from_stored i verdict scope via at reason =
     \<lparr>ad_approval_id = i, ad_verdict = verdict, ad_scope = scope, ad_decided_at = at,
      ad_decided_via = via, ad_reason = reason\<rparr>"

section \<open>Pending approvals\<close>

record ('w, 't) pending_approval =
  pa_run_id :: run_id
  pa_tool_call_id :: tool_call_id
  pa_tool :: "'w tool_identity"
  pa_capabilities :: "capability list"
  pa_integration_identity :: integration_identity
  pa_input_hash :: input_hash
  pa_input_summary :: string
  pa_workspace :: workspace_binding
  pa_risk :: risk_level
  pa_requested_scope :: approval_scope
  pa_expires_at :: "'t option"
  pa_created_at :: 't

definition PendingApproval_new ::
  "'t time_ops \<Rightarrow> run_id \<Rightarrow> tool_call_id \<Rightarrow> 'w tool_identity \<Rightarrow> input_hash \<Rightarrow> workspace_binding \<Rightarrow>
   risk_level \<Rightarrow> 't \<Rightarrow> ('w, 't) pending_approval" where
  "PendingApproval_new T run call tool hash workspace risk created_at =
     \<lparr>pa_run_id = run, pa_tool_call_id = call, pa_tool = tool, pa_capabilities = [],
      pa_integration_identity = IntegrationIdentity_none, pa_input_hash = hash,
      pa_input_summary = '''', pa_workspace = workspace, pa_risk = risk,
      pa_requested_scope = ExactCall, pa_expires_at = None, pa_created_at = to_utc T created_at\<rparr>"

definition PendingApproval_requesting ::
  "approval_scope \<Rightarrow> ('w, 't) pending_approval \<Rightarrow> ('w, 't) pending_approval" where
  "PendingApproval_requesting scope p = p\<lparr>pa_requested_scope := scope\<rparr>"

text \<open>\<open>Vec::dedup\<close> drops every entry equal to the one kept before it.\<close>

definition PendingApproval_with_capabilities ::
  "capability list \<Rightarrow> ('w, 't) pending_approval \<Rightarrow> ('w, 't) pending_approval" where
  "PendingApproval_with_capabilities cs p =
     p\<lparr>pa_capabilities := remdups_adj (sort_key capability_str (pa_capabilities p @ cs))\<rparr>"

definition PendingApproval_with_integration_identity ::
  "integration_identity \<Rightarrow> ('w, 't) pending_approval \<Rightarrow> ('w, 't) pending_approval" where
  "PendingApproval_with_integration_identity i p = p\<lparr>pa_integration_identity := i\<rparr>"

definition PendingApproval_summarized_as ::
  "string \<Rightarrow> ('w, 't) pending_approval \<Rightarrow> ('w, 't) pending_approval" where
  "PendingApproval_summarized_as summary p = p\<lparr>pa_input_summary := summary\<rparr>"

definition PendingApproval_expiring_at ::
  "'t time_ops \<Rightarrow> 't \<Rightarrow> ('w, 't) pending_approval \<Rightarrow> ('w, 't) pending_approval" where
  "PendingApproval_expiring_at T at p = p\<lparr>pa_expires_at := Some (to_utc T at)\<rparr>"

section \<open>Requests\<close>

record ('w, 't) approval_request =
  ar_id :: approval_id
  ar_pending :: "('w, 't) pending_approval"
  ar_effective_scope :: approval_scope
  ar_state :: approval_state
  ar_resolved_at :: "'t option"
  ar_decision :: "'t approval_decision_record option"

definition validate_integration_identity ::
  "capability list \<Rightarrow> integration_identity \<Rightarrow> string + unit" where
  "validate_integration_identity capabilities identity =
     (case List.map_filter ExternalCapability_from_capability capabilities of
        [] \<Rightarrow>
          if IntegrationIdentity_is_empty identity then Inr ()
          else Inl ''a local operation cannot carry external integration identity''
      | [capability] \<Rightarrow> validate_identity_shape capability identity
      | _ \<Rightarrow> Inl ''an approval must describe exactly one external operation'')"

definition ApprovalRequest_open_with_id ::
  "approval_id \<Rightarrow> ('w, 't) pending_approval \<Rightarrow> 't approval_error + ('w, 't) approval_request" where
  "ApprovalRequest_open_with_id i pending =
     (let effective_scope = ApprovalScope_ceiling (pa_requested_scope pending) (pa_risk pending)
      in if effective_scope = CapabilityForRun \<and> pa_capabilities pending = []
         then Inl (ScopeRequiresCapability CapabilityForRun)
         else case validate_integration_identity (pa_capabilities pending)
                     (pa_integration_identity pending) of
             Inl reason \<Rightarrow> Inl (InvalidIntegrationIdentity reason)
           | Inr _ \<Rightarrow>
               Inr \<lparr>ar_id = i, ar_pending = pending, ar_effective_scope = effective_scope,
                    ar_state = AS_Pending, ar_resolved_at = None, ar_decision = None\<rparr>)"

definition ApprovalRequest_with_redacted_summary ::
  "string \<Rightarrow> ('w, 't) approval_request \<Rightarrow> ('w, 't) approval_request" where
  "ApprovalRequest_with_redacted_summary summary r =
     r\<lparr>ar_pending := (ar_pending r)\<lparr>pa_input_summary := summary\<rparr>\<rparr>"

text \<open>The part of \<open>from_stored\<close> that reads the decision of a row.\<close>

definition validate_stored_decision ::
  "'t time_ops \<Rightarrow> approval_id \<Rightarrow> ('w, 't) pending_approval \<Rightarrow> approval_scope \<Rightarrow> approval_state \<Rightarrow>
   't approval_decision_record option \<Rightarrow> 't approval_error + unit" where
  "validate_stored_decision T i pending effective_scope state decision =
     (let refuse = (\<lambda>reason. Inl (InconsistentRecord i reason))
      in case decision of
           None \<Rightarrow>
             if state = AS_Granted \<or> state = AS_Denied
             then refuse ''a decided approval records the decision that resolved it''
             else Inr ()
         | Some d \<Rightarrow>
             if \<not> (state = AS_Granted \<or> state = AS_Denied)
             then refuse ''an approval nobody answered must record no decision''
             else if ad_approval_id d \<noteq> i
             then refuse ''its decision answers a different approval''
             else if (case ad_verdict d of VerdictGranted \<Rightarrow> AS_Granted | VerdictDenied \<Rightarrow> AS_Denied)
                     \<noteq> state
             then refuse ''its state disagrees with the verdict that produced it''
             else if (case pa_expires_at pending of None \<Rightarrow> False
                      | Some at \<Rightarrow> instant T at \<le> instant T (ad_decided_at d))
             then refuse ''it was decided after the deadline for answering it''
             else if ad_verdict d = VerdictGranted \<and> ad_scope d \<noteq> Some effective_scope
             then refuse ''its effective scope is not the scope its decision authorized''
             else Inr ())"

definition ApprovalRequest_from_stored ::
  "'t time_ops \<Rightarrow> approval_id \<Rightarrow> ('w, 't) pending_approval \<Rightarrow> approval_scope \<Rightarrow> approval_state \<Rightarrow>
   't option \<Rightarrow> 't approval_decision_record option \<Rightarrow>
   't approval_error + ('w, 't) approval_request" where
  "ApprovalRequest_from_stored T i pending effective_scope state resolved_at decision =
     (let refuse = (\<lambda>reason. Inl (InconsistentRecord i reason));
          ceiling = ApprovalScope_ceiling (pa_requested_scope pending) (pa_risk pending)
      in if effective_scope \<noteq> ceiling \<and> effective_scope \<noteq> ExactCall
         then refuse ''its effective scope is broader than its requested scope and risk allow''
         else if effective_scope = CapabilityForRun \<and> pa_capabilities pending = []
         then refuse ''it is scoped to a capability but names none''
         else case validate_integration_identity (pa_capabilities pending)
                     (pa_integration_identity pending) of
             Inl reason \<Rightarrow> refuse reason
           | Inr _ \<Rightarrow>
               if ApprovalState_is_terminal state \<noteq> (resolved_at \<noteq> None)
               then refuse ''a resolved approval records when it was resolved, and a pending one does not''
               else res_bind
                 (validate_stored_decision T i pending effective_scope state decision)
                 (\<lambda>_. Inr \<lparr>ar_id = i, ar_pending = pending, ar_effective_scope = effective_scope,
                           ar_state = state, ar_resolved_at = resolved_at,
                           ar_decision = decision\<rparr>))"

definition ApprovalRequest_was_downgraded :: "('w, 't) approval_request \<Rightarrow> bool" where
  "ApprovalRequest_was_downgraded r \<longleftrightarrow> ar_effective_scope r \<noteq> pa_requested_scope (ar_pending r)"

definition ApprovalRequest_grantable_scopes :: "('w, 't) approval_request \<Rightarrow> approval_scope list" where
  "ApprovalRequest_grantable_scopes r =
     (if ar_effective_scope r = ExactCall then [ExactCall] else [ExactCall, ar_effective_scope r])"

definition ApprovalRequest_is_expired ::
  "'t time_ops \<Rightarrow> ('w, 't) approval_request \<Rightarrow> 't \<Rightarrow> bool" where
  "ApprovalRequest_is_expired T r at =
     (case pa_expires_at (ar_pending r) of
        None \<Rightarrow> False
      | Some expiry \<Rightarrow> instant T expiry \<le> instant T at)"

definition ApprovalRequest_decide ::
  "'t time_ops \<Rightarrow> ('w, 't) approval_request \<Rightarrow> 't approval_decision_record \<Rightarrow>
   't approval_error + ('w, 't) approval_request" where
  "ApprovalRequest_decide T r d =
     (if ApprovalState_is_terminal (ar_state r)
      then Inl (AlreadyResolved (ar_id r) (ar_state r))
      else if ad_approval_id d \<noteq> ar_id r
      then Inl (DecisionIdentityMismatch (ar_id r) (ad_approval_id d))
      else if ApprovalRequest_is_expired T r (ad_decided_at d)
      then Inl (ApprovalExpired (ar_id r)
                  (case pa_expires_at (ar_pending r) of None \<Rightarrow> ad_decided_at d | Some at \<Rightarrow> at))
      else case (case ad_scope d of
                   Some scope \<Rightarrow>
                     if scope \<noteq> ar_effective_scope r \<and> scope \<noteq> ExactCall then Some scope else None
                 | None \<Rightarrow> None) of
          Some scope \<Rightarrow> Inl (ScopeExceedsRequest (ar_id r) (ar_effective_scope r) scope)
        | None \<Rightarrow>
            Inr (r\<lparr>ar_state := (case ad_verdict d of
                                   VerdictGranted \<Rightarrow> AS_Granted | VerdictDenied \<Rightarrow> AS_Denied),
                   ar_resolved_at := Some (ad_decided_at d),
                   ar_effective_scope := (case ad_scope d of
                                            Some scope \<Rightarrow> scope | None \<Rightarrow> ar_effective_scope r),
                   ar_decision := Some d\<rparr>))"

definition ApprovalRequest_resolve ::
  "'t time_ops \<Rightarrow> ('w, 't) approval_request \<Rightarrow> approval_state \<Rightarrow> 't \<Rightarrow>
   't approval_error + ('w, 't) approval_request" where
  "ApprovalRequest_resolve T r to at =
     (let decided = (to = AS_Granted \<or> to = AS_Denied)
      in if decided \<or> (ar_state r, to) \<notin> set APPROVAL_TRANSITIONS
         then Inl (InvalidTransition (ar_id r) (ar_state r) to)
         else Inr (r\<lparr>ar_state := to, ar_resolved_at := Some (to_utc T at)\<rparr>))"

definition ApprovalRequest_expire ::
  "'t time_ops \<Rightarrow> ('w, 't) approval_request \<Rightarrow> 't \<Rightarrow> 't approval_error + ('w, 't) approval_request"
where
  "ApprovalRequest_expire T r at = ApprovalRequest_resolve T r AS_Expired at"

definition ApprovalRequest_cancel ::
  "'t time_ops \<Rightarrow> ('w, 't) approval_request \<Rightarrow> 't \<Rightarrow> 't approval_error + ('w, 't) approval_request"
where
  "ApprovalRequest_cancel T r at = ApprovalRequest_resolve T r AS_Cancelled at"

definition ApprovalRequest_supersede ::
  "'t time_ops \<Rightarrow> ('w, 't) approval_request \<Rightarrow> 't \<Rightarrow> 't approval_error + ('w, 't) approval_request"
where
  "ApprovalRequest_supersede T r at = ApprovalRequest_resolve T r AS_Superseded at"

section \<open>Spellings and hashes\<close>

interpretation approval_state_spelling: stable_spelling ApprovalState_ALL ApprovalState_as_str
proof
  fix k show "k \<in> set ApprovalState_ALL" by (cases k) (simp_all add: ApprovalState_ALL_def)
qed (simp add: ApprovalState_ALL_def)

interpretation approval_scope_spelling: stable_spelling ApprovalScope_ALL ApprovalScope_as_str
proof
  fix k show "k \<in> set ApprovalScope_ALL" by (cases k) (simp_all add: ApprovalScope_ALL_def)
qed (simp add: ApprovalScope_ALL_def)

interpretation approval_verdict_spelling: stable_spelling ApprovalVerdict_ALL ApprovalVerdict_as_str
proof
  fix k show "k \<in> set ApprovalVerdict_ALL" by (cases k) (simp_all add: ApprovalVerdict_ALL_def)
qed (simp add: ApprovalVerdict_ALL_def)

interpretation decided_via_spelling: stable_spelling DecidedVia_ALL DecidedVia_as_str
proof
  fix k show "k \<in> set DecidedVia_ALL" by (cases k) (simp_all add: DecidedVia_ALL_def)
qed (simp add: DecidedVia_ALL_def)

end
