(* ===== verification/Approval_Lifecycle.thy ===== *)
theory Approval_Lifecycle
  imports Approval_Record
begin

text \<open>
  What an approval request can become: the requests the constructors and operations build, that
  the store's row check accepts each of them and nothing broader, that a resolved request stays
  resolved, and that a grant is always a human's, in time and within the risk ceiling.
\<close>

section \<open>Hexadecimal spelling of a hash\<close>

lemma small_word: "n < 16 \<Longrightarrow> n \<in> set (map of_nat [0..<16])" for n :: "8 word"
proof -
  assume "n < 16"
  then have u: "unat n \<in> set [0..<16]"
    by (simp add: word_less_nat_alt)
  have "n = of_nat (unat n)"
    by simp
  from this u show ?thesis
    unfolding set_map by (rule image_eqI)
qed

lemma nibble_hex_digit: "n < 16 \<Longrightarrow> nibble (hex_digit n) = Some n" for n :: "8 word"
proof -
  assume "n < 16"
  then have u: "unat n < 16"
    by (simp add: word_less_nat_alt)
  have n: "n = of_nat (unat n)"
    by simp
  show ?thesis
  proof (cases "unat n < 10")
    case True
    then have "nibble (hex_digit n) = Some (of_nat (unat n))"
      by (simp only: hex_digit_def word_less_nat_alt nibble_def Let_def) simp
    with n show ?thesis
      by (simp only: n [symmetric])
  next
    case False
    with u have "nibble (hex_digit n) = Some (of_nat (unat n))"
      by (simp only: hex_digit_def word_less_nat_alt nibble_def Let_def) simp
    with n show ?thesis
      by (simp only: n [symmetric])
  qed
qed

lemma hex_digit_nibble: "nibble c = Some n \<Longrightarrow> hex_digit n = c \<and> n < 16"
proof -
  assume n: "nibble c = Some n"
  let ?d = "of_char c :: nat"
  from n consider "48 \<le> ?d" "?d \<le> 57" "n = of_nat (?d - 48)"
    | "97 \<le> ?d" "?d \<le> 102" "n = of_nat (?d - 97 + 10)"
    by (auto simp: nibble_def Let_def split: if_splits)
  then show ?thesis
  proof cases
    case 1
    then have "unat n = ?d - 48"
      by (simp only: unat_of_nat) simp
    moreover have "?d - 48 < 10"
      using 1(1,2) by linarith
    ultimately show ?thesis
      using 1(1,2)
      by (simp add: hex_digit_def word_less_nat_alt)
  next
    case 2
    then have "unat n = ?d - 87"
      by (simp only: unat_of_nat) simp
    moreover have "\<not> ?d - 87 < 10"
      using 2(1,2) by linarith
    ultimately show ?thesis
      using 2(1,2)
      by (simp add: hex_digit_def word_less_nat_alt)
  qed
qed

lemma byte_halves: "push_bit 4 (drop_bit 4 b) OR take_bit 4 b = b" for b :: "8 word"
  by (rule bit_word_eqI) (auto simp: bit_simps)

lemma halves_bound: "drop_bit 4 b < 16" "take_bit 4 b < 16" for b :: "8 word"
proof -
  show "take_bit 4 b < 16"
    by (simp add: take_bit_eq_mod word_mod_less_divisor)
  have "unat b < 2 ^ 8"
    using unsigned_less [of b, where ?'a = nat] by simp
  then have "unat (drop_bit 4 b) < 16"
    by (simp add: drop_bit_eq_div unat_div_distrib)
  then show "drop_bit 4 b < 16"
    by (simp add: word_less_nat_alt)
qed

lemma halves_byte:
  "x < 16 \<Longrightarrow> y < 16 \<Longrightarrow> drop_bit 4 (push_bit 4 x OR y) = x \<and> take_bit 4 (push_bit 4 x OR y) = y"
  for x y :: "8 word"
proof -
  have "list_all (\<lambda>x. list_all (\<lambda>y. drop_bit 4 (push_bit 4 x OR y) = x
      \<and> take_bit 4 (push_bit 4 x OR y) = (y :: 8 word)) (map of_nat [0..<16])) (map of_nat [0..<16])"
    by code_simp
  then show "x < 16 \<Longrightarrow> y < 16 \<Longrightarrow> drop_bit 4 (push_bit 4 x OR y) = x \<and> take_bit 4 (push_bit 4 x OR y) = y"
    using small_word by (simp only: list_all_iff)
qed

lemma parse_pairs_to_hex: "parse_pairs (InputHash_to_hex (InputHash bs)) = Some bs"
  by (induction bs)
     (auto simp: InputHash_to_hex_def nibble_hex_digit halves_bound byte_halves)

lemma parse_pairs_sound:
  "parse_pairs s = Some bs \<Longrightarrow> even (length s) \<Longrightarrow>
   InputHash_to_hex (InputHash bs) = s \<and> length s = 2 * length bs"
proof (induction s arbitrary: bs rule: parse_pairs.induct)
  case (1 a b r)
  then obtain x y cs where "nibble a = Some x" "nibble b = Some y" "parse_pairs r = Some cs"
    "bs = (push_bit 4 x OR y) # cs"
    by (auto split: option.splits)
  with 1 show ?case
    using hex_digit_nibble [of a x] hex_digit_nibble [of b y] halves_byte [of x y]
    by (auto simp: InputHash_to_hex_def)
qed (auto simp: InputHash_to_hex_def)

lemma length_to_hex: "length (InputHash_to_hex h) = 2 * length (hash_bytes h)"
  by (simp add: InputHash_to_hex_def length_concat comp_def sum_list_triv)

section \<open>Well-formed requests\<close>

definition stored_decision_ok ::
  "'t time_ops \<Rightarrow> approval_id \<Rightarrow> ('w, 't) pending_approval \<Rightarrow> approval_scope \<Rightarrow> approval_state \<Rightarrow>
   't approval_decision_record option \<Rightarrow> bool" where
  "stored_decision_ok T i pending scope state decision \<longleftrightarrow>
     (case decision of
        None \<Rightarrow> state \<noteq> AS_Granted \<and> state \<noteq> AS_Denied
      | Some d \<Rightarrow>
          ad_approval_id d = i
          \<and> state = (case ad_verdict d of VerdictGranted \<Rightarrow> AS_Granted | VerdictDenied \<Rightarrow> AS_Denied)
          \<and> pred_option (\<lambda>at. instant T (ad_decided_at d) < instant T at) (pa_expires_at pending)
          \<and> (ad_verdict d = VerdictGranted \<longrightarrow> ad_scope d = Some scope))"

definition request_ok :: "'t time_ops \<Rightarrow> ('w, 't) approval_request \<Rightarrow> bool" where
  "request_ok T r \<longleftrightarrow>
     (let p = ar_pending r; scope = ar_effective_scope r
      in (scope = ApprovalScope_ceiling (pa_requested_scope p) (pa_risk p) \<or> scope = ExactCall)
         \<and> (scope = CapabilityForRun \<longrightarrow> pa_capabilities p \<noteq> [])
         \<and> validate_integration_identity (pa_capabilities p) (pa_integration_identity p) = Inr ()
         \<and> (ar_state r \<noteq> AS_Pending \<longleftrightarrow> ar_resolved_at r \<noteq> None)
         \<and> stored_decision_ok T (ar_id r) p scope (ar_state r) (ar_decision r))"

lemma validate_stored_decision_Inr:
  "validate_stored_decision T i p scope state d = Inr u \<longleftrightarrow> stored_decision_ok T i p scope state d"
  unfolding validate_stored_decision_def stored_decision_ok_def Let_def
  by (cases d; cases "pa_expires_at p")
     (auto simp: not_le split: approval_verdict.splits if_splits)

lemma from_stored_Inr:
  "ApprovalRequest_from_stored T i p scope state res d = Inr r \<longleftrightarrow>
     r = \<lparr>ar_id = i, ar_pending = p, ar_effective_scope = scope, ar_state = state,
          ar_resolved_at = res, ar_decision = d\<rparr> \<and> request_ok T r"
  unfolding ApprovalRequest_from_stored_def Let_def if_Inl_Inr_iff
  by (cases "validate_integration_identity (pa_capabilities p) (pa_integration_identity p)")
     (auto simp: request_ok_def Let_def res_bind_Inr_iff if_Inl_Inr_iff
        validate_stored_decision_Inr ApprovalState_is_terminal_def)

lemma open_Inr:
  "ApprovalRequest_open_with_id i p = Inr r \<Longrightarrow> request_ok T r \<and> ar_state r = AS_Pending"
  by (auto simp: ApprovalRequest_open_with_id_def request_ok_def Let_def stored_decision_ok_def
      split: if_splits sum.splits)

text \<open>Decisions a surface can build: the two constructors and the reason.\<close>

inductive decision_built :: "'t time_ops \<Rightarrow> 't approval_decision_record \<Rightarrow> bool" for T where
  built_grant: "decision_built T (ApprovalDecision_grant T i scope via at)"
| built_deny: "decision_built T (ApprovalDecision_deny T i via at)"
| built_because: "decision_built T d \<Longrightarrow> decision_built T (ApprovalDecision_because reason d)"
| built_redacted: "decision_built T d \<Longrightarrow>
    decision_built T (ApprovalDecision_with_redacted_reason redacted d)"

lemma decision_built_scope:
  "decision_built T d \<Longrightarrow> ad_verdict d = VerdictGranted \<longleftrightarrow> ad_scope d \<noteq> None"
  by (induction rule: decision_built.induct)
     (auto simp: ApprovalDecision_grant_def ApprovalDecision_deny_def ApprovalDecision_because_def
        ApprovalDecision_with_redacted_reason_def)

lemma decide_Inr:
  "ApprovalRequest_decide T r d = Inr r' \<longleftrightarrow>
     ar_state r = AS_Pending \<and> ad_approval_id d = ar_id r
     \<and> \<not> ApprovalRequest_is_expired T r (ad_decided_at d)
     \<and> (\<forall>scope. ad_scope d = Some scope \<longrightarrow> scope = ar_effective_scope r \<or> scope = ExactCall)
     \<and> r' = r\<lparr>ar_state := (case ad_verdict d of
                VerdictGranted \<Rightarrow> AS_Granted | VerdictDenied \<Rightarrow> AS_Denied),
              ar_resolved_at := Some (ad_decided_at d),
              ar_effective_scope := (case ad_scope d of
                Some scope \<Rightarrow> scope | None \<Rightarrow> ar_effective_scope r),
              ar_decision := Some d\<rparr>"
  unfolding ApprovalRequest_decide_def if_Inl_Inr_iff ApprovalState_is_terminal_def
  by (cases "ad_scope d") auto

lemma resolve_Inr:
  "ApprovalRequest_resolve T r to at = Inr r' \<longleftrightarrow>
     ar_state r = AS_Pending \<and> to \<in> {AS_Expired, AS_Cancelled, AS_Superseded}
     \<and> r' = r\<lparr>ar_state := to, ar_resolved_at := Some (to_utc T at)\<rparr>"
  by (cases to) (auto simp: ApprovalRequest_resolve_def Let_def APPROVAL_TRANSITIONS_def)

lemma decide_ok:
  assumes "request_ok T r" "decision_built T d" "ApprovalRequest_decide T r d = Inr r'"
  shows "request_ok T r'"
  using assms decision_built_scope [OF assms(2)]
  by (cases "ad_scope d"; cases "ad_verdict d"; cases "pa_expires_at (ar_pending r)")
     (auto simp: decide_Inr request_ok_def Let_def stored_decision_ok_def
        ApprovalRequest_is_expired_def not_le)

lemma resolve_ok:
  "request_ok T r \<Longrightarrow> ApprovalRequest_resolve T r to at = Inr r' \<Longrightarrow> request_ok T r'"
  by (cases "ar_decision r")
     (auto simp: resolve_Inr request_ok_def Let_def stored_decision_ok_def
        split: approval_verdict.splits)

inductive request_reachable :: "'t time_ops \<Rightarrow> ('w, 't) approval_request \<Rightarrow> bool" for T where
  request_open: "ApprovalRequest_open_with_id i p = Inr r \<Longrightarrow> request_reachable T r"
| request_decide: "request_reachable T r \<Longrightarrow> decision_built T d \<Longrightarrow>
    ApprovalRequest_decide T r d = Inr r' \<Longrightarrow> request_reachable T r'"
| request_resolve: "request_reachable T r \<Longrightarrow> ApprovalRequest_resolve T r to at = Inr r' \<Longrightarrow>
    request_reachable T r'"
| request_redact: "request_reachable T r \<Longrightarrow>
    request_reachable T (ApprovalRequest_with_redacted_summary summary r)"

lemma request_reachable_ok: "request_reachable T r \<Longrightarrow> request_ok T r"
proof (induction rule: request_reachable.induct)
  case (request_redact r summary)
  then show ?case
    by (cases "ar_decision r")
       (auto simp: request_ok_def ApprovalRequest_with_redacted_summary_def Let_def
          stored_decision_ok_def)
qed (auto dest: open_Inr decide_ok resolve_ok)

lemma exact_scope:
  "request_ok T r \<Longrightarrow> remote_or_destructive (pa_risk (ar_pending r)) \<Longrightarrow>
   ar_effective_scope r = ExactCall"
  by (auto simp: request_ok_def Let_def ApprovalScope_ceiling_def remote_or_destructive_def
      split: risk_level.splits)

section \<open>A sample request\<close>

definition sample_request ::
  "risk_level \<Rightarrow> (int \<times> int) approval_error + (nat, int \<times> int) approval_request" where
  "sample_request risk =
     ApprovalRequest_open_with_id (ApprovalId 9)
       (PendingApproval_expiring_at offset_time (50, 0)
         (PendingApproval_requesting ToolForRun
           (PendingApproval_new offset_time (RunId 1) (ToolCallId 2)
             \<lparr>identity_id = ToolId ''fs.write'', identity_version = ToolVersion 1\<rparr>
             (InputHash (replicate 32 7)) (WorkspaceBinding_new None ''/work'') risk (5, 0))))"

definition sample_grant ::
  "risk_level \<Rightarrow> approval_scope \<Rightarrow> (int \<times> int) approval_error + (nat, int \<times> int) approval_request"
where
  "sample_grant risk scope =
     res_bind (sample_request risk) (\<lambda>r. ApprovalRequest_decide offset_time r
       (ApprovalDecision_grant offset_time (ApprovalId 9) scope ViaCli (20, 60)))"

lemma sample_grant_ok: "is_ok (sample_grant RemoteWrite ExactCall)" "is_ok (sample_grant WorkspaceWrite ToolForRun)"
  by code_simp+

lemma sample_grant_reachable: "sample_grant risk scope = Inr r \<Longrightarrow> request_reachable offset_time r"
  by (auto simp: sample_grant_def res_bind_Inr_iff sample_request_def
      intro: request_open request_decide built_grant)

lemma sample_grant_state: "sample_grant risk scope = Inr r \<Longrightarrow> ar_state r = AS_Granted"
  by (auto simp: sample_grant_def res_bind_Inr_iff decide_Inr ApprovalDecision_grant_def)

section \<open>Properties\<close>

text \<open>
  The lowercase hexadecimal spelling of an input hash parses back to the hash, and every
  spelling the parser accepts is the spelling of the hash it returns: one digest has one spelling.
\<close>

theorem input_hash_roundtrip:
  "(case (InputHash_parse v :: 't approval_error + input_hash) of
      Inr h \<Rightarrow> input_hash_ok h \<and> InputHash_to_hex h = v
    | Inl e \<Rightarrow> \<not> (\<exists>h. input_hash_ok h \<and> InputHash_to_hex h = v))"
proof (cases "InputHash_parse v :: 't approval_error + input_hash")
  case (Inl e)
  have "(InputHash_parse (InputHash_to_hex h) :: 't approval_error + input_hash) = Inr h"
    if "input_hash_ok h" for h
    using that parse_pairs_to_hex [of "hash_bytes h"]
    by (simp add: InputHash_parse_def length_to_hex input_hash_ok_def)
  with Inl show ?thesis
    by auto
next
  case (Inr h)
  then obtain bs where "length v = 64" "parse_pairs v = Some bs" "h = InputHash bs"
    by (auto simp: InputHash_parse_def split: if_splits option.splits)
  with Inr show ?thesis
    using parse_pairs_sound [of v bs] by (simp add: input_hash_ok_def)
qed

text \<open>
  C15: Every approval request that opening, deciding, expiring, cancelling, superseding and
  redacting can build passes the check the store runs on its row, and is rebuilt unchanged.
\<close>

theorem approval_request_roundtrip:
  assumes "request_reachable T r"
  shows "ApprovalRequest_from_stored T (ar_id r) (ar_pending r) (ar_effective_scope r) (ar_state r)
           (ar_resolved_at r) (ar_decision r) = Inr r"
  using request_reachable_ok [OF assms] by (simp add: from_stored_Inr)

theorem approval_request_roundtrip_witness:
  "\<exists>r. sample_grant RemoteWrite ExactCall = Inr r
     \<and> ApprovalRequest_from_stored offset_time (ar_id r) (ar_pending r) (ar_effective_scope r)
           (ar_state r) (ar_resolved_at r) (ar_decision r) = Inr r"
  using sample_grant_ok(1) approval_request_roundtrip [OF sample_grant_reachable]
  by (auto simp: is_ok_iff)

text \<open>
  C33: A row the store loads authorizes nothing a human did not allow: if it is granted, it carries
  a granting decision for this very request, made before the deadline, at exactly the scope the
  matcher will read; that scope is the requested one or the single call, and for a remote write or
  destructive request it is always the single call.
\<close>

theorem loaded_grant_was_decided:
  assumes "ApprovalRequest_from_stored T i p scope AS_Granted res decision = Inr r"
  shows "\<exists>d. decision = Some d \<and> ad_verdict d = VerdictGranted \<and> ad_approval_id d = i
           \<and> ad_scope d = Some (ar_effective_scope r)
           \<and> \<not> ApprovalRequest_is_expired T r (ad_decided_at d)
           \<and> ar_effective_scope r \<in> {pa_requested_scope p, ExactCall}
           \<and> (remote_or_destructive (pa_risk p) \<longrightarrow> ar_effective_scope r = ExactCall)"
proof -
  have r: "r = \<lparr>ar_id = i, ar_pending = p, ar_effective_scope = scope, ar_state = AS_Granted,
      ar_resolved_at = res, ar_decision = decision\<rparr>" and ok: "request_ok T r"
    using assms unfolding from_stored_Inr by blast+
  then obtain d where d: "decision = Some d"
    by (cases decision) (auto simp: request_ok_def Let_def stored_decision_ok_def)
  with r ok have "ad_verdict d = VerdictGranted" "ad_approval_id d = i" "ad_scope d = Some scope"
    "pred_option (\<lambda>at. instant T (ad_decided_at d) < instant T at) (pa_expires_at p)"
    by (auto simp: request_ok_def Let_def stored_decision_ok_def split: approval_verdict.splits)
  moreover have "scope \<in> {pa_requested_scope p, ExactCall}"
    using ok r by (auto simp: request_ok_def Let_def ApprovalScope_ceiling_def split: if_splits)
  ultimately show ?thesis
    using d exact_scope [OF ok] r
    by (cases "pa_expires_at p") (auto simp: ApprovalRequest_is_expired_def)
qed

theorem loaded_grant_was_decided_witness:
  "\<exists>r. sample_grant RemoteWrite ExactCall = Inr r \<and> ar_effective_scope r = ExactCall
     \<and> (\<exists>d. ar_decision r = Some d \<and> ad_verdict d = VerdictGranted)"
proof -
  obtain r where r: "sample_grant RemoteWrite ExactCall = Inr r"
    using sample_grant_ok(1) by (auto simp: is_ok_iff)
  have "ApprovalRequest_from_stored offset_time (ar_id r) (ar_pending r) (ar_effective_scope r)
      AS_Granted (ar_resolved_at r) (ar_decision r) = Inr r"
    using request_reachable_ok [OF sample_grant_reachable [OF r]] sample_grant_state [OF r]
    by (simp add: from_stored_Inr)
  moreover have "remote_or_destructive (pa_risk (ar_pending r))"
    using r by (auto simp: sample_grant_def res_bind_Inr_iff decide_Inr sample_request_def
        ApprovalRequest_open_with_id_def PendingApproval_expiring_at_def
        PendingApproval_requesting_def PendingApproval_new_def remote_or_destructive_def Let_def
        split: if_splits sum.splits)
  ultimately show ?thesis
    using loaded_grant_was_decided r by blast
qed

text \<open>
  A resolved request can never become anything else: deciding it reports the state it was
  resolved into, and every other resolution is an invalid transition. No resolution reaches
  granted or denied without a decision.
\<close>

theorem resolved_request_is_final:
  assumes "ar_state r \<noteq> AS_Pending"
  shows "ApprovalRequest_decide T r d = Inl (AlreadyResolved (ar_id r) (ar_state r))
    \<and> ApprovalRequest_resolve T r to at = Inl (InvalidTransition (ar_id r) (ar_state r) to)
    \<and> ApprovalRequest_resolve T s AS_Granted at = Inl (InvalidTransition (ar_id s) (ar_state s) AS_Granted)
    \<and> ApprovalRequest_resolve T s AS_Denied at = Inl (InvalidTransition (ar_id s) (ar_state s) AS_Denied)"
  using assms
  by (auto simp: ApprovalRequest_decide_def ApprovalState_is_terminal_def
      ApprovalRequest_resolve_def Let_def APPROVAL_TRANSITIONS_def)

theorem resolved_request_is_final_witness:
  "\<exists>r. sample_grant WorkspaceWrite ToolForRun = Inr r
     \<and> ApprovalRequest_resolve offset_time r AS_Cancelled (30, 0)
       = Inl (InvalidTransition (ar_id r) AS_Granted AS_Cancelled)"
proof -
  obtain r where r: "sample_grant WorkspaceWrite ToolForRun = Inr r"
    using sample_grant_ok(2) by (auto simp: is_ok_iff)
  then have "ar_state r \<noteq> AS_Pending"
    using sample_grant_state by simp
  from resolved_request_is_final [OF this, of offset_time undefined AS_Cancelled "(30, 0)" r]
  show ?thesis
    using r sample_grant_state [OF r] by simp
qed

text \<open>
  For a pending request inside its deadline, the scopes a surface is offered are exactly the
  scopes a grant is accepted at.
\<close>

theorem grantable_scopes_are_the_accepted_ones:
  assumes "ar_state r = AS_Pending"
    and "\<not> ApprovalRequest_is_expired T r (to_utc T at)"
  shows "scope \<in> set (ApprovalRequest_grantable_scopes r) \<longleftrightarrow>
    is_ok (ApprovalRequest_decide T r (ApprovalDecision_grant T (ar_id r) scope via at))"
  using assms
  by (auto simp: ApprovalRequest_grantable_scopes_def is_ok_iff decide_Inr
      ApprovalDecision_grant_def)

theorem grantable_scopes_are_the_accepted_ones_witness:
  "\<exists>r. (sample_request WorkspaceWrite :: _ + (nat, _) approval_request) = Inr r
     \<and> is_ok (ApprovalRequest_decide offset_time r
          (ApprovalDecision_grant offset_time (ar_id r) ToolForRun ViaGui (20, 0)))"
proof -
  obtain r where r: "sample_request WorkspaceWrite = Inr r" "ar_state r = AS_Pending"
    "\<not> ApprovalRequest_is_expired offset_time r (to_utc offset_time (20, 0))"
    "ToolForRun \<in> set (ApprovalRequest_grantable_scopes r)"
  proof -
    have "case sample_request WorkspaceWrite of Inr r \<Rightarrow> ar_state r = AS_Pending
        \<and> \<not> ApprovalRequest_is_expired offset_time r (to_utc offset_time (20, 0))
        \<and> list_ex (\<lambda>s. s = ToolForRun) (ApprovalRequest_grantable_scopes r) | Inl e \<Rightarrow> False"
      by code_simp
    then show thesis
      using that by (auto simp: list_ex_iff split: sum.splits)
  qed
  then show ?thesis
    using grantable_scopes_are_the_accepted_ones [OF r(2,3)] by blast
qed

end
