(* ===== verification/Rust_Text.thy ===== *)
theory Rust_Text
  imports Prelude
begin

text \<open>
  The part of Rust's \<open>str\<close> the modelled code relies on: UTF-8 validation, white space at the ends of
  a text, control characters and character boundaries, on the list of the bytes of a text.
\<close>

section \<open>UTF-8\<close>

text \<open>
  \<open>str::from_utf8\<close> reads one character after the other. At a character it finds it whole, cut off by
  the end of the bytes (\<open>error_len () = None\<close>), or finds bytes that start no character.
\<close>

datatype utf8_step = Utf8_character nat | Utf8_incomplete | Utf8_bad

definition continuation_byte :: "nat \<Rightarrow> bool" where
  "continuation_byte b \<longleftrightarrow> 128 \<le> b \<and> b \<le> 191"

text \<open>The second byte of a character of three or four bytes, by the first.\<close>

definition second_byte :: "nat \<Rightarrow> nat \<Rightarrow> bool" where
  "second_byte a b \<longleftrightarrow>
     continuation_byte b \<and> (a = 224 \<longrightarrow> 160 \<le> b) \<and> (a = 237 \<longrightarrow> b \<le> 159)
     \<and> (a = 240 \<longrightarrow> 144 \<le> b) \<and> (a = 244 \<longrightarrow> b \<le> 143)"

definition utf8_next :: "nat list \<Rightarrow> utf8_step" where
  "utf8_next bs =
     (case bs of
        [] \<Rightarrow> Utf8_incomplete
      | a # r \<Rightarrow>
          if a < 128 then Utf8_character 1
          else if 194 \<le> a \<and> a \<le> 223 then
            (case r of
               [] \<Rightarrow> Utf8_incomplete
             | b # _ \<Rightarrow> if continuation_byte b then Utf8_character 2 else Utf8_bad)
          else if 224 \<le> a \<and> a \<le> 239 then
            (case r of
               [] \<Rightarrow> Utf8_incomplete
             | [b] \<Rightarrow> if second_byte a b then Utf8_incomplete else Utf8_bad
             | b # c # _ \<Rightarrow>
                 if second_byte a b \<and> continuation_byte c then Utf8_character 3 else Utf8_bad)
          else if 240 \<le> a \<and> a \<le> 244 then
            (case r of
               [] \<Rightarrow> Utf8_incomplete
             | [b] \<Rightarrow> if second_byte a b then Utf8_incomplete else Utf8_bad
             | [b, c] \<Rightarrow>
                 if second_byte a b \<and> continuation_byte c then Utf8_incomplete else Utf8_bad
             | b # c # d # _ \<Rightarrow>
                 if second_byte a b \<and> continuation_byte c \<and> continuation_byte d
                 then Utf8_character 4 else Utf8_bad)
          else Utf8_bad)"

lemma utf8_next_append:
  "utf8_next xs = Utf8_character n \<Longrightarrow> utf8_next (xs @ ys) = Utf8_character n"
  "utf8_next xs = Utf8_bad \<Longrightarrow> utf8_next (xs @ ys) = Utf8_bad"
  by (auto simp: utf8_next_def split: list.splits if_splits)

lemma utf8_next_take: "utf8_next xs = Utf8_character n \<Longrightarrow> utf8_next (take n xs) = Utf8_character n"
  by (auto simp: utf8_next_def split: list.splits if_splits)

lemma utf8_next_bounds:
  "utf8_next xs = Utf8_character n \<Longrightarrow> 0 < n \<and> n \<le> length xs"
  "utf8_next xs = Utf8_incomplete \<Longrightarrow> length xs \<le> 3"
  by (auto simp: utf8_next_def split: list.splits if_splits)

text \<open>How far the bytes are text (\<open>valid_up_to\<close>), and what follows there.\<close>

datatype utf8_end = Utf8_whole | Utf8_cut | Utf8_broken

function utf8_scan :: "nat list \<Rightarrow> nat \<times> utf8_end" where
  "utf8_scan bs =
     (if bs = [] then (0, Utf8_whole)
      else case utf8_next bs of
          Utf8_character n \<Rightarrow> (let (k, e) = utf8_scan (drop n bs) in (n + k, e))
        | Utf8_incomplete \<Rightarrow> (0, Utf8_cut)
        | Utf8_bad \<Rightarrow> (0, Utf8_broken))"
  by pat_completeness auto
termination
  by (relation "measure length") (auto dest: utf8_next_bounds)

declare utf8_scan.simps [simp del]

definition from_utf8 :: "string \<Rightarrow> nat \<times> utf8_end" where
  "from_utf8 s = utf8_scan (map of_char s)"

definition is_utf8 :: "string \<Rightarrow> bool" where
  "is_utf8 s \<longleftrightarrow> snd (from_utf8 s) = Utf8_whole"

lemma utf8_scan_Nil [simp]: "utf8_scan [] = (0, Utf8_whole)"
  by (simp add: utf8_scan.simps)

lemma utf8_scan_step:
  "utf8_next bs = Utf8_character n \<Longrightarrow> utf8_scan bs = (let (k, e) = utf8_scan (drop n bs) in (n + k, e))"
  by (cases "bs = []") (simp_all add: utf8_next_def utf8_scan.simps [of bs])

lemma utf8_scan_cases:
  "utf8_scan bs = (k, e) \<Longrightarrow>
     k \<le> length bs \<and> (e = Utf8_whole \<longleftrightarrow> k = length bs) \<and> utf8_scan (take k bs) = (k, Utf8_whole)
     \<and> (e = Utf8_cut \<longrightarrow> length bs \<le> k + 3)"
proof (induction bs arbitrary: k e rule: utf8_scan.induct)
  case (1 bs)
  show ?case
  proof (cases "bs = []")
    case True
    with 1(2) show ?thesis
      by (simp add: utf8_scan.simps)
  next
    case False
    show ?thesis
    proof (cases "utf8_next bs")
      case (Utf8_character n)
      obtain j f where jf: "utf8_scan (drop n bs) = (j, f)"
        by fastforce
      with 1(2) False Utf8_character have k: "k = n + j" "e = f"
        by (simp_all add: utf8_scan.simps [of bs])
      have n: "0 < n" "n \<le> length bs"
        using utf8_next_bounds [of bs] Utf8_character by auto
      from 1(1) [OF False Utf8_character jf]
      have ih: "j \<le> length (drop n bs)" "f = Utf8_whole \<longleftrightarrow> j = length (drop n bs)"
        "utf8_scan (take j (drop n bs)) = (j, Utf8_whole)"
        "f = Utf8_cut \<longrightarrow> length (drop n bs) \<le> j + 3"
        by auto
      have "take k bs = take n bs @ take j (drop n bs)"
        by (simp add: k take_add)
      moreover have "utf8_next (take n bs @ take j (drop n bs)) = Utf8_character n"
        using Utf8_character by (intro utf8_next_append utf8_next_take)
      ultimately have "utf8_scan (take k bs) = (k, Utf8_whole)"
        using n ih(3) k by (simp add: utf8_scan_step)
      with ih k n show ?thesis
        by auto
    qed (use 1(2) False in \<open>auto simp: utf8_scan.simps [of bs] dest: utf8_next_bounds\<close>)
  qed
qed

lemma utf8_scan_append:
  "utf8_scan xs = (k, e) \<Longrightarrow> e \<noteq> Utf8_broken \<Longrightarrow>
     utf8_scan (xs @ ys) = (let (j, f) = utf8_scan (drop k xs @ ys) in (k + j, f))"
  "utf8_scan xs = (k, Utf8_broken) \<Longrightarrow> utf8_scan (xs @ ys) = (k, Utf8_broken)"
proof (induction xs arbitrary: k e rule: utf8_scan.induct)
  case (1 bs)
  have next_step: "utf8_scan (bs @ ys) = (let (i, g) = utf8_scan (drop n bs @ ys) in (n + i, g))"
    "utf8_scan bs = (let (i, g) = utf8_scan (drop n bs) in (n + i, g))"
    if "bs \<noteq> []" "utf8_next bs = Utf8_character n" for n
    using that utf8_next_append(1) [OF that(2), of ys] utf8_next_bounds(1) [OF that(2)]
    by (simp_all add: utf8_scan.simps [of "bs @ ys"] utf8_scan.simps [of bs])
  {
    case 1
    show ?case
    proof (cases "bs = []")
      case False
      show ?thesis
      proof (cases "utf8_next bs")
        case (Utf8_character n)
        obtain j f where jf: "utf8_scan (drop n bs) = (j, f)"
          by fastforce
        with 1(1) next_step(2) [OF False Utf8_character] have k: "k = n + j" "e = f"
          by simp_all
        with "1.IH"(1) [OF False Utf8_character jf] 1(2) next_step(1) [OF False Utf8_character]
        show ?thesis
          by (simp add: add.commute split: prod.splits)
      qed (use 1 False in \<open>auto simp: utf8_scan.simps [of bs] split: prod.splits\<close>)
    qed (use 1 in \<open>auto split: prod.splits\<close>)
  next
    case 2
    then have ne: "bs \<noteq> []"
      by auto
    show ?case
    proof (cases "utf8_next bs")
      case (Utf8_character n)
      obtain j f where jf: "utf8_scan (drop n bs) = (j, f)"
        by fastforce
      with 2 next_step(2) [OF ne Utf8_character] have k: "k = n + j" "f = Utf8_broken"
        by simp_all
      with "1.IH"(2) [OF ne Utf8_character] jf next_step(1) [OF ne Utf8_character] show ?thesis
        by simp
    next
      case Utf8_bad
      with 2 ne utf8_next_append(2) [OF Utf8_bad, of ys] show ?thesis
        by (simp add: utf8_scan.simps [of bs] utf8_scan.simps [of "bs @ ys"])
    qed (use 2 ne in \<open>auto simp: utf8_scan.simps [of bs]\<close>)
  }
qed

section \<open>White space and control characters\<close>

text \<open>\<open>value.trim() != value\<close>: the first or the last character is white space.\<close>

fun leading_white :: "nat list \<Rightarrow> bool" where
  "leading_white [] = False"
| "leading_white [a] = white_space_1 a"
| "leading_white [a, b] = (white_space_1 a \<or> white_space_2 a b)"
| "leading_white (a # b # c # r) = (white_space_1 a \<or> white_space_2 a b \<or> white_space_3 a b c)"

fun trailing_white :: "nat list \<Rightarrow> bool" where
  "trailing_white [] = False"
| "trailing_white [c] = white_space_1 c"
| "trailing_white [b, c] = (white_space_1 c \<or> white_space_2 b c)"
| "trailing_white [a, b, c] = (white_space_1 c \<or> white_space_2 b c \<or> white_space_3 a b c)"
| "trailing_white (a # b # c # d # r) = trailing_white (b # c # d # r)"

text \<open>\<open>char::is_control\<close>: U+0000 to U+001F, U+007F, and U+0080 to U+009F in two bytes.\<close>

fun any_control :: "nat list \<Rightarrow> bool" where
  "any_control [] = False"
| "any_control (a # r) =
     (a < 32 \<or> a = 127 \<or> (a = 194 \<and> (case r of [] \<Rightarrow> False | b # _ \<Rightarrow> 128 \<le> b \<and> b \<le> 159))
      \<or> any_control r)"

definition pads_white :: "string \<Rightarrow> bool" where
  "pads_white v \<longleftrightarrow> leading_white (map of_char v) \<or> trailing_white (map of_char v)"

definition holds_control :: "string \<Rightarrow> bool" where
  "holds_control v \<longleftrightarrow> any_control (map of_char v)"

section \<open>Character boundaries\<close>

text \<open>\<open>str::is_char_boundary\<close>: the ends, and every byte that continues no character.\<close>

definition is_char_boundary :: "string \<Rightarrow> nat \<Rightarrow> bool" where
  "is_char_boundary s i \<longleftrightarrow>
     i = 0 \<or> i = length s \<or> i < length s \<and> \<not> continuation_byte (of_char (s ! i))"

lemma inside_character:
  assumes "utf8_next bs = Utf8_character n" "0 < i" "i < n"
  shows "continuation_byte (bs ! i)"
proof -
  have "n \<le> 4"
    using assms(1) by (auto simp: utf8_next_def split: list.splits if_splits)
  with assms(2,3) consider "i = 1" "1 < n" | "i = 2" "2 < n" | "i = 3" "3 < n"
    by linarith
  then show ?thesis
    by cases
       (use assms(1) in \<open>auto simp: utf8_next_def second_byte_def nth_Cons' split: list.splits if_splits\<close>)
qed

lemma scan_boundary:
  "utf8_scan bs = (length bs, Utf8_whole) \<Longrightarrow> i < length bs \<Longrightarrow> \<not> continuation_byte (bs ! i) \<Longrightarrow>
     utf8_scan (take i bs) = (i, Utf8_whole)"
proof (induction bs arbitrary: i rule: utf8_scan.induct)
  case (1 bs)
  then have ne: "bs \<noteq> []"
    by auto
  show ?case
  proof (cases "i = 0")
    case False
    from 1(2) ne obtain n where n: "utf8_next bs = Utf8_character n"
      by (auto simp: utf8_scan.simps [of bs] split: utf8_step.splits)
    have inside: "n \<le> i"
      using inside_character [OF n, of i] False 1(4) by linarith
    obtain j f where jf: "utf8_scan (drop n bs) = (j, f)"
      by fastforce
    with 1(2) ne n have whole: "utf8_scan (drop n bs) = (length (drop n bs), Utf8_whole)"
      using utf8_scan_cases [OF jf] by (auto simp: utf8_scan.simps [of bs])
    have "utf8_scan (take (i - n) (drop n bs)) = (i - n, Utf8_whole)"
      using 1(3,4) inside utf8_next_bounds(1) [OF n]
      by (intro 1(1) [OF ne n whole]) auto
    moreover have "take i bs = take n bs @ take (i - n) (drop n bs)"
      using inside by (simp flip: take_add)
    moreover have "utf8_next (take n bs @ take (i - n) (drop n bs)) = Utf8_character n"
      using n by (intro utf8_next_append utf8_next_take)
    ultimately show ?thesis
      using inside utf8_next_bounds(1) [OF n] ne
      by (simp add: utf8_scan_step)
  qed simp
qed

lemma whole_length: "utf8_scan bs = (k, Utf8_whole) \<Longrightarrow> k = length bs"
  using utf8_scan_cases by blast

lemma is_utf8_iff: "is_utf8 s \<longleftrightarrow> utf8_scan (map of_char s) = (length s, Utf8_whole)"
  using whole_length [of "map of_char s"]
  by (cases "utf8_scan (map of_char s)") (auto simp: is_utf8_def from_utf8_def)

lemma is_utf8_take_boundary: "is_utf8 s \<Longrightarrow> is_char_boundary s i \<Longrightarrow> is_utf8 (take i s)"
  using scan_boundary [of "map of_char s" i]
  by (auto simp: is_utf8_iff is_char_boundary_def take_map)

lemma is_utf8_append: "is_utf8 s \<Longrightarrow> is_utf8 t \<Longrightarrow> is_utf8 (s @ t)"
  using utf8_scan_append(1) [of "map of_char s" "length s" Utf8_whole "map of_char t"]
  by (simp add: is_utf8_iff)

lemma is_utf8_Nil [simp]: "is_utf8 []"
  by (simp add: is_utf8_iff)

end
