(* ===== verification/Integration_Identity.thy ===== *)
theory Integration_Identity
  imports External_Policy Approval_Lifecycle Path_Boundary Rust_Text
begin

text \<open>
  The identity of an external subject: an agent's executable, an MCP server or one of its tools, a
  recipe, a forge account or repository, a workspace.

  Source: \<open>harkness-runtime/src/integration/subject.rs\<close> and \<open>integration/error.rs\<close>. A \<open>PathBuf\<close> is the
  list of its bytes; it is compared by its components (\<open>parse_path\<close>). Paths are read the way Unix
  reads them. The hasher of the \<open>sha2\<close> crate is an argument. The JSON form of an identity is the
  record of its fields, an absent field being \<open>None\<close>, in the order this build writes them.
\<close>

section \<open>Subjects and errors\<close>

datatype subject_kind =
    SK_AgentExecutable | SK_McpServer | SK_McpToolSchema | SK_Recipe | SK_ForgeAccount
  | SK_ForgeRepository | SK_Workspace

definition SubjectKind_ALL :: "subject_kind list" where
  "SubjectKind_ALL =
     [SK_AgentExecutable, SK_McpServer, SK_McpToolSchema, SK_Recipe, SK_ForgeAccount,
      SK_ForgeRepository, SK_Workspace]"

primrec SubjectKind_as_str :: "subject_kind \<Rightarrow> string" where
  "SubjectKind_as_str SK_AgentExecutable = ''agent_executable''"
| "SubjectKind_as_str SK_McpServer = ''mcp_server''"
| "SubjectKind_as_str SK_McpToolSchema = ''mcp_tool_schema''"
| "SubjectKind_as_str SK_Recipe = ''recipe''"
| "SubjectKind_as_str SK_ForgeAccount = ''forge_account''"
| "SubjectKind_as_str SK_ForgeRepository = ''forge_repository''"
| "SubjectKind_as_str SK_Workspace = ''workspace''"

definition SubjectKind_from_stored :: "string \<Rightarrow> subject_kind option" where
  "SubjectKind_from_stored = find_spelling SubjectKind_ALL SubjectKind_as_str"

datatype configuration_source = CS_Builtin | CS_User | CS_Repository | CS_Imported

definition ConfigurationSource_ALL :: "configuration_source list" where
  "ConfigurationSource_ALL = [CS_Builtin, CS_User, CS_Repository, CS_Imported]"

primrec ConfigurationSource_as_str :: "configuration_source \<Rightarrow> string" where
  "ConfigurationSource_as_str CS_Builtin = ''builtin''"
| "ConfigurationSource_as_str CS_User = ''user''"
| "ConfigurationSource_as_str CS_Repository = ''repository''"
| "ConfigurationSource_as_str CS_Imported = ''imported''"

definition ConfigurationSource_from_stored :: "string \<Rightarrow> configuration_source option" where
  "ConfigurationSource_from_stored =
     find_spelling ConfigurationSource_ALL ConfigurationSource_as_str"

text \<open>The state of a trust grant (\<open>integration/state.rs\<close>); \<open>trust.rs\<close> has a type of the same name.\<close>

datatype trust_grant_state = IT_Untrusted | IT_Trusted | IT_Revoked | IT_Invalidated

datatype integration_domain_error =
    InvalidTrustTransition trust_grant_state trust_grant_state
  | IntegrationSchemaTooOld string u32 u32
  | IntegrationSchemaTooNew string u32 u32
  | MalformedDigest string string
  | InvalidIdentity string string
  | MissingIdentityEvidence subject_kind string
  | InvalidIntegrationRecord string string
  | InvalidIntegrationTimestamp string string string

primrec IntegrationDomainError_kind :: "integration_domain_error \<Rightarrow> string" where
  "IntegrationDomainError_kind (InvalidTrustTransition f t) = ''invalid_trust_transition''"
| "IntegrationDomainError_kind (IntegrationSchemaTooOld r f m) = ''integration_schema_version_too_old''"
| "IntegrationDomainError_kind (IntegrationSchemaTooNew r f m) = ''integration_schema_version_too_new''"
| "IntegrationDomainError_kind (MalformedDigest v r) = ''malformed_digest''"
| "IntegrationDomainError_kind (InvalidIdentity f r) = ''invalid_identity''"
| "IntegrationDomainError_kind (MissingIdentityEvidence k r) = ''missing_identity_evidence''"
| "IntegrationDomainError_kind (InvalidIntegrationRecord c r) = ''invalid_integration_record''"
| "IntegrationDomainError_kind (InvalidIntegrationTimestamp c f r) = ''invalid_integration_timestamp''"

definition IntegrationDomainError_KINDS :: "string list" where
  "IntegrationDomainError_KINDS =
     [''invalid_trust_transition'', ''integration_schema_version_too_old'',
      ''integration_schema_version_too_new'', ''malformed_digest'', ''invalid_identity'',
      ''missing_identity_evidence'', ''invalid_integration_record'',
      ''invalid_integration_timestamp'']"

section \<open>Text\<close>

definition MAX_IDENTITY_FIELD_LENGTH :: nat where "MAX_IDENTITY_FIELD_LENGTH = 512"

definition MAX_EXECUTABLE_PATH_LENGTH :: nat where "MAX_EXECUTABLE_PATH_LENGTH = 4096"

definition MAX_CAPABILITIES :: nat where "MAX_CAPABILITIES = 64"

definition validate_text :: "string \<Rightarrow> string \<Rightarrow> integration_domain_error + unit" where
  "validate_text field v =
     (if v = [] then Inl (InvalidIdentity field ''it cannot be empty'')
      else if MAX_IDENTITY_FIELD_LENGTH < length v
        then Inl (InvalidIdentity field ''it is longer than the maximum identity field length'')
      else if pads_white v
        then Inl (InvalidIdentity field ''it cannot begin or end with whitespace'')
      else if holds_control v
        then Inl (InvalidIdentity field ''it cannot carry a control character'')
      else Inr ())"

definition is_rooted_anywhere :: "string \<Rightarrow> bool" where
  "is_rooted_anywhere p =
     (if is_absolute (parse_path p) then True
      else if \<not> is_utf8 p then False
      else take 2 p = [CHR 0x5C, CHR 0x5C]
        \<or> 3 \<le> length p
          \<and> (let a = of_char (p ! 0) :: nat in 65 \<le> a \<and> a \<le> 90 \<or> 97 \<le> a \<and> a \<le> 122)
          \<and> p ! 1 = CHR '':'' \<and> (p ! 2 = CHR ''/'' \<or> p ! 2 = CHR 0x5C))"

section \<open>Digests\<close>

primrec sha256_bytes :: "sha256_hash \<Rightarrow> 8 word list" where
  "sha256_bytes (Sha256Hash bs) = bs"

text \<open>The digest of \<open>[u8; 32]\<close>.\<close>

definition sha256_ok :: "sha256_hash \<Rightarrow> bool" where
  "sha256_ok h \<longleftrightarrow> length (sha256_bytes h) = 32"

definition Sha256Hash_to_hex :: "sha256_hash \<Rightarrow> string" where
  "Sha256Hash_to_hex h =
     concat (map (\<lambda>b. [hex_digit (drop_bit 4 b), hex_digit (take_bit 4 b)]) (sha256_bytes h))"

definition Sha256Hash_parse :: "string \<Rightarrow> integration_domain_error + sha256_hash" where
  "Sha256Hash_parse v =
     (if length v \<noteq> 64
      then Inl (MalformedDigest v ''it is not 64 hexadecimal characters long'')
      else case parse_pairs v of
          None \<Rightarrow> Inl (MalformedDigest v ''it is not spelled in lowercase hexadecimal'')
        | Some bs \<Rightarrow> Inr (Sha256Hash bs))"

text \<open>
  \<open>Sha256\<close> of the \<open>sha2\<close> crate: a state, fed piece by piece. A reader is the list of what its reads
  answer, each at most the 64 KiB of the buffer; past the end of the list a read answers no byte.
\<close>

record 'h sha_ops =
  sha_new :: 'h
  sha_update :: "'h \<Rightarrow> 8 word list \<Rightarrow> 'h"
  sha_finalize :: "'h \<Rightarrow> 8 word list"

definition Sha256Hash_of :: "'h sha_ops \<Rightarrow> 8 word list \<Rightarrow> sha256_hash" where
  "Sha256Hash_of H bytes = Sha256Hash (sha_finalize H (sha_update H (sha_new H) bytes))"

fun of_reader_loop :: "'h sha_ops \<Rightarrow> 'h \<Rightarrow> ('e + 8 word list) list \<Rightarrow> 'e + sha256_hash" where
  "of_reader_loop H h [] = Inr (Sha256Hash (sha_finalize H h))"
| "of_reader_loop H h (Inl e # reads) = Inl e"
| "of_reader_loop H h (Inr bytes # reads) =
     (if bytes = [] then Inr (Sha256Hash (sha_finalize H h))
      else of_reader_loop H (sha_update H h bytes) reads)"

definition Sha256Hash_of_reader :: "'h sha_ops \<Rightarrow> ('e + 8 word list) list \<Rightarrow> 'e + sha256_hash" where
  "Sha256Hash_of_reader H reads = of_reader_loop H (sha_new H) reads"

section \<open>Executables and endpoints\<close>

record executable_identity =
  exe_path :: string
  exe_sha256 :: sha256_hash

definition ExecutableIdentity_new ::
  "string \<Rightarrow> sha256_hash \<Rightarrow> integration_domain_error + executable_identity" where
  "ExecutableIdentity_new p sha =
     (if p = [] then Inl (InvalidIdentity ''executable.path'' ''it cannot be empty'')
      else if \<not> is_rooted_anywhere p
        then Inl (InvalidIdentity ''executable.path'' ''it must start from a filesystem root'')
      else if MAX_EXECUTABLE_PATH_LENGTH < length p
        then Inl (InvalidIdentity ''executable.path''
          ''it is longer than the maximum executable path length'')
      else Inr \<lparr>exe_path = p, exe_sha256 = sha\<rparr>)"

record endpoint_identity =
  ep_host :: string
  ep_resource :: "string option"

definition ascii_lower :: "nat \<Rightarrow> nat" where
  "ascii_lower a = (if 65 \<le> a \<and> a \<le> 90 then a + 32 else a)"

definition to_ascii_lowercase :: "string \<Rightarrow> string" where
  "to_ascii_lowercase s = map (\<lambda>c. char_of (ascii_lower (of_char c))) s"

definition EndpointIdentity_new ::
  "string \<Rightarrow> string option \<Rightarrow> integration_domain_error + endpoint_identity" where
  "EndpointIdentity_new host resource =
     res_bind (validate_text ''endpoint.host'' host) (\<lambda>_.
     res_bind (case resource of
         None \<Rightarrow> Inr ()
       | Some text \<Rightarrow> validate_text ''endpoint.resource'' text) (\<lambda>_.
     Inr \<lparr>ep_host = to_ascii_lowercase host, ep_resource = resource\<rparr>))"

section \<open>The identity basis\<close>

record identity_basis =
  ib_display_name :: string
  ib_subject_version :: "string option"
  ib_protocol_version :: "string option"
  ib_executable :: "executable_identity option"
  ib_endpoint :: "endpoint_identity option"
  ib_schema_fingerprint :: "sha256_hash option"
  ib_content_hash :: "sha256_hash option"
  ib_capabilities :: "string list"
  ib_configuration_source :: configuration_source

text \<open>The capabilities are a \<open>BTreeSet\<close>: the ascending list of its elements.\<close>

definition IdentityBasis_new ::
  "string \<Rightarrow> configuration_source \<Rightarrow> integration_domain_error + identity_basis" where
  "IdentityBasis_new display_name source =
     res_bind (validate_text ''display_name'' display_name) (\<lambda>_.
     Inr \<lparr>ib_display_name = display_name, ib_subject_version = None, ib_protocol_version = None,
          ib_executable = None, ib_endpoint = None, ib_schema_fingerprint = None,
          ib_content_hash = None, ib_capabilities = [], ib_configuration_source = source\<rparr>)"

definition versioned :: "string \<Rightarrow> identity_basis \<Rightarrow> integration_domain_error + identity_basis" where
  "versioned v b =
     res_bind (validate_text ''subject_version'' v) (\<lambda>_. Inr (b\<lparr>ib_subject_version := Some v\<rparr>))"

definition speaking :: "string \<Rightarrow> identity_basis \<Rightarrow> integration_domain_error + identity_basis" where
  "speaking p b =
     res_bind (validate_text ''protocol_version'' p) (\<lambda>_. Inr (b\<lparr>ib_protocol_version := Some p\<rparr>))"

definition launched_from :: "executable_identity \<Rightarrow> identity_basis \<Rightarrow> identity_basis" where
  "launched_from e b = b\<lparr>ib_executable := Some e\<rparr>"

definition reached_at :: "endpoint_identity \<Rightarrow> identity_basis \<Rightarrow> identity_basis" where
  "reached_at e b = b\<lparr>ib_endpoint := Some e\<rparr>"

definition fingerprinted :: "sha256_hash \<Rightarrow> identity_basis \<Rightarrow> identity_basis" where
  "fingerprinted h b = b\<lparr>ib_schema_fingerprint := Some h\<rparr>"

definition hashing :: "sha256_hash \<Rightarrow> identity_basis \<Rightarrow> identity_basis" where
  "hashing h b = b\<lparr>ib_content_hash := Some h\<rparr>"

text \<open>The loop of \<open>declaring\<close>, which \<open>deserialize_bounded_capabilities\<close> repeats over the sequence.\<close>

fun declare_each :: "string list \<Rightarrow> string list \<Rightarrow> integration_domain_error + string list" where
  "declare_each declared [] = Inr declared"
| "declare_each declared (c # cs) =
     res_bind (validate_text ''capabilities'' c) (\<lambda>_.
       let declared = insort_insert c declared
       in if MAX_CAPABILITIES < length declared
          then Inl (InvalidIdentity ''capabilities''
            ''more capabilities are declared than an identity may carry'')
          else declare_each declared cs)"

definition declaring :: "string list \<Rightarrow> identity_basis \<Rightarrow> integration_domain_error + identity_basis" where
  "declaring capabilities b =
     res_bind (declare_each [] capabilities) (\<lambda>declared. Inr (b\<lparr>ib_capabilities := declared\<rparr>))"

definition declares_capability :: "identity_basis \<Rightarrow> string \<Rightarrow> bool" where
  "declares_capability b c \<longleftrightarrow> c \<in> set (ib_capabilities b)"

section \<open>The stored form of an identity\<close>

text \<open>
  A decoding fails with an error of the domain, for a spelling no variant has, or (on the way out)
  for a path that is not UTF-8.
\<close>

datatype serde_error =
    De_custom integration_domain_error
  | De_unknown_variant string
  | De_not_rfc3339 string
  | Ser_path_not_utf8
  | Ser_not_rfc3339

definition custom :: "integration_domain_error + 'a \<Rightarrow> serde_error + 'a" where
  "custom r = (case r of Inl e \<Rightarrow> Inl (De_custom e) | Inr x \<Rightarrow> Inr x)"

definition variant :: "'a option \<Rightarrow> string \<Rightarrow> serde_error + 'a" where
  "variant k spelling = (case k of None \<Rightarrow> Inl (De_unknown_variant spelling) | Some x \<Rightarrow> Inr x)"

definition optional :: "('a \<Rightarrow> 'e + 'b) \<Rightarrow> 'a option \<Rightarrow> 'e + 'b option" where
  "optional f v = (case v of None \<Rightarrow> Inr None | Some x \<Rightarrow> res_bind (f x) (\<lambda>y. Inr (Some y)))"

definition serialize_path :: "string \<Rightarrow> serde_error + string" where
  "serialize_path p = (if is_utf8 p then Inr p else Inl Ser_path_not_utf8)"

record executable_json =
  xj_path :: string
  xj_sha256 :: string

record endpoint_json =
  pj_host :: string
  pj_resource :: "string option"

record identity_json =
  ij_display_name :: string
  ij_subject_version :: "string option"
  ij_protocol_version :: "string option"
  ij_executable :: "executable_json option"
  ij_endpoint :: "endpoint_json option"
  ij_schema_fingerprint :: "string option"
  ij_content_hash :: "string option"
  ij_capabilities :: "string list"
  ij_configuration_source :: string

definition ExecutableIdentity_serialize :: "executable_identity \<Rightarrow> serde_error + executable_json" where
  "ExecutableIdentity_serialize e =
     res_bind (serialize_path (exe_path e)) (\<lambda>p.
     Inr \<lparr>xj_path = p, xj_sha256 = Sha256Hash_to_hex (exe_sha256 e)\<rparr>)"

definition EndpointIdentity_serialize :: "endpoint_identity \<Rightarrow> endpoint_json" where
  "EndpointIdentity_serialize e = \<lparr>pj_host = ep_host e, pj_resource = ep_resource e\<rparr>"

definition IdentityBasis_serialize :: "identity_basis \<Rightarrow> serde_error + identity_json" where
  "IdentityBasis_serialize b =
     res_bind (optional ExecutableIdentity_serialize (ib_executable b)) (\<lambda>executable.
     Inr \<lparr>ij_display_name = ib_display_name b, ij_subject_version = ib_subject_version b,
          ij_protocol_version = ib_protocol_version b, ij_executable = executable,
          ij_endpoint = map_option EndpointIdentity_serialize (ib_endpoint b),
          ij_schema_fingerprint = map_option Sha256Hash_to_hex (ib_schema_fingerprint b),
          ij_content_hash = map_option Sha256Hash_to_hex (ib_content_hash b),
          ij_capabilities = ib_capabilities b,
          ij_configuration_source = ConfigurationSource_as_str (ib_configuration_source b)\<rparr>)"

definition Sha256Hash_deserialize :: "string \<Rightarrow> serde_error + sha256_hash" where
  "Sha256Hash_deserialize v = custom (Sha256Hash_parse v)"

definition ExecutableIdentity_deserialize :: "executable_json \<Rightarrow> serde_error + executable_identity" where
  "ExecutableIdentity_deserialize j =
     res_bind (Sha256Hash_deserialize (xj_sha256 j)) (\<lambda>sha.
     custom (ExecutableIdentity_new (xj_path j) sha))"

definition EndpointIdentity_deserialize :: "endpoint_json \<Rightarrow> serde_error + endpoint_identity" where
  "EndpointIdentity_deserialize j = custom (EndpointIdentity_new (pj_host j) (pj_resource j))"

definition deserialize_bounded_capabilities :: "string list \<Rightarrow> serde_error + string list" where
  "deserialize_bounded_capabilities cs = custom (declare_each [] cs)"

text \<open>The part of \<open>IdentityBasis::deserialize\<close> after the fields have been read: the builders again.\<close>

definition with_optional :: "('a \<Rightarrow> 'b \<Rightarrow> 'e + 'b) \<Rightarrow> 'a option \<Rightarrow> 'b \<Rightarrow> 'e + 'b" where
  "with_optional f v b = (case v of None \<Rightarrow> Inr b | Some x \<Rightarrow> f x b)"

definition rebuild_identity :: "identity_basis \<Rightarrow> integration_domain_error + identity_basis" where
  "rebuild_identity strict =
     res_bind (IdentityBasis_new (ib_display_name strict) (ib_configuration_source strict)) (\<lambda>b.
     res_bind (with_optional versioned (ib_subject_version strict) b) (\<lambda>b.
     res_bind (with_optional speaking (ib_protocol_version strict) b) (\<lambda>b.
     let b = (case ib_executable strict of None \<Rightarrow> b | Some e \<Rightarrow> launched_from e b);
         b = (case ib_endpoint strict of None \<Rightarrow> b | Some e \<Rightarrow> reached_at e b);
         b = (case ib_schema_fingerprint strict of None \<Rightarrow> b | Some h \<Rightarrow> fingerprinted h b);
         b = (case ib_content_hash strict of None \<Rightarrow> b | Some h \<Rightarrow> hashing h b)
     in declaring (ib_capabilities strict) b)))"

definition IdentityBasis_deserialize :: "identity_json \<Rightarrow> serde_error + identity_basis" where
  "IdentityBasis_deserialize j =
     res_bind (optional ExecutableIdentity_deserialize (ij_executable j)) (\<lambda>executable.
     res_bind (optional EndpointIdentity_deserialize (ij_endpoint j)) (\<lambda>endpoint.
     res_bind (optional Sha256Hash_deserialize (ij_schema_fingerprint j)) (\<lambda>fingerprint.
     res_bind (optional Sha256Hash_deserialize (ij_content_hash j)) (\<lambda>content_hash.
     res_bind (deserialize_bounded_capabilities (ij_capabilities j)) (\<lambda>capabilities.
     res_bind (variant (ConfigurationSource_from_stored (ij_configuration_source j))
       (ij_configuration_source j)) (\<lambda>source.
     custom (rebuild_identity
       \<lparr>ib_display_name = ij_display_name j, ib_subject_version = ij_subject_version j,
        ib_protocol_version = ij_protocol_version j, ib_executable = executable,
        ib_endpoint = endpoint, ib_schema_fingerprint = fingerprint,
        ib_content_hash = content_hash, ib_capabilities = capabilities,
        ib_configuration_source = source\<rparr>)))))))"

text \<open>What the public constructors and the deserialization can build.\<close>

inductive identity_built :: "identity_basis \<Rightarrow> bool" where
  built_new: "IdentityBasis_new name source = Inr b \<Longrightarrow> identity_built b"
| built_versioned: "identity_built b \<Longrightarrow> versioned v b = Inr b' \<Longrightarrow> identity_built b'"
| built_speaking: "identity_built b \<Longrightarrow> speaking p b = Inr b' \<Longrightarrow> identity_built b'"
| built_launched: "identity_built b \<Longrightarrow> sha256_ok h \<Longrightarrow> ExecutableIdentity_new p h = Inr e
    \<Longrightarrow> identity_built (launched_from e b)"
| built_reached: "identity_built b \<Longrightarrow> EndpointIdentity_new host resource = Inr e
    \<Longrightarrow> identity_built (reached_at e b)"
| built_fingerprinted: "identity_built b \<Longrightarrow> sha256_ok h \<Longrightarrow> identity_built (fingerprinted h b)"
| built_hashing: "identity_built b \<Longrightarrow> sha256_ok h \<Longrightarrow> identity_built (hashing h b)"
| built_declaring: "identity_built b \<Longrightarrow> declaring cs b = Inr b' \<Longrightarrow> identity_built b'"
| built_deserialized: "IdentityBasis_deserialize j = Inr b \<Longrightarrow> identity_built b"
end
