(* ===== verification/Integration_Trust.thy ===== *)
theory Integration_Trust
  imports Integration_Identity
begin

text \<open>
  Trust grants for external subjects: their state machine, the check of a grant against what is
  observed, and the stored form.

  Source: \<open>harkness-runtime/src/integration/state.rs\<close>, \<open>integration/record.rs\<close> and
  \<open>integration/wire.rs\<close>. A \<open>&mut self\<close> method is a function to the changed record or the error. The
  \<open>semver\<close> crate is the argument \<open>S\<close>, the \<open>time\<close> crate the argument \<open>T\<close>; the JSON form of a record
  is the record of its fields, with the timestamp kept as it is.
\<close>

section \<open>States, scopes and reasons\<close>

definition TrustGrantState_ALL :: "trust_grant_state list" where
  "TrustGrantState_ALL = [IT_Untrusted, IT_Trusted, IT_Revoked, IT_Invalidated]"

primrec TrustGrantState_as_str :: "trust_grant_state \<Rightarrow> string" where
  "TrustGrantState_as_str IT_Untrusted = ''untrusted''"
| "TrustGrantState_as_str IT_Trusted = ''trusted''"
| "TrustGrantState_as_str IT_Revoked = ''revoked''"
| "TrustGrantState_as_str IT_Invalidated = ''invalidated''"

definition TrustGrantState_from_stored :: "string \<Rightarrow> trust_grant_state option" where
  "TrustGrantState_from_stored = find_spelling TrustGrantState_ALL TrustGrantState_as_str"

definition TrustGrantState_is_terminal :: "trust_grant_state \<Rightarrow> bool" where
  "TrustGrantState_is_terminal s \<longleftrightarrow> s = IT_Revoked"

definition TRUST_TRANSITIONS :: "(trust_grant_state \<times> trust_grant_state) list" where
  "TRUST_TRANSITIONS =
     [(IT_Untrusted, IT_Trusted), (IT_Trusted, IT_Revoked), (IT_Trusted, IT_Invalidated),
      (IT_Invalidated, IT_Trusted), (IT_Invalidated, IT_Revoked)]"

definition TrustGrantState_can_become :: "trust_grant_state \<Rightarrow> trust_grant_state \<Rightarrow> bool" where
  "TrustGrantState_can_become from to \<longleftrightarrow> (from, to) \<in> set TRUST_TRANSITIONS"

definition requires_invalidation_reason :: "trust_grant_state \<Rightarrow> bool" where
  "requires_invalidation_reason s \<longleftrightarrow> s = IT_Invalidated"

datatype trust_scope_kind = ScopeKindGlobal | ScopeKindWorkspace

definition TrustScopeKind_ALL :: "trust_scope_kind list" where
  "TrustScopeKind_ALL = [ScopeKindGlobal, ScopeKindWorkspace]"

primrec TrustScopeKind_as_str :: "trust_scope_kind \<Rightarrow> string" where
  "TrustScopeKind_as_str ScopeKindGlobal = ''global''"
| "TrustScopeKind_as_str ScopeKindWorkspace = ''workspace''"

definition TrustScopeKind_from_stored :: "string \<Rightarrow> trust_scope_kind option" where
  "TrustScopeKind_from_stored = find_spelling TrustScopeKind_ALL TrustScopeKind_as_str"

datatype trust_scope = TrustGlobal | TrustWorkspace string

primrec TrustScope_kind :: "trust_scope \<Rightarrow> trust_scope_kind" where
  "TrustScope_kind TrustGlobal = ScopeKindGlobal"
| "TrustScope_kind (TrustWorkspace w) = ScopeKindWorkspace"

primrec TrustScope_root :: "trust_scope \<Rightarrow> string option" where
  "TrustScope_root TrustGlobal = None"
| "TrustScope_root (TrustWorkspace w) = Some w"

datatype invalidation_reason =
    WorkspacePathChanged | ExecutableHashChanged | EndpointHostChanged | RepositoryRemoteChanged
  | ToolSchemaFingerprintChanged | RecipeContentHashChanged | CapabilityExpansion
  | IncompatibleVersionChange

definition InvalidationReason_PRECEDENCE :: "invalidation_reason list" where
  "InvalidationReason_PRECEDENCE =
     [WorkspacePathChanged, ExecutableHashChanged, EndpointHostChanged, RepositoryRemoteChanged,
      ToolSchemaFingerprintChanged, RecipeContentHashChanged, CapabilityExpansion,
      IncompatibleVersionChange]"

primrec InvalidationReason_as_str :: "invalidation_reason \<Rightarrow> string" where
  "InvalidationReason_as_str WorkspacePathChanged = ''workspace_path_changed''"
| "InvalidationReason_as_str ExecutableHashChanged = ''executable_hash_changed''"
| "InvalidationReason_as_str EndpointHostChanged = ''endpoint_host_changed''"
| "InvalidationReason_as_str RepositoryRemoteChanged = ''repository_remote_changed''"
| "InvalidationReason_as_str ToolSchemaFingerprintChanged = ''tool_schema_fingerprint_changed''"
| "InvalidationReason_as_str RecipeContentHashChanged = ''recipe_content_hash_changed''"
| "InvalidationReason_as_str CapabilityExpansion = ''capability_expansion''"
| "InvalidationReason_as_str IncompatibleVersionChange = ''incompatible_version_change''"

definition InvalidationReason_from_stored :: "string \<Rightarrow> invalidation_reason option" where
  "InvalidationReason_from_stored =
     find_spelling InvalidationReason_PRECEDENCE InvalidationReason_as_str"

primrec InvalidationReason_explanation :: "invalidation_reason \<Rightarrow> string" where
  "InvalidationReason_explanation WorkspacePathChanged =
     ''this trust was granted for a different workspace than the one it is being used in''"
| "InvalidationReason_explanation ExecutableHashChanged =
     ''the program on disk is not the one that was trusted''"
| "InvalidationReason_explanation EndpointHostChanged = ''this is now reached at a different host''"
| "InvalidationReason_explanation RepositoryRemoteChanged =
     ''the remote now points at a different repository''"
| "InvalidationReason_explanation ToolSchemaFingerprintChanged =
     ''this tool's schema changed shape after it was trusted''"
| "InvalidationReason_explanation RecipeContentHashChanged =
     ''this recipe was edited after it was trusted''"
| "InvalidationReason_explanation CapabilityExpansion =
     ''this can now do more than it could when it was trusted, or is now configured by someone else''"
| "InvalidationReason_explanation IncompatibleVersionChange =
     ''this reports a version that is not compatible with the one that was trusted''"

datatype trust_check = CheckValid | CheckNotTrusted | CheckInvalidate invalidation_reason

definition TrustCheck_is_valid :: "trust_check \<Rightarrow> bool" where
  "TrustCheck_is_valid c \<longleftrightarrow> c = CheckValid"

definition TrustCheck_reason :: "trust_check \<Rightarrow> invalidation_reason option" where
  "TrustCheck_reason c = (case c of CheckInvalidate q \<Rightarrow> Some q | _ \<Rightarrow> None)"

section \<open>Records and observations\<close>

record observed_identity =
  oi_basis :: identity_basis
  oi_workspace :: "string option"

definition ObservedIdentity_new :: "identity_basis \<Rightarrow> observed_identity" where
  "ObservedIdentity_new b = \<lparr>oi_basis = b, oi_workspace = None\<rparr>"

definition in_workspace :: "string \<Rightarrow> observed_identity \<Rightarrow> observed_identity" where
  "in_workspace root obs = obs\<lparr>oi_workspace := Some root\<rparr>"

record 't trust_record =
  tr_subject_kind :: subject_kind
  tr_identity_basis :: identity_basis
  tr_scope :: trust_scope
  tr_state :: trust_grant_state
  tr_invalidation_reason :: "invalidation_reason option"
  tr_granted_at :: 't

definition TRUST_RECORD :: string where "TRUST_RECORD = ''trust_record''"

definition validate_grant_utc ::
  "'t time_ops \<Rightarrow> string \<Rightarrow> 't \<Rightarrow> integration_domain_error + unit" where
  "validate_grant_utc T field timestamp =
     (if is_utc T timestamp then Inr ()
      else Inl (InvalidIntegrationTimestamp TRUST_RECORD field ''must use the UTC offset''))"

definition validate_scope :: "trust_scope \<Rightarrow> integration_domain_error + unit" where
  "validate_scope scope =
     (case TrustScope_root scope of
        None \<Rightarrow> Inr ()
      | Some root \<Rightarrow>
          if root = []
          then Inl (InvalidIntegrationRecord TRUST_RECORD ''a workspace scope cannot name an empty root'')
          else if \<not> is_rooted_anywhere root
          then Inl (InvalidIntegrationRecord TRUST_RECORD
            ''a workspace scope must start from a filesystem root'')
          else Inr ())"

definition names_resource :: "endpoint_identity option \<Rightarrow> bool" where
  "names_resource e = (case e of None \<Rightarrow> False | Some ep \<Rightarrow> ep_resource ep \<noteq> None)"

definition evidence :: "subject_kind \<Rightarrow> identity_basis \<Rightarrow> trust_scope \<Rightarrow> bool \<times> string" where
  "evidence kind b scope =
     (case kind of
        SK_AgentExecutable \<Rightarrow>
          (ib_executable b \<noteq> None, ''an executable path and content digest'')
      | SK_McpServer \<Rightarrow>
          (ib_executable b \<noteq> None \<or> ib_endpoint b \<noteq> None, ''an executable or an endpoint'')
      | SK_McpToolSchema \<Rightarrow> (ib_schema_fingerprint b \<noteq> None, ''a tool schema fingerprint'')
      | SK_Recipe \<Rightarrow> (ib_content_hash b \<noteq> None, ''a recipe content hash'')
      | SK_ForgeAccount \<Rightarrow>
          (names_resource (ib_endpoint b), ''an endpoint naming the account on its host'')
      | SK_ForgeRepository \<Rightarrow>
          (names_resource (ib_endpoint b), ''an endpoint naming the repository on its host'')
      | SK_Workspace \<Rightarrow> (TrustScope_root scope \<noteq> None, ''a workspace-scoped grant''))"

definition require_evidence ::
  "subject_kind \<Rightarrow> identity_basis \<Rightarrow> trust_scope \<Rightarrow> integration_domain_error + unit" where
  "require_evidence kind b scope =
     (let (present, required) = evidence kind b scope
      in if present then Inr () else Inl (MissingIdentityEvidence kind required))"

definition TrustRecord_grant ::
  "'t time_ops \<Rightarrow> subject_kind \<Rightarrow> identity_basis \<Rightarrow> trust_scope \<Rightarrow> 't
    \<Rightarrow> integration_domain_error + 't trust_record" where
  "TrustRecord_grant T kind b scope granted_at =
     res_bind (validate_grant_utc T ''granted_at'' granted_at) (\<lambda>_.
     res_bind (validate_scope scope) (\<lambda>_.
     res_bind (require_evidence kind b scope) (\<lambda>_.
     Inr \<lparr>tr_subject_kind = kind, tr_identity_basis = b, tr_scope = scope, tr_state = IT_Trusted,
          tr_invalidation_reason = None, tr_granted_at = granted_at\<rparr>)))"

definition TrustRecord_from_parts ::
  "'t time_ops \<Rightarrow> subject_kind \<Rightarrow> identity_basis \<Rightarrow> trust_scope \<Rightarrow> trust_grant_state
    \<Rightarrow> invalidation_reason option \<Rightarrow> 't \<Rightarrow> integration_domain_error + 't trust_record" where
  "TrustRecord_from_parts T kind b scope state reason granted_at =
     res_bind (validate_grant_utc T ''granted_at'' granted_at) (\<lambda>_.
     res_bind (validate_scope scope) (\<lambda>_.
     res_bind (require_evidence kind b scope) (\<lambda>_.
     if state = IT_Untrusted
     then Inl (InvalidIntegrationRecord TRUST_RECORD
       ''an untrusted subject is the absence of a record, not a record'')
     else if requires_invalidation_reason state \<noteq> (reason \<noteq> None)
     then Inl (InvalidIntegrationRecord TRUST_RECORD
       ''an invalidation reason is required by invalidated and permitted nowhere else'')
     else Inr \<lparr>tr_subject_kind = kind, tr_identity_basis = b, tr_scope = scope, tr_state = state,
               tr_invalidation_reason = reason, tr_granted_at = granted_at\<rparr>)))"

section \<open>The check\<close>

text \<open>
  The \<open>semver\<close> crate: parsing and printing a version, parsing a requirement, and matching.
\<close>

record ('v, 'q) semver_ops =
  version_parse :: "string \<Rightarrow> 'v option"
  version_display :: "'v \<Rightarrow> string"
  version_req_parse :: "string \<Rightarrow> 'q option"
  version_req_matches :: "'q \<Rightarrow> 'v \<Rightarrow> bool"

definition versions_are_compatible :: "('v, 'q) semver_ops \<Rightarrow> string \<Rightarrow> string \<Rightarrow> bool" where
  "versions_are_compatible S trusted observed =
     (if trusted = observed then True
      else case (version_parse S trusted, version_parse S observed) of
          (Some t, Some ob) \<Rightarrow>
            (case version_req_parse S (CHR 0x5E # version_display S t) of
               None \<Rightarrow> False
             | Some compatible \<Rightarrow> version_req_matches S compatible ob)
        | _ \<Rightarrow> False)"

definition executable_hash_changed :: "identity_basis \<Rightarrow> identity_basis \<Rightarrow> bool" where
  "executable_hash_changed t ob \<longleftrightarrow>
     map_option exe_sha256 (ib_executable t) \<noteq> map_option exe_sha256 (ib_executable ob)"

definition endpoint_host_changed :: "identity_basis \<Rightarrow> identity_basis \<Rightarrow> bool" where
  "endpoint_host_changed t ob \<longleftrightarrow>
     map_option ep_host (ib_endpoint t) \<noteq> map_option ep_host (ib_endpoint ob)"

definition endpoint_resource_changed :: "identity_basis \<Rightarrow> identity_basis \<Rightarrow> bool" where
  "endpoint_resource_changed t ob \<longleftrightarrow>
     Option.bind (ib_endpoint t) ep_resource \<noteq> Option.bind (ib_endpoint ob) ep_resource"

definition schema_fingerprint_changed :: "identity_basis \<Rightarrow> identity_basis \<Rightarrow> bool" where
  "schema_fingerprint_changed t ob \<longleftrightarrow> ib_schema_fingerprint t \<noteq> ib_schema_fingerprint ob"

definition content_hash_changed :: "identity_basis \<Rightarrow> identity_basis \<Rightarrow> bool" where
  "content_hash_changed t ob \<longleftrightarrow> ib_content_hash t \<noteq> ib_content_hash ob"

definition authority_surface_widened :: "identity_basis \<Rightarrow> identity_basis \<Rightarrow> bool" where
  "authority_surface_widened t ob \<longleftrightarrow>
     ib_configuration_source t \<noteq> ib_configuration_source ob
     \<or> list_ex (\<lambda>c. \<not> declares_capability t c) (ib_capabilities ob)"

definition version_is_incompatible ::
  "('v, 'q) semver_ops \<Rightarrow> identity_basis \<Rightarrow> identity_basis \<Rightarrow> bool" where
  "version_is_incompatible S t ob =
     (if ib_protocol_version t \<noteq> ib_protocol_version ob then True
      else case (ib_subject_version t, ib_subject_version ob) of
          (None, None) \<Rightarrow> False
        | (Some tv, Some obv) \<Rightarrow> \<not> versions_are_compatible S tv obv
        | _ \<Rightarrow> True)"

definition IDENTITY_CHECKS ::
  "('v, 'q) semver_ops \<Rightarrow> (invalidation_reason \<times> (identity_basis \<Rightarrow> identity_basis \<Rightarrow> bool)) list" where
  "IDENTITY_CHECKS S =
     [(ExecutableHashChanged, executable_hash_changed),
      (EndpointHostChanged, endpoint_host_changed),
      (RepositoryRemoteChanged, endpoint_resource_changed),
      (ToolSchemaFingerprintChanged, schema_fingerprint_changed),
      (RecipeContentHashChanged, content_hash_changed),
      (CapabilityExpansion, authority_surface_widened),
      (IncompatibleVersionChange, version_is_incompatible S)]"

fun check_each ::
  "(invalidation_reason \<times> (identity_basis \<Rightarrow> identity_basis \<Rightarrow> bool)) list
    \<Rightarrow> identity_basis \<Rightarrow> identity_basis \<Rightarrow> trust_check" where
  "check_each [] t ob = CheckValid"
| "check_each ((reason, differs) # checks) t ob =
     (if differs t ob then CheckInvalidate reason else check_each checks t ob)"

text \<open>Whether the observation was made elsewhere than where a workspace grant reaches.\<close>

definition outside_scope :: "trust_scope \<Rightarrow> string option \<Rightarrow> bool" where
  "outside_scope scope workspace =
     (case TrustScope_root scope of
        None \<Rightarrow> False
      | Some root \<Rightarrow> map_option parse_path workspace \<noteq> Some (parse_path root))"

definition TrustRecord_check ::
  "('v, 'q) semver_ops \<Rightarrow> 't trust_record \<Rightarrow> observed_identity \<Rightarrow> trust_check" where
  "TrustRecord_check S r obs =
     (if tr_state r \<noteq> IT_Trusted then CheckNotTrusted
      else if outside_scope (tr_scope r) (oi_workspace obs) then CheckInvalidate WorkspacePathChanged
      else check_each (IDENTITY_CHECKS S) (tr_identity_basis r) (oi_basis obs))"

section \<open>Operations\<close>

definition TrustRecord_transition ::
  "trust_grant_state \<Rightarrow> 't trust_record \<Rightarrow> integration_domain_error + 't trust_record" where
  "TrustRecord_transition to r =
     (if \<not> TrustGrantState_can_become (tr_state r) to
      then Inl (InvalidTrustTransition (tr_state r) to)
      else Inr (r\<lparr>tr_state := to\<rparr>))"

definition TrustRecord_revoke :: "'t trust_record \<Rightarrow> integration_domain_error + 't trust_record" where
  "TrustRecord_revoke r =
     res_bind (TrustRecord_transition IT_Revoked r) (\<lambda>r.
     Inr (r\<lparr>tr_invalidation_reason := None\<rparr>))"

definition TrustRecord_invalidate ::
  "invalidation_reason \<Rightarrow> 't trust_record \<Rightarrow> integration_domain_error + 't trust_record" where
  "TrustRecord_invalidate reason r =
     res_bind (TrustRecord_transition IT_Invalidated r) (\<lambda>r.
     Inr (r\<lparr>tr_invalidation_reason := Some reason\<rparr>))"

definition TrustRecord_regrant ::
  "'t time_ops \<Rightarrow> identity_basis \<Rightarrow> 't \<Rightarrow> 't trust_record
    \<Rightarrow> integration_domain_error + 't trust_record" where
  "TrustRecord_regrant T b granted_at r =
     res_bind (validate_grant_utc T ''granted_at'' granted_at) (\<lambda>_.
     res_bind (require_evidence (tr_subject_kind r) b (tr_scope r)) (\<lambda>_.
     res_bind (TrustRecord_transition IT_Trusted r) (\<lambda>r.
     Inr (r\<lparr>tr_identity_basis := b, tr_invalidation_reason := None, tr_granted_at := granted_at\<rparr>))))"

section \<open>The stored form\<close>

definition INTEGRATION_RECORD_SCHEMA_VERSION :: u32 where "INTEGRATION_RECORD_SCHEMA_VERSION = 1"

definition MINIMUM_INTEGRATION_RECORD_SCHEMA_VERSION :: u32 where
  "MINIMUM_INTEGRATION_RECORD_SCHEMA_VERSION = 1"

record 't trust_record_wire =
  tw_schema_version :: u32
  tw_subject_kind :: subject_kind
  tw_identity :: identity_basis
  tw_scope :: trust_scope_kind
  tw_workspace :: "string option"
  tw_state :: trust_grant_state
  tw_invalidation_reason :: "invalidation_reason option"
  tw_granted_at :: 't

definition TrustRecordWire_from :: "'t trust_record \<Rightarrow> 't trust_record_wire" where
  "TrustRecordWire_from r =
     \<lparr>tw_schema_version = INTEGRATION_RECORD_SCHEMA_VERSION, tw_subject_kind = tr_subject_kind r,
      tw_identity = tr_identity_basis r, tw_scope = TrustScope_kind (tr_scope r),
      tw_workspace = TrustScope_root (tr_scope r), tw_state = tr_state r,
      tw_invalidation_reason = tr_invalidation_reason r, tw_granted_at = tr_granted_at r\<rparr>"

definition validate_integration_schema_version :: "string \<Rightarrow> u32 \<Rightarrow> integration_domain_error + unit" where
  "validate_integration_schema_version rec found =
     (if found < MINIMUM_INTEGRATION_RECORD_SCHEMA_VERSION
      then Inl (IntegrationSchemaTooOld rec found MINIMUM_INTEGRATION_RECORD_SCHEMA_VERSION)
      else if INTEGRATION_RECORD_SCHEMA_VERSION < found
      then Inl (IntegrationSchemaTooNew rec found INTEGRATION_RECORD_SCHEMA_VERSION)
      else Inr ())"

definition TrustRecord_try_from ::
  "'t time_ops \<Rightarrow> 't trust_record_wire \<Rightarrow> integration_domain_error + 't trust_record" where
  "TrustRecord_try_from T w =
     res_bind (validate_integration_schema_version TRUST_RECORD (tw_schema_version w)) (\<lambda>_.
     res_bind (case (tw_scope w, tw_workspace w) of
         (ScopeKindGlobal, None) \<Rightarrow> Inr TrustGlobal
       | (ScopeKindWorkspace, Some workspace) \<Rightarrow> Inr (TrustWorkspace workspace)
       | (ScopeKindGlobal, Some _) \<Rightarrow>
           Inl (InvalidIntegrationRecord TRUST_RECORD ''a global grant cannot name a workspace'')
       | (ScopeKindWorkspace, None) \<Rightarrow>
           Inl (InvalidIntegrationRecord TRUST_RECORD
             ''a workspace-scoped grant requires the workspace it is confined to'')) (\<lambda>scope.
     TrustRecord_from_parts T (tw_subject_kind w) (tw_identity w) scope (tw_state w)
       (tw_invalidation_reason w) (tw_granted_at w)))"

record trust_record_json =
  tj_schema_version :: u32
  tj_subject_kind :: string
  tj_identity :: identity_json
  tj_scope :: string
  tj_workspace :: "string option"
  tj_state :: string
  tj_invalidation_reason :: "string option"
  tj_granted_at :: string

text \<open>
  \<open>time::serde::rfc3339\<close>, which stores \<open>granted_at\<close> as text. \<open>time_format\<close> refuses a time
  that has no RFC 3339 form (a year outside 0 to 9999); a UTC time read back from its text is the
  same time.
\<close>

record 't rfc3339 =
  time_format :: "'t \<Rightarrow> string option"
  time_parse :: "string \<Rightarrow> 't option"

definition rfc3339_laws :: "'t time_ops \<Rightarrow> 't rfc3339 \<Rightarrow> bool" where
  "rfc3339_laws T F \<longleftrightarrow>
     (\<forall>t text. is_utc T t \<longrightarrow> time_format F t = Some text \<longrightarrow> time_parse F text = Some t)"

definition serialize_time :: "'t rfc3339 \<Rightarrow> 't \<Rightarrow> serde_error + string" where
  "serialize_time F t = (case time_format F t of None \<Rightarrow> Inl Ser_not_rfc3339 | Some q \<Rightarrow> Inr q)"

definition deserialize_time :: "'t rfc3339 \<Rightarrow> string \<Rightarrow> serde_error + 't" where
  "deserialize_time F q = (case time_parse F q of None \<Rightarrow> Inl (De_not_rfc3339 q) | Some t \<Rightarrow> Inr t)"

definition TrustRecordWire_serialize :: 
  "'t rfc3339 \<Rightarrow> 't trust_record_wire \<Rightarrow> serde_error + trust_record_json"
where
  "TrustRecordWire_serialize F w =
     res_bind (IdentityBasis_serialize (tw_identity w)) (\<lambda>identity.
     res_bind (optional serialize_path (tw_workspace w)) (\<lambda>workspace.
     res_bind (serialize_time F (tw_granted_at w)) (\<lambda>granted_at.
     Inr \<lparr>tj_schema_version = tw_schema_version w,
          tj_subject_kind = SubjectKind_as_str (tw_subject_kind w), tj_identity = identity,
          tj_scope = TrustScopeKind_as_str (tw_scope w), tj_workspace = workspace,
          tj_state = TrustGrantState_as_str (tw_state w),
          tj_invalidation_reason = map_option InvalidationReason_as_str (tw_invalidation_reason w),
          tj_granted_at = granted_at\<rparr>)))"

text \<open>The version is probed before any other field is read.\<close>

definition TrustRecordWire_deserialize :: 
  "'t rfc3339 \<Rightarrow> trust_record_json \<Rightarrow> serde_error + 't trust_record_wire"
where
  "TrustRecordWire_deserialize F j =
     res_bind (custom (validate_integration_schema_version TRUST_RECORD (tj_schema_version j))) (\<lambda>_.
     res_bind (variant (SubjectKind_from_stored (tj_subject_kind j)) (tj_subject_kind j)) (\<lambda>kind.
     res_bind (IdentityBasis_deserialize (tj_identity j)) (\<lambda>identity.
     res_bind (variant (TrustScopeKind_from_stored (tj_scope j)) (tj_scope j)) (\<lambda>scope.
     res_bind (variant (TrustGrantState_from_stored (tj_state j)) (tj_state j)) (\<lambda>state.
     res_bind (optional (\<lambda>q. variant (InvalidationReason_from_stored q) q)
       (tj_invalidation_reason j)) (\<lambda>reason.
     res_bind (deserialize_time F (tj_granted_at j)) (\<lambda>granted_at.
     Inr \<lparr>tw_schema_version = tj_schema_version j, tw_subject_kind = kind, tw_identity = identity,
          tw_scope = scope, tw_workspace = tj_workspace j, tw_state = state,
          tw_invalidation_reason = reason, tw_granted_at = granted_at\<rparr>)))))))"

definition store_trust_record ::
  "'t rfc3339 \<Rightarrow> 't trust_record \<Rightarrow> serde_error + trust_record_json"
where
  "store_trust_record F r = TrustRecordWire_serialize F (TrustRecordWire_from r)"

definition load_trust_record ::
  "'t time_ops \<Rightarrow> 't rfc3339 \<Rightarrow> trust_record_json \<Rightarrow> serde_error + 't trust_record" where
  "load_trust_record T F j =
     res_bind (TrustRecordWire_deserialize F j) (\<lambda>w. custom (TrustRecord_try_from T w))"

text \<open>What the public operations and loading can build.\<close>

datatype 't trust_op = OpRevoke | OpInvalidate invalidation_reason | OpRegrant identity_basis 't

primrec apply_trust_op ::
  "'t time_ops \<Rightarrow> 't trust_op \<Rightarrow> 't trust_record \<Rightarrow> integration_domain_error + 't trust_record" where
  "apply_trust_op T OpRevoke r = TrustRecord_revoke r"
| "apply_trust_op T (OpInvalidate q) r = TrustRecord_invalidate q r"
| "apply_trust_op T (OpRegrant b at) r = TrustRecord_regrant T b at r"

primrec trust_op_ok :: "'t trust_op \<Rightarrow> bool" where
  "trust_op_ok OpRevoke = True"
| "trust_op_ok (OpInvalidate q) = True"
| "trust_op_ok (OpRegrant b at) = identity_built b"

inductive trust_reachable :: "'t time_ops \<Rightarrow> 't rfc3339 \<Rightarrow> 't trust_record \<Rightarrow> bool" for T F where
  reachable_grant: "identity_built b \<Longrightarrow> TrustRecord_grant T kind b scope at = Inr r
    \<Longrightarrow> trust_reachable T F r"
| reachable_load: "load_trust_record T F j = Inr r \<Longrightarrow> trust_reachable T F r"
| reachable_op: "trust_reachable T F r \<Longrightarrow> trust_op_ok op \<Longrightarrow> apply_trust_op T op r = Inr r'
    \<Longrightarrow> trust_reachable T F r'"

end
