(* ===== verification/Integration_Properties.thy ===== *)
theory Integration_Properties
  imports Integration_Trust
begin

text \<open>
  Facts about trust grants: what every identity and every record that can be built satisfies, what
  a valid check pins down, which reason is reported, and the round trip through the stored form.
\<close>

lemma pred_option_code [code]: "pred_option P None = True" "pred_option P (Some x) = P x"
  by simp_all

section \<open>Spellings\<close>

interpretation subject_spelling: stable_spelling SubjectKind_ALL SubjectKind_as_str
proof
  fix k show "k \<in> set SubjectKind_ALL"
    by (cases k) (simp_all add: SubjectKind_ALL_def)
qed (simp add: SubjectKind_ALL_def)

interpretation source_spelling: stable_spelling ConfigurationSource_ALL ConfigurationSource_as_str
proof
  fix k show "k \<in> set ConfigurationSource_ALL"
    by (cases k) (simp_all add: ConfigurationSource_ALL_def)
qed (simp add: ConfigurationSource_ALL_def)

interpretation grant_state_spelling: stable_spelling TrustGrantState_ALL TrustGrantState_as_str
proof
  fix k show "k \<in> set TrustGrantState_ALL"
    by (cases k) (simp_all add: TrustGrantState_ALL_def)
qed (simp add: TrustGrantState_ALL_def)

interpretation scope_spelling: stable_spelling TrustScopeKind_ALL TrustScopeKind_as_str
proof
  fix k show "k \<in> set TrustScopeKind_ALL"
    by (cases k) (simp_all add: TrustScopeKind_ALL_def)
qed (simp add: TrustScopeKind_ALL_def)

interpretation reason_spelling: stable_spelling InvalidationReason_PRECEDENCE InvalidationReason_as_str
proof
  fix k show "k \<in> set InvalidationReason_PRECEDENCE"
    by (cases k) (simp_all add: InvalidationReason_PRECEDENCE_def)
qed (simp add: InvalidationReason_PRECEDENCE_def)

lemmas stored_spellings =
  SubjectKind_from_stored_def ConfigurationSource_from_stored_def TrustGrantState_from_stored_def
  TrustScopeKind_from_stored_def InvalidationReason_from_stored_def
  subject_spelling.find_spelling_spell source_spelling.find_spelling_spell
  grant_state_spelling.find_spelling_spell scope_spelling.find_spelling_spell
  reason_spelling.find_spelling_spell

section \<open>Text and digests\<close>

definition text_ok :: "string \<Rightarrow> bool" where
  "text_ok v \<longleftrightarrow>
     v \<noteq> [] \<and> length v \<le> MAX_IDENTITY_FIELD_LENGTH \<and> \<not> pads_white v \<and> \<not> holds_control v"

lemma validate_text_Inr [result_simps]: "validate_text field v = Inr u \<longleftrightarrow> text_ok v"
  by (auto simp: validate_text_def text_ok_def)

lemma white_space_lower:
  "white_space_1 (ascii_lower a) = white_space_1 a"
  "white_space_2 (ascii_lower a) (ascii_lower b) = white_space_2 a b"
  "white_space_3 (ascii_lower a) (ascii_lower b) (ascii_lower c) = white_space_3 a b c"
  by (auto simp: white_space_1_def white_space_2_def white_space_3_def ascii_lower_def)

lemma leading_white_lower: "leading_white (map ascii_lower bs) = leading_white bs"
  by (cases bs rule: leading_white.cases) (simp_all add: white_space_lower)

lemma trailing_white_lower: "trailing_white (map ascii_lower bs) = trailing_white bs"
  by (induction bs rule: trailing_white.induct) (simp_all add: white_space_lower)

lemma any_control_lower: "any_control (map ascii_lower bs) = any_control bs"
proof (induction bs)
  case (Cons a r)
  have "ascii_lower b < 32 \<longleftrightarrow> b < 32" "ascii_lower b = 127 \<longleftrightarrow> b = 127" "ascii_lower b = 194 \<longleftrightarrow> b = 194"
    "128 \<le> ascii_lower b \<and> ascii_lower b \<le> 159 \<longleftrightarrow> 128 \<le> b \<and> b \<le> 159" for b
    by (auto simp: ascii_lower_def)
  with Cons show ?case
    by (cases r) simp_all
qed simp

lemma codes_lowercase: "map of_char (to_ascii_lowercase s) = map ascii_lower (map of_char s)"
proof -
  have "of_char (char_of (ascii_lower (of_char c)) :: char) = ascii_lower (of_char c)" for c :: char
  proof -
    have "of_char c mod 256 = (of_char c :: nat)"
      by simp
    then have "(of_char c :: nat) < 256"
      by (metis mod_less_divisor zero_less_numeral)
    then have "ascii_lower (of_char c) < 256"
      by (simp add: ascii_lower_def)
    then show ?thesis
      by simp
  qed
  then show ?thesis
    by (simp add: to_ascii_lowercase_def)
qed

lemma text_ok_lowercase: "text_ok (to_ascii_lowercase s) = text_ok s"
proof -
  have "length (to_ascii_lowercase s) = length s" "to_ascii_lowercase s = [] \<longleftrightarrow> s = []"
    by (simp_all add: to_ascii_lowercase_def)
  then show ?thesis
    by (simp add: text_ok_def pads_white_def holds_control_def codes_lowercase leading_white_lower
        trailing_white_lower any_control_lower del: map_map)
qed

lemma lowercase_idem: "to_ascii_lowercase (to_ascii_lowercase s) = to_ascii_lowercase s"
proof -
  have low: "ascii_lower (ascii_lower n) = ascii_lower n" for n
    by (simp add: ascii_lower_def)
  have "map of_char (to_ascii_lowercase (to_ascii_lowercase s))
      = (map of_char (to_ascii_lowercase s) :: nat list)"
    by (simp add: codes_lowercase low del: map_map) (simp add: low)
  then show ?thesis
    by (simp add: inj_map_eq_map [OF inj_of_char])
qed

lemma to_hex_InputHash: "Sha256Hash_to_hex (Sha256Hash bs) = InputHash_to_hex (InputHash bs)"
  by (simp add: Sha256Hash_to_hex_def InputHash_to_hex_def)

lemma Sha256Hash_parse_to_hex: "sha256_ok h \<Longrightarrow> Sha256Hash_parse (Sha256Hash_to_hex h) = Inr h"
proof -
  assume ok: "sha256_ok h"
  obtain bs where h: "h = Sha256Hash bs"
    by (cases h)
  with ok have "length (Sha256Hash_to_hex h) = 64"
    by (simp add: to_hex_InputHash length_to_hex sha256_ok_def)
  with h show ?thesis
    by (simp add: Sha256Hash_parse_def to_hex_InputHash parse_pairs_to_hex)
qed

lemma Sha256Hash_parse_sound:
  "Sha256Hash_parse s = Inr h \<Longrightarrow> sha256_ok h \<and> Sha256Hash_to_hex h = s"
proof -
  assume p: "Sha256Hash_parse s = Inr h"
  then obtain bs where bs: "length s = 64" "parse_pairs s = Some bs" "h = Sha256Hash bs"
    by (auto simp: Sha256Hash_parse_def split: if_splits option.splits)
  have "InputHash_to_hex (InputHash bs) = s \<and> length s = 2 * length bs"
    using bs(1,2) by (intro parse_pairs_sound) simp_all
  with bs show ?thesis
    by (simp add: sha256_ok_def to_hex_InputHash)
qed

text \<open>The incremental digest is a function of the bytes absorbed.\<close>

definition sha_laws :: "'h sha_ops \<Rightarrow> bool" where
  "sha_laws H \<longleftrightarrow> (\<forall>h a b. sha_update H (sha_update H h a) b = sha_update H h (a @ b))
     \<and> (\<forall>h. sha_update H h [] = h)"

lemma of_reader_loop_of:
  assumes "sha_laws H"
  shows "of_reader_loop H h (map Inr (filter (\<lambda>c. c \<noteq> []) chunks))
    = Inr (Sha256Hash (sha_finalize H (sha_update H h (concat chunks))))"
proof (induction chunks arbitrary: h)
  case Nil
  from assms show ?case
    by (simp add: sha_laws_def)
next
  case (Cons c chunks)
  with assms show ?case
    by (simp add: sha_laws_def)
qed

lemma reading_in_chunks_hashes_the_whole:
  "sha_laws H \<Longrightarrow> Sha256Hash_of_reader H (map Inr (filter (\<lambda>c. c \<noteq> []) chunks))
    = Inr (Sha256Hash_of H (concat chunks))"
  by (simp add: Sha256Hash_of_reader_def Sha256Hash_of_def of_reader_loop_of)

section \<open>Well-formed identities\<close>

definition executable_ok :: "executable_identity \<Rightarrow> bool" where
  "executable_ok e \<longleftrightarrow>
     exe_path e \<noteq> [] \<and> is_rooted_anywhere (exe_path e)
     \<and> length (exe_path e) \<le> MAX_EXECUTABLE_PATH_LENGTH \<and> sha256_ok (exe_sha256 e)"

definition endpoint_ok :: "endpoint_identity \<Rightarrow> bool" where
  "endpoint_ok e \<longleftrightarrow>
     text_ok (ep_host e) \<and> to_ascii_lowercase (ep_host e) = ep_host e
     \<and> pred_option text_ok (ep_resource e)"

definition capabilities_ok :: "string list \<Rightarrow> bool" where
  "capabilities_ok cs \<longleftrightarrow>
     sorted cs \<and> distinct cs \<and> length cs \<le> MAX_CAPABILITIES \<and> list_all text_ok cs"

definition identity_ok :: "identity_basis \<Rightarrow> bool" where
  "identity_ok b \<longleftrightarrow>
     text_ok (ib_display_name b) \<and> pred_option text_ok (ib_subject_version b)
     \<and> pred_option text_ok (ib_protocol_version b) \<and> pred_option executable_ok (ib_executable b)
     \<and> pred_option endpoint_ok (ib_endpoint b) \<and> pred_option sha256_ok (ib_schema_fingerprint b)
     \<and> pred_option sha256_ok (ib_content_hash b) \<and> capabilities_ok (ib_capabilities b)"

lemma ExecutableIdentity_new_ok:
  "ExecutableIdentity_new p h = Inr e \<Longrightarrow> sha256_ok h \<Longrightarrow> executable_ok e"
  by (auto simp: ExecutableIdentity_new_def executable_ok_def split: if_splits)

lemma ExecutableIdentity_new_complete:
  "executable_ok e \<Longrightarrow> ExecutableIdentity_new (exe_path e) (exe_sha256 e) = Inr e"
  by (simp add: ExecutableIdentity_new_def executable_ok_def)

lemma EndpointIdentity_new_ok: "EndpointIdentity_new host resource = Inr e \<Longrightarrow> endpoint_ok e"
  by (auto simp: EndpointIdentity_new_def endpoint_ok_def text_ok_lowercase lowercase_idem
      result_simps split: option.splits)

lemma EndpointIdentity_new_complete:
  "endpoint_ok e \<Longrightarrow> EndpointIdentity_new (ep_host e) (ep_resource e) = Inr e"
  by (cases "ep_resource e")
     (auto simp: EndpointIdentity_new_def endpoint_ok_def result_simps)

lemma declare_each_ok:
  "declare_each declared cs = Inr out \<Longrightarrow> capabilities_ok declared \<Longrightarrow> capabilities_ok out"
proof (induction declared cs rule: declare_each.induct)
  case (2 declared c cs)
  then have "text_ok c" "length (insort_insert c declared) \<le> MAX_CAPABILITIES"
    "declare_each (insort_insert c declared) cs = Inr out"
    by (auto simp: result_simps Let_def split: if_splits)
  moreover from this 2(3) have "capabilities_ok (insort_insert c declared)"
    by (simp add: capabilities_ok_def sorted_insort_insert distinct_insort_insert set_insort_insert
        list_all_iff)
  ultimately show ?case
    using 2(1) by auto
qed simp

lemma insort_insert_last: "sorted (xs @ [x]) \<Longrightarrow> distinct (xs @ [x]) \<Longrightarrow> insort_insert x xs = xs @ [x]"
proof -
  assume "sorted (xs @ [x])" "distinct (xs @ [x])"
  then show ?thesis
    by (induction xs) (auto simp: insort_insert_key_def)
qed

lemma declare_each_complete:
  "capabilities_ok (declared @ cs) \<Longrightarrow> declare_each declared cs = Inr (declared @ cs)"
proof (induction cs arbitrary: declared)
  case (Cons c cs)
  then have "insort_insert c declared = declared @ [c]" "text_ok c"
    by (auto simp: capabilities_ok_def sorted_append intro!: insort_insert_last)
  moreover from Cons.prems have "\<not> MAX_CAPABILITIES < length (declared @ [c])"
    by (simp add: capabilities_ok_def)
  ultimately show ?case
    using Cons by (simp add: Let_def result_simps validate_text_def text_ok_def)
qed simp

lemma declaring_ok: "declaring cs b = Inr b' \<Longrightarrow> identity_ok b \<Longrightarrow> identity_ok b'"
  using declare_each_ok [of "[]" cs]
  by (auto simp: declaring_def identity_ok_def result_simps) (simp add: capabilities_ok_def)

lemma builder_ok:
  "IdentityBasis_new name source = Inr b \<Longrightarrow> identity_ok b"
  "versioned v b = Inr b' \<Longrightarrow> identity_ok b \<Longrightarrow> identity_ok b'"
  "speaking p b = Inr b' \<Longrightarrow> identity_ok b \<Longrightarrow> identity_ok b'"
  "executable_ok e \<Longrightarrow> identity_ok b \<Longrightarrow> identity_ok (launched_from e b)"
  "endpoint_ok ep \<Longrightarrow> identity_ok b \<Longrightarrow> identity_ok (reached_at ep b)"
  "sha256_ok h \<Longrightarrow> identity_ok b \<Longrightarrow> identity_ok (fingerprinted h b)"
  "sha256_ok h \<Longrightarrow> identity_ok b \<Longrightarrow> identity_ok (hashing h b)"
  by (auto simp: IdentityBasis_new_def versioned_def speaking_def launched_from_def reached_at_def
      fingerprinted_def hashing_def identity_ok_def capabilities_ok_def result_simps)

text \<open>Rebuilding from fields whose nested parts are well formed goes through the builders.\<close>

lemma rebuild_identity_cases:
  assumes "rebuild_identity s = Inr b"
    and new: "\<And>c. IdentityBasis_new (ib_display_name s) (ib_configuration_source s) = Inr c \<Longrightarrow> P c"
    and versioned: "\<And>v c c'. versioned v c = Inr c' \<Longrightarrow> P c \<Longrightarrow> P c'"
    and speaking: "\<And>v c c'. speaking v c = Inr c' \<Longrightarrow> P c \<Longrightarrow> P c'"
    and launched: "\<And>e c. ib_executable s = Some e \<Longrightarrow> P c \<Longrightarrow> P (launched_from e c)"
    and reached: "\<And>e c. ib_endpoint s = Some e \<Longrightarrow> P c \<Longrightarrow> P (reached_at e c)"
    and fingerprinted: "\<And>h c. ib_schema_fingerprint s = Some h \<Longrightarrow> P c \<Longrightarrow> P (fingerprinted h c)"
    and hashing: "\<And>h c. ib_content_hash s = Some h \<Longrightarrow> P c \<Longrightarrow> P (hashing h c)"
    and declaring: "\<And>cs c c'. declaring cs c = Inr c' \<Longrightarrow> P c \<Longrightarrow> P c'"
  shows "P b"
proof -
  have skip: "P c'" if "with_optional f v c = Inr c'" "P c"
    "\<And>x c c'. f x c = Inr c' \<Longrightarrow> P c \<Longrightarrow> P c'" for f v c c'
    using that by (auto simp: with_optional_def split: option.splits)
  define exe where "exe c = (case ib_executable s of None \<Rightarrow> c | Some e \<Rightarrow> launched_from e c)" for c
  define ep where "ep c = (case ib_endpoint s of None \<Rightarrow> c | Some e \<Rightarrow> reached_at e c)" for c
  define fp where "fp c = (case ib_schema_fingerprint s of None \<Rightarrow> c | Some h \<Rightarrow> fingerprinted h c)" for c
  define ch where "ch c = (case ib_content_hash s of None \<Rightarrow> c | Some h \<Rightarrow> hashing h c)" for c
  from assms(1) obtain b1 b2 b3
    where b1: "IdentityBasis_new (ib_display_name s) (ib_configuration_source s) = Inr b1"
      and b2: "with_optional Integration_Identity.versioned (ib_subject_version s) b1 = Inr b2"
      and b3: "with_optional Integration_Identity.speaking (ib_protocol_version s) b2 = Inr b3"
      and b: "Integration_Identity.declaring (ib_capabilities s) (ch (fp (ep (exe b3)))) = Inr b"
    by (auto simp: rebuild_identity_def Let_def res_bind_Inr_iff exe_def ep_def fp_def ch_def)
  have "P b3"
    using skip [OF b3 skip [OF b2 new [OF b1] versioned] speaking] .
  then have "P (exe b3)"
    by (simp add: exe_def launched split: option.split)
  then have "P (ep (exe b3))"
    by (simp add: ep_def reached split: option.split)
  then have "P (fp (ep (exe b3)))"
    by (simp add: fp_def fingerprinted split: option.split)
  then have "P (ch (fp (ep (exe b3))))"
    by (simp add: ch_def hashing split: option.split)
  with b show ?thesis
    by (rule declaring)
qed

lemma rebuild_identity_ok:
  assumes "rebuild_identity s = Inr b" "pred_option executable_ok (ib_executable s)"
    "pred_option endpoint_ok (ib_endpoint s)" "pred_option sha256_ok (ib_schema_fingerprint s)"
    "pred_option sha256_ok (ib_content_hash s)"
  shows "identity_ok b"
  using assms(1) by (rule rebuild_identity_cases) (use assms in \<open>auto intro: builder_ok declaring_ok\<close>)

lemma rebuild_identity_complete: "identity_ok b \<Longrightarrow> rebuild_identity b = Inr b"
proof -
  assume ok: "identity_ok b"
  then have "declare_each [] (ib_capabilities b) = Inr (ib_capabilities b)"
    using declare_each_complete [of "[]" "ib_capabilities b"] by (simp add: identity_ok_def)
  moreover have "validate_text field v = Inr ()" if "text_ok v" for field v
    using that by (simp add: validate_text_def text_ok_def)
  ultimately show ?thesis
    using ok
    by (cases b)
       (auto simp: rebuild_identity_def with_optional_def Let_def IdentityBasis_new_def versioned_def
        speaking_def launched_from_def reached_at_def fingerprinted_def hashing_def declaring_def
        identity_ok_def split: option.splits)
qed

text \<open>The same fields, attached one builder at a time.\<close>

lemma rebuild_identity_built:
  assumes "rebuild_identity s = Inr b" "identity_ok s"
  shows "identity_built b"
proof -
  have exe: "identity_built (launched_from e c)" if "ib_executable s = Some e" "identity_built c" for e c
    using that assms(2) ExecutableIdentity_new_complete [of e]
    by (auto simp: identity_ok_def executable_ok_def intro: built_launched)
  have ep: "identity_built (reached_at e c)" if "ib_endpoint s = Some e" "identity_built c" for e c
    using that assms(2) EndpointIdentity_new_complete [of e]
    by (auto simp: identity_ok_def intro: built_reached)
  from assms(1) show ?thesis
    by (rule rebuild_identity_cases)
       (use assms(2) in \<open>auto simp: identity_ok_def intro: identity_built.intros exe ep\<close>)
qed

lemma custom_Inr [result_simps]: "custom r = Inr x \<longleftrightarrow> r = Inr x"
  by (auto simp: custom_def split: sum.splits)

lemma optional_Inr [result_simps]:
  "optional f v = Inr w \<longleftrightarrow> rel_option (\<lambda>x y. f x = Inr y) v w"
  by (cases v; cases w) (auto simp: optional_def res_bind_Inr_iff)

lemma variant_Inr [result_simps]: "variant k s = Inr x \<longleftrightarrow> k = Some x"
  by (auto simp: variant_def split: option.splits)

lemma rel_option_pred: "rel_option R v w \<Longrightarrow> (\<And>x y. R x y \<Longrightarrow> Q y) \<Longrightarrow> pred_option Q w"
  by (cases v; cases w) auto

lemma IdentityBasis_deserialize_ok:
  assumes "IdentityBasis_deserialize j = Inr b"
  shows "identity_ok b"
proof -
  have exe: "executable_ok e" if "ExecutableIdentity_deserialize x = Inr e" for x e
    using that ExecutableIdentity_new_ok Sha256Hash_parse_sound
    by (auto simp: ExecutableIdentity_deserialize_def Sha256Hash_deserialize_def result_simps)
  have ep: "endpoint_ok e" if "EndpointIdentity_deserialize x = Inr e" for x e
    using that EndpointIdentity_new_ok
    by (auto simp: EndpointIdentity_deserialize_def result_simps)
  have sha: "sha256_ok h" if "Sha256Hash_deserialize x = Inr h" for x h
    using that Sha256Hash_parse_sound by (auto simp: Sha256Hash_deserialize_def result_simps)
  from assms obtain s where s: "rebuild_identity s = Inr b"
    "rel_option (\<lambda>x y. ExecutableIdentity_deserialize x = Inr y) (ij_executable j) (ib_executable s)"
    "rel_option (\<lambda>x y. EndpointIdentity_deserialize x = Inr y) (ij_endpoint j) (ib_endpoint s)"
    "rel_option (\<lambda>x y. Sha256Hash_deserialize x = Inr y) (ij_schema_fingerprint j) (ib_schema_fingerprint s)"
    "rel_option (\<lambda>x y. Sha256Hash_deserialize x = Inr y) (ij_content_hash j) (ib_content_hash s)"
    by (force simp: IdentityBasis_deserialize_def result_simps)
  from s(1) show ?thesis
    by (rule rebuild_identity_ok)
       (use s exe ep sha in \<open>auto elim: rel_option_pred\<close>)
qed

lemma identity_built_iff: "identity_built b \<longleftrightarrow> identity_ok b"
proof
  show "identity_ok b" if "identity_built b"
    using that
    by (induction rule: identity_built.induct)
       (auto intro: builder_ok declaring_ok ExecutableIdentity_new_ok EndpointIdentity_new_ok
        IdentityBasis_deserialize_ok)
  show "identity_built b" if "identity_ok b"
    using rebuild_identity_built [OF rebuild_identity_complete [OF that] that] .
qed

section \<open>Well-formed records\<close>

definition scope_ok :: "trust_scope \<Rightarrow> bool" where
  "scope_ok scope \<longleftrightarrow> pred_option (\<lambda>root. root \<noteq> [] \<and> is_rooted_anywhere root) (TrustScope_root scope)"

definition trust_record_ok :: "'t time_ops \<Rightarrow> 't trust_record \<Rightarrow> bool" where
  "trust_record_ok T r \<longleftrightarrow>
     identity_ok (tr_identity_basis r) \<and> scope_ok (tr_scope r) \<and> is_utc T (tr_granted_at r)
     \<and> fst (evidence (tr_subject_kind r) (tr_identity_basis r) (tr_scope r))
     \<and> tr_state r \<noteq> IT_Untrusted
     \<and> (tr_invalidation_reason r \<noteq> None \<longleftrightarrow> tr_state r = IT_Invalidated)"

lemma validate_scope_Inr [result_simps]: "validate_scope scope = Inr u \<longleftrightarrow> scope_ok scope"
  by (cases scope) (auto simp: validate_scope_def scope_ok_def)

lemma validate_grant_utc_Inr [result_simps]: "validate_grant_utc T field t = Inr u \<longleftrightarrow> is_utc T t"
  by (simp add: validate_grant_utc_def)

lemma require_evidence_Inr [result_simps]:
  "require_evidence kind b scope = Inr u \<longleftrightarrow> fst (evidence kind b scope)"
  by (simp add: require_evidence_def split: prod.split)

lemma transition_Inr [result_simps]:
  "TrustRecord_transition to r = Inr r' \<longleftrightarrow>
     TrustGrantState_can_become (tr_state r) to \<and> r' = r\<lparr>tr_state := to\<rparr>"
  by (auto simp: TrustRecord_transition_def)

lemma can_become_iff:
  "TrustGrantState_can_become s IT_Revoked \<longleftrightarrow> s = IT_Trusted \<or> s = IT_Invalidated"
  "TrustGrantState_can_become s IT_Invalidated \<longleftrightarrow> s = IT_Trusted"
  "TrustGrantState_can_become s IT_Trusted \<longleftrightarrow> s = IT_Untrusted \<or> s = IT_Invalidated"
  by (cases s; simp add: TrustGrantState_can_become_def TRUST_TRANSITIONS_def)+

lemma grant_ok: "TrustRecord_grant T kind b scope at = Inr r \<Longrightarrow> identity_ok b \<Longrightarrow> trust_record_ok T r"
  by (auto simp: TrustRecord_grant_def trust_record_ok_def result_simps)

lemma from_parts_Inr [result_simps]:
  "TrustRecord_from_parts T kind b scope state reason at = Inr r \<longleftrightarrow>
     is_utc T at \<and> scope_ok scope \<and> fst (evidence kind b scope) \<and> state \<noteq> IT_Untrusted
     \<and> (reason \<noteq> None \<longleftrightarrow> state = IT_Invalidated)
     \<and> r = \<lparr>tr_subject_kind = kind, tr_identity_basis = b, tr_scope = scope, tr_state = state,
            tr_invalidation_reason = reason, tr_granted_at = at\<rparr>"
  by (auto simp: TrustRecord_from_parts_def requires_invalidation_reason_def result_simps)

lemma load_ok: "load_trust_record T F j = Inr r \<Longrightarrow> trust_record_ok T r"
  by (auto simp: load_trust_record_def TrustRecord_try_from_def TrustRecordWire_deserialize_def
      trust_record_ok_def result_simps dest!: IdentityBasis_deserialize_ok)

lemma apply_trust_op_ok:
  "apply_trust_op T op r = Inr r' \<Longrightarrow> trust_op_ok op \<Longrightarrow> trust_record_ok T r \<Longrightarrow> trust_record_ok T r'"
  by (cases op)
     (auto simp: TrustRecord_revoke_def TrustRecord_invalidate_def TrustRecord_regrant_def
      trust_record_ok_def identity_built_iff result_simps)

lemma reachable_ok: "trust_reachable T F r \<Longrightarrow> trust_record_ok T r"
  by (induction rule: trust_reachable.induct)
     (auto intro: grant_ok load_ok apply_trust_op_ok simp: identity_built_iff)

lemma ok_reachable:
  assumes ok: "trust_record_ok T r"
  shows "trust_reachable T F r"
proof -
  define g where "g = r\<lparr>tr_state := IT_Trusted, tr_invalidation_reason := None\<rparr>"
  from ok have "TrustRecord_grant T (tr_subject_kind r) (tr_identity_basis r) (tr_scope r)
      (tr_granted_at r) = Inr g"
    by (cases r) (auto simp: g_def TrustRecord_grant_def trust_record_ok_def result_simps
        validate_grant_utc_def require_evidence_def validate_scope_def scope_ok_def
        split: prod.splits option.splits)
  moreover from ok have "identity_built (tr_identity_basis r)"
    by (simp add: trust_record_ok_def identity_built_iff)
  ultimately have g: "trust_reachable T F g"
    by (rule reachable_grant [rotated])
  show ?thesis
  proof (cases "tr_state r")
    case IT_Untrusted
    with ok show ?thesis
      by (simp add: trust_record_ok_def)
  next
    case IT_Trusted
    with ok have "g = r"
      by (cases r) (simp add: g_def trust_record_ok_def)
    with g show ?thesis
      by simp
  next
    case IT_Revoked
    with ok have "apply_trust_op T OpRevoke g = Inr r"
      by (cases r) (simp add: g_def trust_record_ok_def TrustRecord_revoke_def
          TrustRecord_transition_def can_become_iff)
    from reachable_op [OF g _ this] show ?thesis
      by simp
  next
    case IT_Invalidated
    with ok obtain q where "apply_trust_op T (OpInvalidate q) g = Inr r"
      by (cases r) (auto simp: g_def trust_record_ok_def TrustRecord_invalidate_def
          TrustRecord_transition_def can_become_iff)
    from reachable_op [OF g _ this] show ?thesis
      by simp
  qed
qed

section \<open>The round trip\<close>

definition identity_paths_utf8 :: "identity_basis \<Rightarrow> bool" where
  "identity_paths_utf8 b \<longleftrightarrow> pred_option (\<lambda>e. is_utf8 (exe_path e)) (ib_executable b)"

definition record_paths_utf8 :: "'t trust_record \<Rightarrow> bool" where
  "record_paths_utf8 r \<longleftrightarrow>
     identity_paths_utf8 (tr_identity_basis r) \<and> pred_option is_utf8 (TrustScope_root (tr_scope r))"

lemma serialize_path_eq: "is_utf8 p \<Longrightarrow> serialize_path p = Inr p"
  by (simp add: serialize_path_def)

lemma executable_roundtrip:
  "executable_ok e \<Longrightarrow> ExecutableIdentity_serialize e = Inr j \<Longrightarrow> ExecutableIdentity_deserialize j = Inr e"
  by (auto simp: ExecutableIdentity_serialize_def ExecutableIdentity_deserialize_def
      Sha256Hash_deserialize_def executable_ok_def serialize_path_def custom_def
      Sha256Hash_parse_to_hex ExecutableIdentity_new_def split: if_splits)

lemma endpoint_roundtrip:
  "endpoint_ok e \<Longrightarrow> EndpointIdentity_deserialize (EndpointIdentity_serialize e) = Inr e"
  by (simp add: EndpointIdentity_deserialize_def EndpointIdentity_serialize_def
      EndpointIdentity_new_complete custom_def)

lemma digest_roundtrip: "sha256_ok h \<Longrightarrow> Sha256Hash_deserialize (Sha256Hash_to_hex h) = Inr h"
  by (simp add: Sha256Hash_deserialize_def Sha256Hash_parse_to_hex custom_def)

lemma optional_roundtrip:
  "pred_option endpoint_ok v \<Longrightarrow>
     optional EndpointIdentity_deserialize (map_option EndpointIdentity_serialize v) = Inr v"
  "pred_option sha256_ok h \<Longrightarrow>
     optional Sha256Hash_deserialize (map_option Sha256Hash_to_hex h) = Inr h"
  by (cases v; simp add: optional_def endpoint_roundtrip)
     (cases h; simp add: optional_def digest_roundtrip)

lemma identity_roundtrip:
  assumes ok: "identity_ok b" and j: "IdentityBasis_serialize b = Inr j"
  shows "IdentityBasis_deserialize j = Inr b"
proof -
  from j obtain x where x: "optional ExecutableIdentity_serialize (ib_executable b) = Inr x"
    and j': "ij_display_name j = ib_display_name b" "ij_subject_version j = ib_subject_version b"
    "ij_protocol_version j = ib_protocol_version b" "ij_executable j = x"
    "ij_endpoint j = map_option EndpointIdentity_serialize (ib_endpoint b)"
    "ij_schema_fingerprint j = map_option Sha256Hash_to_hex (ib_schema_fingerprint b)"
    "ij_content_hash j = map_option Sha256Hash_to_hex (ib_content_hash b)"
    "ij_capabilities j = ib_capabilities b"
    "ij_configuration_source j = ConfigurationSource_as_str (ib_configuration_source b)"
    by (auto simp: IdentityBasis_serialize_def res_bind_Inr_iff)
  from x ok have "optional ExecutableIdentity_deserialize x = Inr (ib_executable b)"
    by (cases "ib_executable b"; cases x)
       (auto simp: optional_def identity_ok_def res_bind_Inr_iff executable_roundtrip)
  moreover have "optional EndpointIdentity_deserialize (ij_endpoint j) = Inr (ib_endpoint b)"
    "optional Sha256Hash_deserialize (ij_schema_fingerprint j) = Inr (ib_schema_fingerprint b)"
    "optional Sha256Hash_deserialize (ij_content_hash j) = Inr (ib_content_hash b)"
    using ok by (simp_all add: j' identity_ok_def optional_roundtrip)
  moreover have "declare_each [] (ib_capabilities b) = Inr (ib_capabilities b)"
    using declare_each_complete [of "[]" "ib_capabilities b"] ok by (simp add: identity_ok_def)
  moreover have "rebuild_identity
      \<lparr>ib_display_name = ib_display_name b, ib_subject_version = ib_subject_version b,
       ib_protocol_version = ib_protocol_version b, ib_executable = ib_executable b,
       ib_endpoint = ib_endpoint b, ib_schema_fingerprint = ib_schema_fingerprint b,
       ib_content_hash = ib_content_hash b, ib_capabilities = ib_capabilities b,
       ib_configuration_source = ib_configuration_source b\<rparr> = Inr b"
    using rebuild_identity_complete [OF ok] by (cases b) simp
  ultimately show ?thesis
    using j'
    by (simp add: IdentityBasis_deserialize_def deserialize_bounded_capabilities_def custom_def
        variant_def stored_spellings)
qed

lemma identity_serialize_cases:
  "identity_paths_utf8 b \<Longrightarrow> \<exists>j. IdentityBasis_serialize b = Inr j"
  "\<not> identity_paths_utf8 b \<Longrightarrow> IdentityBasis_serialize b = Inl Ser_path_not_utf8"
  by (cases "ib_executable b";
      simp add: identity_paths_utf8_def IdentityBasis_serialize_def optional_def
        ExecutableIdentity_serialize_def serialize_path_def)+

lemma variant_roundtrip:
  "variant (SubjectKind_from_stored (SubjectKind_as_str k)) v = Inr k"
  "variant (TrustScopeKind_from_stored (TrustScopeKind_as_str sk)) v = Inr sk"
  "variant (TrustGrantState_from_stored (TrustGrantState_as_str st)) v = Inr st"
  "variant (InvalidationReason_from_stored (InvalidationReason_as_str q)) v = Inr q"
  by (simp_all add: variant_def stored_spellings)

lemma record_roundtrip:
  assumes ok: "trust_record_ok T r" and j: "IdentityBasis_serialize (tr_identity_basis r) = Inr ij"
    and utf8: "pred_option is_utf8 (TrustScope_root (tr_scope r))"
    and F: "rfc3339_laws T F" and at: "time_format F (tr_granted_at r) = Some at"
  shows "\<exists>j. store_trust_record F r = Inr j \<and> load_trust_record T F j = Inr r"
proof -
  have ws: "optional serialize_path (TrustScope_root (tr_scope r)) = Inr (TrustScope_root (tr_scope r))"
    using utf8 by (cases "tr_scope r") (simp_all add: optional_def serialize_path_def)
  have q: "optional (\<lambda>q. variant (InvalidationReason_from_stored q) q)
      (map_option InvalidationReason_as_str reason) = Inr reason" for reason
    by (cases reason) (simp_all add: optional_def variant_roundtrip)
  have id: "IdentityBasis_deserialize ij = Inr (tr_identity_basis r)"
    using ok j identity_roundtrip by (simp add: trust_record_ok_def)
  have granted: "serialize_time F (tr_granted_at r) = Inr at" "deserialize_time F at = Inr (tr_granted_at r)"
    using ok F at
    by (auto simp: serialize_time_def deserialize_time_def rfc3339_laws_def trust_record_ok_def)
  have version: "validate_integration_schema_version TRUST_RECORD INTEGRATION_RECORD_SCHEMA_VERSION = Inr ()"
    by (simp add: validate_integration_schema_version_def INTEGRATION_RECORD_SCHEMA_VERSION_def
        MINIMUM_INTEGRATION_RECORD_SCHEMA_VERSION_def)
  have "TrustRecord_from_parts T (tr_subject_kind r) (tr_identity_basis r) (tr_scope r) (tr_state r)
      (tr_invalidation_reason r) (tr_granted_at r) = Inr r"
    using ok by (simp add: from_parts_Inr trust_record_ok_def)
  with version have parts: "TrustRecord_try_from T (TrustRecordWire_from r) = Inr r"
    by (cases "tr_scope r") (simp_all add: TrustRecord_try_from_def TrustRecordWire_from_def)
  from j ws obtain out where out: "store_trust_record F r = Inr out"
    "TrustRecordWire_deserialize F out = Inr (TrustRecordWire_from r)"
    by (simp add: store_trust_record_def TrustRecordWire_serialize_def TrustRecordWire_from_def
        TrustRecordWire_deserialize_def custom_def version variant_roundtrip q id granted)
  with parts show ?thesis
    by (simp add: load_trust_record_def custom_def)
qed

lemma record_refused:
  assumes "\<not> record_paths_utf8 r"
  shows "store_trust_record F r = Inl Ser_path_not_utf8"
proof (cases "identity_paths_utf8 (tr_identity_basis r)")
  case True
  then obtain ij where "IdentityBasis_serialize (tr_identity_basis r) = Inr ij"
    using identity_serialize_cases by blast
  with True assms show ?thesis
    by (cases "tr_scope r")
       (auto simp: record_paths_utf8_def store_trust_record_def TrustRecordWire_serialize_def
        TrustRecordWire_from_def optional_def serialize_path_def)
next
  case False
  then show ?thesis
    by (simp add: store_trust_record_def TrustRecordWire_serialize_def TrustRecordWire_from_def
        identity_serialize_cases)
qed

lemma record_time_refused:
  assumes "record_paths_utf8 r" "IdentityBasis_serialize (tr_identity_basis r) = Inr ij"
    and "time_format F (tr_granted_at r) = None"
  shows "store_trust_record F r = Inl Ser_not_rfc3339"
  using assms
  by (cases "tr_scope r")
     (auto simp: record_paths_utf8_def store_trust_record_def TrustRecordWire_serialize_def
      TrustRecordWire_from_def optional_def serialize_path_def serialize_time_def)

section \<open>What drifted\<close>

text \<open>Each reason in terms of the fields it is about.\<close>

definition trusted_digest :: "identity_basis \<Rightarrow> sha256_hash option" where
  "trusted_digest b = map_option exe_sha256 (ib_executable b)"

definition version_accepted :: "('v, 'q) semver_ops \<Rightarrow> string option \<Rightarrow> string option \<Rightarrow> bool" where
  "version_accepted S t ob \<longleftrightarrow> rel_option (versions_are_compatible S) t ob"

primrec drifted ::
  "('v, 'q) semver_ops \<Rightarrow> 't trust_record \<Rightarrow> observed_identity \<Rightarrow> invalidation_reason \<Rightarrow> bool" where
  "drifted S r obs WorkspacePathChanged =
     (\<exists>root. tr_scope r = TrustWorkspace root
       \<and> \<not> (\<exists>w. oi_workspace obs = Some w \<and> parse_path w = parse_path root))"
| "drifted S r obs ExecutableHashChanged =
     (trusted_digest (oi_basis obs) \<noteq> trusted_digest (tr_identity_basis r))"
| "drifted S r obs EndpointHostChanged =
     (map_option ep_host (ib_endpoint (oi_basis obs)) \<noteq> map_option ep_host (ib_endpoint (tr_identity_basis r)))"
| "drifted S r obs RepositoryRemoteChanged =
     (Option.bind (ib_endpoint (oi_basis obs)) ep_resource
       \<noteq> Option.bind (ib_endpoint (tr_identity_basis r)) ep_resource)"
| "drifted S r obs ToolSchemaFingerprintChanged =
     (ib_schema_fingerprint (oi_basis obs) \<noteq> ib_schema_fingerprint (tr_identity_basis r))"
| "drifted S r obs RecipeContentHashChanged =
     (ib_content_hash (oi_basis obs) \<noteq> ib_content_hash (tr_identity_basis r))"
| "drifted S r obs CapabilityExpansion =
     (ib_configuration_source (oi_basis obs) \<noteq> ib_configuration_source (tr_identity_basis r)
      \<or> \<not> set (ib_capabilities (oi_basis obs)) \<subseteq> set (ib_capabilities (tr_identity_basis r)))"
| "drifted S r obs IncompatibleVersionChange =
     (ib_protocol_version (oi_basis obs) \<noteq> ib_protocol_version (tr_identity_basis r)
      \<or> \<not> version_accepted S (ib_subject_version (tr_identity_basis r))
            (ib_subject_version (oi_basis obs)))"

lemma comparisons_drifted:
  "executable_hash_changed (tr_identity_basis r) (oi_basis obs) = drifted S r obs ExecutableHashChanged"
  "endpoint_host_changed (tr_identity_basis r) (oi_basis obs) = drifted S r obs EndpointHostChanged"
  "endpoint_resource_changed (tr_identity_basis r) (oi_basis obs) = drifted S r obs RepositoryRemoteChanged"
  "schema_fingerprint_changed (tr_identity_basis r) (oi_basis obs) = drifted S r obs ToolSchemaFingerprintChanged"
  "content_hash_changed (tr_identity_basis r) (oi_basis obs) = drifted S r obs RecipeContentHashChanged"
  "authority_surface_widened (tr_identity_basis r) (oi_basis obs) = drifted S r obs CapabilityExpansion"
  "version_is_incompatible S (tr_identity_basis r) (oi_basis obs) = drifted S r obs IncompatibleVersionChange"
  by (auto simp: executable_hash_changed_def trusted_digest_def endpoint_host_changed_def
      endpoint_resource_changed_def schema_fingerprint_changed_def content_hash_changed_def
      authority_surface_widened_def declares_capability_def list_ex_iff version_is_incompatible_def
      version_accepted_def split: option.splits)

lemma outside_scope_drifted:
  "outside_scope (tr_scope r) (oi_workspace obs) = drifted S r obs WorkspacePathChanged"
  by (cases "tr_scope r"; cases "oi_workspace obs") (simp_all add: outside_scope_def)

lemma check_NotTrusted: "tr_state r \<noteq> IT_Trusted \<Longrightarrow> TrustRecord_check S r obs = CheckNotTrusted"
  by (simp add: TrustRecord_check_def)

lemma drift_cases:
  assumes "tr_state r = IT_Trusted"
  shows "TrustRecord_check S r obs = CheckValid \<longleftrightarrow> (\<forall>q. \<not> drifted S r obs q)"
    and "TrustRecord_check S r obs = CheckInvalidate WorkspacePathChanged
      \<longleftrightarrow> drifted S r obs WorkspacePathChanged"
proof -
  have all: "(\<forall>q. \<not> drifted S r obs q) \<longleftrightarrow> (\<forall>q\<in>set InvalidationReason_PRECEDENCE. \<not> drifted S r obs q)"
    using reason_spelling.complete by blast
  show "TrustRecord_check S r obs = CheckValid \<longleftrightarrow> (\<forall>q. \<not> drifted S r obs q)"
    "TrustRecord_check S r obs = CheckInvalidate WorkspacePathChanged
      \<longleftrightarrow> drifted S r obs WorkspacePathChanged"
    unfolding all unfolding TrustRecord_check_def IDENTITY_CHECKS_def InvalidationReason_PRECEDENCE_def
      check_each.simps comparisons_drifted [where S = S] outside_scope_drifted [where S = S]
    using assms by (simp_all del: drifted.simps)
qed

section \<open>Properties\<close>

text \<open>
  C25: The records that granting, loading a stored row, revoking, invalidating and granting again can
  build are exactly the well-formed ones: an identity whose texts, paths, digests and capabilities
  obey their grammar and bounds, a rooted scope, a UTC time, the evidence its kind is recognized by,
  never the untrusted state, and a reason exactly when invalidated.
\<close>

theorem trust_records_are_well_formed: "trust_reachable T F r \<longleftrightarrow> trust_record_ok T r"
  using reachable_ok ok_reachable by blast

text \<open>
  C24: A check reports the first reason of the published order of precedence that really applies to
  the fields it is about, answers valid exactly when none does, and compares nothing unless the
  record is a live grant.
\<close>

theorem check_reports_first_drift:
  "TrustRecord_check S r obs =
     (if tr_state r \<noteq> IT_Trusted then CheckNotTrusted
      else case filter (drifted S r obs) InvalidationReason_PRECEDENCE of
          [] \<Rightarrow> CheckValid
        | q # _ \<Rightarrow> CheckInvalidate q)"
  unfolding TrustRecord_check_def IDENTITY_CHECKS_def InvalidationReason_PRECEDENCE_def
    check_each.simps filter.simps comparisons_drifted [where S = S] outside_scope_drifted [where S = S]
  by (simp del: drifted.simps)

text \<open>A record, an observation and a version scheme for the witnesses.\<close>

definition sample_identity :: identity_basis where
  "sample_identity =
     \<lparr>ib_display_name = ''octocat/hello'', ib_subject_version = Some ''1.0.0'',
      ib_protocol_version = None, ib_executable = None,
      ib_endpoint = Some \<lparr>ep_host = ''github.com'', ep_resource = Some ''octocat/hello''\<rparr>,
      ib_schema_fingerprint = None, ib_content_hash = Some (Sha256Hash (replicate 32 7)),
      ib_capabilities = [''fs.read'', ''network''], ib_configuration_source = CS_User\<rparr>"

definition sample_trust :: "(int \<times> int) trust_record" where
  "sample_trust =
     \<lparr>tr_subject_kind = SK_ForgeRepository, tr_identity_basis = sample_identity,
      tr_scope = TrustWorkspace ''/work'', tr_state = IT_Trusted, tr_invalidation_reason = None,
      tr_granted_at = (0, 0)\<rparr>"

text \<open>Times as seconds and offset, written as a run of dots, one for each second of four hours.\<close>

definition seconds_rfc3339 :: "(int \<times> int) rfc3339" where
  "seconds_rfc3339 =
     \<lparr>time_format = (\<lambda>t. if 0 \<le> fst t \<and> fst t < 14400 then Some (replicate (nat (fst t)) CHR ''.'')
                         else None),
      time_parse = (\<lambda>q. Some (int (length q), 0))\<rparr>"

lemma seconds_rfc3339_laws: "rfc3339_laws offset_time seconds_rfc3339"
  by (auto simp: rfc3339_laws_def seconds_rfc3339_def offset_time_def split: if_splits)

definition opaque_versions :: "(unit, unit) semver_ops" where
  "opaque_versions =
     \<lparr>version_parse = (\<lambda>_. None), version_display = (\<lambda>_. ''0''),
      version_req_parse = (\<lambda>_. None), version_req_matches = (\<lambda>_ _. False)\<rparr>"

lemma sample_identity_ok: "identity_ok sample_identity"
  by code_simp

lemma sample_trust_ok: "trust_record_ok offset_time sample_trust"
  by code_simp

lemma sample_trust_reachable: "trust_reachable offset_time seconds_rfc3339 sample_trust"
  by (rule ok_reachable [OF sample_trust_ok])

text \<open>What a subject kind is recognized by agrees, and is there.\<close>

definition shared :: "'a option \<Rightarrow> 'a option \<Rightarrow> bool" where
  "shared v w \<longleftrightarrow> v \<noteq> None \<and> w = v"

definition endpoint_place :: "identity_basis \<Rightarrow> (string \<times> string option) option" where
  "endpoint_place b = map_option (\<lambda>e. (ep_host e, ep_resource e)) (ib_endpoint b)"

definition same_evidence :: "'t trust_record \<Rightarrow> observed_identity \<Rightarrow> bool" where
  "same_evidence r obs =
     (let t = tr_identity_basis r; ob = oi_basis obs
      in case tr_subject_kind r of
           SK_AgentExecutable \<Rightarrow> shared (trusted_digest t) (trusted_digest ob)
         | SK_McpServer \<Rightarrow>
             shared (trusted_digest t) (trusted_digest ob) \<or> shared (endpoint_place t) (endpoint_place ob)
         | SK_McpToolSchema \<Rightarrow> shared (ib_schema_fingerprint t) (ib_schema_fingerprint ob)
         | SK_Recipe \<Rightarrow> shared (ib_content_hash t) (ib_content_hash ob)
         | SK_ForgeAccount \<Rightarrow>
             shared (endpoint_place t) (endpoint_place ob)
             \<and> names_resource (ib_endpoint ob)
         | SK_ForgeRepository \<Rightarrow>
             shared (endpoint_place t) (endpoint_place ob)
             \<and> names_resource (ib_endpoint ob)
         | SK_Workspace \<Rightarrow>
             shared (map_option parse_path (TrustScope_root (tr_scope r)))
               (map_option parse_path (oi_workspace obs)))"

lemma endpoint_place_eq:
  "endpoint_place t = endpoint_place ob \<longleftrightarrow>
     map_option ep_host (ib_endpoint t) = map_option ep_host (ib_endpoint ob)
     \<and> Option.bind (ib_endpoint t) ep_resource = Option.bind (ib_endpoint ob) ep_resource"
  by (cases "ib_endpoint t"; cases "ib_endpoint ob") (auto simp: endpoint_place_def)

lemma undrifted_evidence:
  assumes "fst (evidence (tr_subject_kind r) (tr_identity_basis r) (tr_scope r))"
    and "\<And>q. \<not> drifted S r obs q"
  shows "same_evidence r obs"
proof -
  have digest: "trusted_digest (oi_basis obs) = trusted_digest (tr_identity_basis r)"
    and schema: "ib_schema_fingerprint (oi_basis obs) = ib_schema_fingerprint (tr_identity_basis r)"
    and content: "ib_content_hash (oi_basis obs) = ib_content_hash (tr_identity_basis r)"
    and place: "endpoint_place (oi_basis obs) = endpoint_place (tr_identity_basis r)"
    and scope: "tr_scope r = TrustWorkspace root
      \<Longrightarrow> map_option parse_path (oi_workspace obs) = Some (parse_path root)" for root
    using assms(2) [of ExecutableHashChanged] assms(2) [of ToolSchemaFingerprintChanged]
      assms(2) [of RecipeContentHashChanged] assms(2) [of EndpointHostChanged]
      assms(2) [of RepositoryRemoteChanged] assms(2) [of WorkspacePathChanged]
    by (auto simp: endpoint_place_eq)
  have names: "names_resource (ib_endpoint (oi_basis obs)) = names_resource (ib_endpoint (tr_identity_basis r))"
    using place by (cases "ib_endpoint (oi_basis obs)"; cases "ib_endpoint (tr_identity_basis r)")
      (auto simp: endpoint_place_def names_resource_def)
  have present: "ib_executable b = None \<longleftrightarrow> trusted_digest b = None"
    "ib_endpoint b = None \<longleftrightarrow> endpoint_place b = None"
    "names_resource (ib_endpoint b) \<Longrightarrow> endpoint_place b \<noteq> None" for b
    by (auto simp: trusted_digest_def endpoint_place_def names_resource_def split: option.splits)
  show ?thesis
    using assms(1) unfolding same_evidence_def evidence_def Let_def shared_def present(1,2) digest
      schema content place names
    by (cases "tr_subject_kind r"; cases "tr_scope r") (auto simp: scope dest: present(3))
qed

text \<open>
  C23: When the check of any record the runtime can hold answers valid, the record is a live grant,
  the evidence its subject kind is recognized by is there and is the same on both sides, the
  workspace of a workspace grant is the one observed, and the subject neither declares a capability
  the grant lacks nor is configured by another party nor speaks another protocol revision.
\<close>

theorem valid_check_pins_subject:
  assumes "trust_reachable T F r" and "TrustRecord_check S r obs = CheckValid"
  shows "tr_state r = IT_Trusted \<and> same_evidence r obs
    \<and> \<not> outside_scope (tr_scope r) (oi_workspace obs)
    \<and> set (ib_capabilities (oi_basis obs)) \<subseteq> set (ib_capabilities (tr_identity_basis r))
    \<and> ib_configuration_source (oi_basis obs) = ib_configuration_source (tr_identity_basis r)
    \<and> ib_protocol_version (oi_basis obs) = ib_protocol_version (tr_identity_basis r)"
proof -
  from assms(2) have trusted: "tr_state r = IT_Trusted"
    by (metis check_NotTrusted trust_check.distinct(1,5))
  with assms(2) have none: "\<not> drifted S r obs q" for q
    using drift_cases(1) by blast
  moreover have "fst (evidence (tr_subject_kind r) (tr_identity_basis r) (tr_scope r))"
    using reachable_ok [OF assms(1)] by (simp add: trust_record_ok_def)
  ultimately have "same_evidence r obs"
    by (rule undrifted_evidence [rotated])
  with trusted none [of WorkspacePathChanged] none [of CapabilityExpansion]
    none [of IncompatibleVersionChange] show ?thesis
    by (simp add: outside_scope_drifted [where S = S])
qed

lemma valid_check_pins_subject_witness:
  "same_evidence sample_trust (in_workspace ''/work/'' (ObservedIdentity_new sample_identity))"
proof -
  have "TrustRecord_check opaque_versions sample_trust
      (in_workspace ''/work/'' (ObservedIdentity_new sample_identity)) = CheckValid"
    by code_simp
  from valid_check_pins_subject [OF sample_trust_reachable this] show ?thesis
    by simp
qed

text \<open>
  C26: Storing a record the runtime can hold is refused exactly when a path in it is not UTF-8 or its
  grant time has no RFC 3339 form, the path first; what is stored otherwise is read back as the same
  record.
\<close>

theorem trust_record_roundtrip:
  assumes "rfc3339_laws T F" "trust_reachable T F r"
  shows "case store_trust_record F r of
      Inl e \<Rightarrow>
        (if record_paths_utf8 r then e = Ser_not_rfc3339 \<and> time_format F (tr_granted_at r) = None
         else e = Ser_path_not_utf8)
    | Inr j \<Rightarrow> load_trust_record T F j = Inr r
        \<and> record_paths_utf8 r \<and> time_format F (tr_granted_at r) \<noteq> None"
proof (cases "record_paths_utf8 r")
  case True
  then obtain ij where j: "IdentityBasis_serialize (tr_identity_basis r) = Inr ij"
    using identity_serialize_cases by (auto simp: record_paths_utf8_def)
  show ?thesis
  proof (cases "time_format F (tr_granted_at r)")
    case None
    with True j show ?thesis
      by (simp add: record_time_refused)
  next
    case (Some at)
    with True j record_roundtrip [OF reachable_ok [OF assms(2)] j _ assms(1) Some] show ?thesis
      by (force simp: record_paths_utf8_def)
  qed
qed (simp add: record_refused)

lemma trust_record_roundtrip_witness:
  "load_trust_record offset_time seconds_rfc3339
     (projr (store_trust_record seconds_rfc3339 sample_trust)) = Inr sample_trust"
proof -
  have "\<not> isl (store_trust_record seconds_rfc3339 sample_trust)"
    by code_simp
  with trust_record_roundtrip [OF seconds_rfc3339_laws sample_trust_reachable] show ?thesis
    by (auto split: sum.splits)
qed

text \<open>
  C27: After a check found drift, the grant is invalidated and answers nothing; granting it again for
  what was observed is refused only for lack of evidence, and otherwise gives a record that is valid
  for that observation, except that a workspace grant observed elsewhere stays outside its scope,
  which granting again does not move.
\<close>

theorem regrant_settles_drift:
  assumes "trust_reachable T F r" and "identity_built (oi_basis obs)" and "is_utc T at"
    and "TrustRecord_check S r obs = CheckInvalidate q"
  shows "case TrustRecord_invalidate q r of
      Inl e \<Rightarrow> False
    | Inr r1 \<Rightarrow> TrustRecord_check S r1 obs = CheckNotTrusted
        \<and> (case TrustRecord_regrant T (oi_basis obs) at r1 of
             Inl e \<Rightarrow> \<not> fst (evidence (tr_subject_kind r) (oi_basis obs) (tr_scope r))
           | Inr r2 \<Rightarrow> trust_reachable T F r2
               \<and> TrustRecord_check S r2 obs
                 = (if q = WorkspacePathChanged then CheckInvalidate WorkspacePathChanged
                    else CheckValid))"
proof -
  from assms(4) have trusted: "tr_state r = IT_Trusted"
    by (metis check_NotTrusted trust_check.distinct(1,5))
  define r1 where "r1 = r\<lparr>tr_state := IT_Invalidated, tr_invalidation_reason := Some q\<rparr>"
  have r1: "TrustRecord_invalidate q r = Inr r1"
    using trusted by (simp add: TrustRecord_invalidate_def TrustRecord_transition_def can_become_iff r1_def)
  have again: "trust_reachable T F r2 \<and> TrustRecord_check S r2 obs
      = (if q = WorkspacePathChanged then CheckInvalidate WorkspacePathChanged else CheckValid)"
    if r2: "TrustRecord_regrant T (oi_basis obs) at r1 = Inr r2" for r2
  proof -
    from r2 have eq: "tr_identity_basis r2 = oi_basis obs" "tr_scope r2 = tr_scope r" "tr_state r2 = IT_Trusted"
      by (auto simp: TrustRecord_regrant_def r1_def result_simps)
    have "trust_reachable T F r1"
      by (rule reachable_op [OF assms(1), where op = "OpInvalidate q"]) (simp_all add: r1)
    then have reach: "trust_reachable T F r2"
      by (rule reachable_op [where op = "OpRegrant (oi_basis obs) at"]) (simp_all add: assms r2)
    have scope: "drifted S r2 obs WorkspacePathChanged = drifted S r obs WorkspacePathChanged"
      by (simp add: eq)
    have rest: "\<not> drifted S r2 obs q'" if "q' \<noteq> WorkspacePathChanged" for q'
      using that
      by (cases q') (auto simp: eq version_accepted_def versions_are_compatible_def option.rel_sel)
    show ?thesis
    proof (cases "q = WorkspacePathChanged")
      case True
      with assms(4) drift_cases(2) [OF trusted] have "drifted S r obs WorkspacePathChanged"
        by blast
      with scope drift_cases(2) [OF eq(3), of S obs] True reach show ?thesis
        by (simp del: drifted.simps)
    next
      case False
      with assms(4) drift_cases(2) [OF trusted, of S obs] have "\<not> drifted S r obs WorkspacePathChanged"
        by auto
      with scope rest have "\<not> drifted S r2 obs q'" for q'
        by (cases "q' = WorkspacePathChanged") simp_all
      with drift_cases(1) [OF eq(3), of S obs] False reach show ?thesis
        by simp
    qed
  qed
  have refused: "\<not> fst (evidence (tr_subject_kind r) (oi_basis obs) (tr_scope r))"
    if "TrustRecord_regrant T (oi_basis obs) at r1 = Inl e" for e
    using that assms(3)
    by (auto simp: TrustRecord_regrant_def r1_def validate_grant_utc_def require_evidence_def
        TrustRecord_transition_def can_become_iff split: prod.splits if_splits)
  show ?thesis
    using r1 again refused by (auto simp: check_NotTrusted r1_def split: sum.split)
qed

definition sample_edited :: observed_identity where
  "sample_edited =
     in_workspace ''/work'' (ObservedIdentity_new (hashing (Sha256Hash (replicate 32 9)) sample_identity))"

lemma regrant_settles_drift_witness:
  "TrustRecord_check opaque_versions
     (projr (TrustRecord_regrant offset_time (oi_basis sample_edited) (1, 0)
       (projr (TrustRecord_invalidate RecipeContentHashChanged sample_trust)))) sample_edited = CheckValid"
proof -
  have "identity_ok (oi_basis sample_edited)"
    by code_simp
  then have built: "identity_built (oi_basis sample_edited)"
    by (simp add: identity_built_iff)
  have utc: "is_utc offset_time (1, 0)"
    by (simp add: offset_time_def)
  have drift: "TrustRecord_check opaque_versions sample_trust sample_edited
      = CheckInvalidate RecipeContentHashChanged"
    by code_simp
  have "\<not> isl (TrustRecord_regrant offset_time (oi_basis sample_edited) (1, 0)
      (projr (TrustRecord_invalidate RecipeContentHashChanged sample_trust)))"
    by code_simp
  with regrant_settles_drift [OF sample_trust_reachable built utc drift] show ?thesis
    by (auto split: sum.splits)
qed

text \<open>A revoked record stays as it is: every operation on it is refused.\<close>

lemma revoked_is_final: "tr_state r = IT_Revoked \<Longrightarrow> \<exists>e. apply_trust_op T op r = Inl e"
  by (cases op)
     (auto simp: TrustRecord_revoke_def TrustRecord_invalidate_def TrustRecord_regrant_def
      TrustRecord_transition_def can_become_iff validate_grant_utc_def require_evidence_def
      split: prod.split)

end
