(* ===== verification/Approval_Matcher.thy ===== *)
theory Approval_Matcher
  imports Approval_Lifecycle Policy_Properties
begin

text \<open>
  Binding a live grant to the exact request it was given for.

  Source: \<open>harkness-runtime/src/approval/matcher.rs\<close>. A grant is only ever projected from a
  granted request (\<open>ApprovalGrant_of\<close>), so the theorems take the requests and let the grants be
  computed.
\<close>

section \<open>Grants and candidates\<close>

record 'w approval_grant =
  ag_approval_id :: approval_id
  ag_run_id :: run_id
  ag_tool_call_id :: tool_call_id
  ag_workspace :: workspace_binding
  ag_tool :: "'w tool_identity"
  ag_capabilities :: "capability list"
  ag_integration_identity :: integration_identity
  ag_input_hash :: input_hash
  ag_scope :: approval_scope

definition ApprovalGrant_of :: "('w, 't) approval_request \<Rightarrow> 'w approval_grant option" where
  "ApprovalGrant_of r =
     (if ar_state r = AS_Granted
      then Some \<lparr>ag_approval_id = ar_id r, ag_run_id = pa_run_id (ar_pending r),
                 ag_tool_call_id = pa_tool_call_id (ar_pending r),
                 ag_workspace = pa_workspace (ar_pending r), ag_tool = pa_tool (ar_pending r),
                 ag_capabilities = pa_capabilities (ar_pending r),
                 ag_integration_identity = pa_integration_identity (ar_pending r),
                 ag_input_hash = pa_input_hash (ar_pending r),
                 ag_scope = ar_effective_scope r\<rparr>
      else None)"

record 'w candidate_call =
  cc_run_id :: run_id
  cc_tool_call_id :: tool_call_id
  cc_workspace :: workspace_binding
  cc_tool :: "'w tool_identity"
  cc_capabilities :: "capability list"
  cc_integration_identity :: integration_identity
  cc_input_hash :: input_hash

definition CandidateCall_new ::
  "run_id \<Rightarrow> tool_call_id \<Rightarrow> workspace_binding \<Rightarrow> 'w tool_identity \<Rightarrow> input_hash \<Rightarrow>
   'w candidate_call" where
  "CandidateCall_new run call workspace tool hash =
     \<lparr>cc_run_id = run, cc_tool_call_id = call, cc_workspace = workspace, cc_tool = tool,
      cc_capabilities = [], cc_integration_identity = IntegrationIdentity_none,
      cc_input_hash = hash\<rparr>"

definition CandidateCall_with_capabilities ::
  "capability list \<Rightarrow> 'w candidate_call \<Rightarrow> 'w candidate_call" where
  "CandidateCall_with_capabilities cs c = c\<lparr>cc_capabilities := cs\<rparr>"

definition CandidateCall_with_integration_identity ::
  "integration_identity \<Rightarrow> 'w candidate_call \<Rightarrow> 'w candidate_call" where
  "CandidateCall_with_integration_identity i c = c\<lparr>cc_integration_identity := i\<rparr>"

section \<open>Matching\<close>

datatype integration_identity_field =
    AgentExecutableSha256 | McpToolSchemaFingerprint | RecipeContentHash

primrec IntegrationIdentityField_as_str :: "integration_identity_field \<Rightarrow> string" where
  "IntegrationIdentityField_as_str AgentExecutableSha256 = ''agent_executable_sha256''"
| "IntegrationIdentityField_as_str McpToolSchemaFingerprint = ''mcp_tool_schema_fingerprint''"
| "IntegrationIdentityField_as_str RecipeContentHash = ''recipe_content_hash''"

record identity_drift =
  drift_approval_id :: approval_id
  drift_changed_fields :: "integration_identity_field list"

definition drift_between ::
  "approval_id \<Rightarrow> integration_identity \<Rightarrow> integration_identity \<Rightarrow> identity_drift" where
  "drift_between i approved observed =
     \<lparr>drift_approval_id = i,
      drift_changed_fields =
        (if agent_executable_sha256 approved \<noteq> agent_executable_sha256 observed
         then [AgentExecutableSha256] else [])
        @ (if mcp_tool_schema_fingerprint approved \<noteq> mcp_tool_schema_fingerprint observed
           then [McpToolSchemaFingerprint] else [])
        @ (if recipe_content_hash approved \<noteq> recipe_content_hash observed
           then [RecipeContentHash] else [])\<rparr>"

datatype grant_match = Matched run_grant | IdentityDrift identity_drift | NotApplicable

primrec policy_scope :: "approval_scope \<Rightarrow> run_grant_scope" where
  "policy_scope ExactCall = GrantExactCall"
| "policy_scope ToolForRun = GrantToolForRun"
| "policy_scope CapabilityForRun = GrantCapabilityForRun"

definition scope_applies_except_identity :: "'w approval_grant \<Rightarrow> 'w candidate_call \<Rightarrow> bool" where
  "scope_applies_except_identity g c \<longleftrightarrow>
     ag_run_id g = cc_run_id c \<and> ag_workspace g = cc_workspace c
     \<and> (case ag_scope g of
          ExactCall \<Rightarrow>
            ag_tool_call_id g = cc_tool_call_id c \<and> ag_tool g = cc_tool c
            \<and> ag_input_hash g = cc_input_hash c
        | ToolForRun \<Rightarrow> ag_tool g = cc_tool c
        | CapabilityForRun \<Rightarrow>
            cc_capabilities c \<noteq> []
            \<and> list_all (\<lambda>required. required \<in> set (ag_capabilities g)) (cc_capabilities c))"

definition match_candidate :: "'w approval_grant \<Rightarrow> 'w candidate_call \<Rightarrow> grant_match" where
  "match_candidate g c =
     (if \<not> scope_applies_except_identity g c then NotApplicable
      else if ag_integration_identity g \<noteq> cc_integration_identity c
      then IdentityDrift (drift_between (ag_approval_id g) (ag_integration_identity g)
                            (cc_integration_identity c))
      else Matched (RunGrant_matching (policy_scope (ag_scope g)) (ag_integration_identity g)))"

definition ApprovalGrant_matching :: "'w approval_grant \<Rightarrow> 'w candidate_call \<Rightarrow> run_grant option" where
  "ApprovalGrant_matching g c =
     (case match_candidate g c of Matched grant \<Rightarrow> Some grant | _ \<Rightarrow> None)"

definition grant_applies :: "'w approval_grant \<Rightarrow> 'w candidate_call \<Rightarrow> bool" where
  "grant_applies g c = (case match_candidate g c of Matched _ \<Rightarrow> True | _ \<Rightarrow> False)"

record grant_matches =
  gm_grants :: "run_grant list"
  gm_identity_drifts :: "identity_drift list"

definition matching_grants_detailed ::
  "'w approval_grant list \<Rightarrow> 'w candidate_call \<Rightarrow> grant_matches" where
  "matching_grants_detailed grants c =
     fold (\<lambda>g matches. case match_candidate g c of
             Matched grant \<Rightarrow> matches\<lparr>gm_grants := gm_grants matches @ [grant]\<rparr>
           | IdentityDrift drift \<Rightarrow>
               matches\<lparr>gm_identity_drifts := gm_identity_drifts matches @ [drift]\<rparr>
           | NotApplicable \<Rightarrow> matches)
       grants \<lparr>gm_grants = [], gm_identity_drifts = []\<rparr>"

definition matching_grants :: "'w approval_grant list \<Rightarrow> 'w candidate_call \<Rightarrow> run_grant list" where
  "matching_grants grants c = gm_grants (matching_grants_detailed grants c)"

section \<open>What matching collects\<close>

definition drift_of :: "'w candidate_call \<Rightarrow> 'w approval_grant \<Rightarrow> identity_drift option" where
  "drift_of c g = (case match_candidate g c of IdentityDrift d \<Rightarrow> Some d | _ \<Rightarrow> None)"

lemma matching_grants_detailed_eq:
  "matching_grants_detailed grants c =
     \<lparr>gm_grants = List.map_filter (\<lambda>g. ApprovalGrant_matching g c) grants,
      gm_identity_drifts = List.map_filter (drift_of c) grants\<rparr>"
proof -
  have "fold (\<lambda>g matches. case match_candidate g c of
             Matched grant \<Rightarrow> matches\<lparr>gm_grants := gm_grants matches @ [grant]\<rparr>
           | IdentityDrift drift \<Rightarrow>
               matches\<lparr>gm_identity_drifts := gm_identity_drifts matches @ [drift]\<rparr>
           | NotApplicable \<Rightarrow> matches)
       grants \<lparr>gm_grants = gs, gm_identity_drifts = ds\<rparr>
    = \<lparr>gm_grants = gs @ List.map_filter (\<lambda>g. ApprovalGrant_matching g c) grants,
       gm_identity_drifts = ds @ List.map_filter (drift_of c) grants\<rparr>" for gs ds
    by (induction grants arbitrary: gs ds)
       (auto simp: List.map_filter_def ApprovalGrant_matching_def drift_of_def
          split: grant_match.splits)
  then show ?thesis
    by (simp add: matching_grants_detailed_def)
qed

lemma ApprovalGrant_matching_Some:
  "ApprovalGrant_matching g c = Some grant \<longleftrightarrow>
     scope_applies_except_identity g c \<and> ag_integration_identity g = cc_integration_identity c
     \<and> grant = RunGrant_matching (policy_scope (ag_scope g)) (ag_integration_identity g)"
  by (auto simp: ApprovalGrant_matching_def match_candidate_def)

lemma set_map_filter: "x \<in> set (List.map_filter f xs) \<longleftrightarrow> (\<exists>a\<in>set xs. f a = Some x)"
  by (induction xs) (auto simp: List.map_filter_def)

lemma matching_grants_member:
  "grant \<in> set (matching_grants grants c) \<longleftrightarrow>
     (\<exists>g\<in>set grants. scope_applies_except_identity g c
        \<and> ag_integration_identity g = cc_integration_identity c
        \<and> grant = RunGrant_matching (policy_scope (ag_scope g)) (ag_integration_identity g))"
  by (simp add: matching_grants_def matching_grants_detailed_eq set_map_filter
      ApprovalGrant_matching_Some)

lemma policy_scope_exact [simp]: "policy_scope s = GrantExactCall \<longleftrightarrow> s = ExactCall"
  "GrantExactCall = policy_scope s \<longleftrightarrow> s = ExactCall"
  by (cases s; simp)+

text \<open>The grants of a run: every request projected, the ungranted ones yielding nothing.\<close>

definition grants_of :: "('w, 't) approval_request list \<Rightarrow> 'w approval_grant list" where
  "grants_of requests = List.map_filter ApprovalGrant_of requests"

lemma matching_request:
  assumes "grant \<in> set (matching_grants (grants_of requests) c)"
  shows "\<exists>r\<in>set requests. ar_state r = AS_Granted
     \<and> pa_run_id (ar_pending r) = cc_run_id c \<and> pa_workspace (ar_pending r) = cc_workspace c
     \<and> pa_integration_identity (ar_pending r) = cc_integration_identity c
     \<and> grant_scope grant = policy_scope (ar_effective_scope r)
     \<and> grant_integration_identity grant = cc_integration_identity c
     \<and> (case ar_effective_scope r of
          ExactCall \<Rightarrow> pa_tool_call_id (ar_pending r) = cc_tool_call_id c
            \<and> pa_tool (ar_pending r) = cc_tool c \<and> pa_input_hash (ar_pending r) = cc_input_hash c
        | ToolForRun \<Rightarrow> pa_tool (ar_pending r) = cc_tool c
        | CapabilityForRun \<Rightarrow> cc_capabilities c \<noteq> []
            \<and> set (cc_capabilities c) \<subseteq> set (pa_capabilities (ar_pending r)))"
proof -
  obtain g r where r: "r \<in> set requests" "ApprovalGrant_of r = Some g"
    and g: "scope_applies_except_identity g c" "ag_integration_identity g = cc_integration_identity c"
      "grant = RunGrant_matching (policy_scope (ag_scope g)) (ag_integration_identity g)"
    using assms by (auto simp: matching_grants_member grants_of_def set_map_filter)
  show ?thesis
  proof (rule bexI [OF _ r(1)])
    show "ar_state r = AS_Granted
     \<and> pa_run_id (ar_pending r) = cc_run_id c \<and> pa_workspace (ar_pending r) = cc_workspace c
     \<and> pa_integration_identity (ar_pending r) = cc_integration_identity c
     \<and> grant_scope grant = policy_scope (ar_effective_scope r)
     \<and> grant_integration_identity grant = cc_integration_identity c
     \<and> (case ar_effective_scope r of
          ExactCall \<Rightarrow> pa_tool_call_id (ar_pending r) = cc_tool_call_id c
            \<and> pa_tool (ar_pending r) = cc_tool c \<and> pa_input_hash (ar_pending r) = cc_input_hash c
        | ToolForRun \<Rightarrow> pa_tool (ar_pending r) = cc_tool c
        | CapabilityForRun \<Rightarrow> cc_capabilities c \<noteq> []
            \<and> set (cc_capabilities c) \<subseteq> set (pa_capabilities (ar_pending r)))"
      using r(2) g
      by (auto simp: ApprovalGrant_of_def scope_applies_except_identity_def RunGrant_matching_def
          list_all_iff split: if_splits approval_scope.splits)
  qed
qed

section \<open>A sample candidate\<close>

definition sample_candidate :: "nat candidate_call" where
  "sample_candidate =
     CandidateCall_new (RunId 1) (ToolCallId 2) (WorkspaceBinding_new None ''/work'')
       \<lparr>identity_id = ToolId ''fs.write'', identity_version = ToolVersion 1\<rparr>
       (InputHash (replicate 32 7))"

definition sample_granted :: "(nat, int \<times> int) approval_request list" where
  "sample_granted = (case sample_grant RemoteWrite ExactCall of Inr r \<Rightarrow> [r] | Inl e \<Rightarrow> [])"

lemma sample_granted_reachable: "\<forall>r\<in>set sample_granted. request_reachable offset_time r"
  using sample_grant_reachable by (auto simp: sample_granted_def split: sum.splits)

section \<open>Properties\<close>

text \<open>
  Identity drift is reported for exactly the grants that cover the call on every axis but the
  external identity, it names exactly the identity fields that changed, and there is at least one.
\<close>

theorem drift_reported_exactly:
  "d \<in> set (gm_identity_drifts (matching_grants_detailed grants c)) \<longleftrightarrow>
     (\<exists>g\<in>set grants. scope_applies_except_identity g c
        \<and> ag_integration_identity g \<noteq> cc_integration_identity c
        \<and> drift_approval_id d = ag_approval_id g \<and> drift_changed_fields d \<noteq> []
        \<and> d = drift_between (ag_approval_id g) (ag_integration_identity g)
                (cc_integration_identity c))"
proof -
  have "drift_changed_fields (drift_between i a b) \<noteq> []" if "a \<noteq> b" for i a b
    using that by (cases a; cases b) (auto simp: drift_between_def)
  then show ?thesis
    by (auto simp: matching_grants_detailed_eq set_map_filter drift_of_def match_candidate_def
        drift_between_def split: if_splits)
qed

text \<open>
  C2: From approval to execution: when the engine allows a remote-write or destructive call and its
  grants are those the matcher derived from the run's approval requests (each reachable),
  one of those requests was granted by a human for this recorded call, this tool at this version,
  this input hash, this run, workspace and external identity, with a decision at exactly that one
  call.
\<close>

theorem dangerous_allow_traces_to_exact_approval:
  assumes "\<forall>r\<in>set requests. request_reachable T r"
    and "req_grants q = matching_grants (grants_of requests) c"
    and "remote_or_destructive (PolicyRequest_risk q)"
    and "decision_verdict (evaluate e q) = Allow"
  shows "\<exists>r\<in>set requests. \<exists>d. ar_state r = AS_Granted \<and> ar_effective_scope r = ExactCall
     \<and> pa_run_id (ar_pending r) = cc_run_id c
     \<and> pa_workspace (ar_pending r) = cc_workspace c
     \<and> pa_tool_call_id (ar_pending r) = cc_tool_call_id c
     \<and> pa_tool (ar_pending r) = cc_tool c
     \<and> pa_input_hash (ar_pending r) = cc_input_hash c
     \<and> pa_integration_identity (ar_pending r) = cc_integration_identity c
     \<and> ar_decision r = Some d \<and> ad_verdict d = VerdictGranted \<and> ad_approval_id d = ar_id r
     \<and> ad_scope d = Some ExactCall"
proof -
  have "PolicyRequest_risk q \<noteq> Observe"
    using assms(3) by (auto simp: remote_or_destructive_iff less_eq_risk_level_def)
  then obtain g where "g \<in> set (matching_grants (grants_of requests) c)" "grant_scope g = GrantExactCall"
    using evaluate_allow_cases [OF assms(4)] assms(2,3)
    by (auto simp: grant_answers_def exact_only_def)
  then obtain r where r: "r \<in> set requests" "ar_state r = AS_Granted" "ar_effective_scope r = ExactCall"
    "pa_run_id (ar_pending r) = cc_run_id c" "pa_workspace (ar_pending r) = cc_workspace c"
    "pa_integration_identity (ar_pending r) = cc_integration_identity c"
    "pa_tool_call_id (ar_pending r) = cc_tool_call_id c" "pa_tool (ar_pending r) = cc_tool c"
    "pa_input_hash (ar_pending r) = cc_input_hash c"
    using matching_request [of g requests c] by auto
  moreover have "request_ok T r"
    using assms(1) r(1) request_reachable_ok by blast
  then obtain d where "ar_decision r = Some d" "ad_verdict d = VerdictGranted" "ad_approval_id d = ar_id r"
    "ad_scope d = Some ExactCall"
    using r(2,3) by (auto simp: request_ok_def Let_def stored_decision_ok_def
        split: option.splits approval_verdict.splits)
  ultimately show ?thesis
    by blast
qed

theorem dangerous_allow_traces_to_exact_approval_witness:
  "\<exists>r\<in>set sample_granted. pa_input_hash (ar_pending r) = cc_input_hash sample_candidate
     \<and> ar_effective_scope r = ExactCall"
proof -
  let ?q = "sample_policy_request RemoteWrite RequestFlags_default Interactive
      (matching_grants (grants_of sample_granted) sample_candidate)"
  have "req_grants ?q = matching_grants (grants_of sample_granted) sample_candidate"
    by (simp add: sample_policy_request_def)
  moreover have "remote_or_destructive (PolicyRequest_risk ?q)"
    "decision_verdict (evaluate sample_engine ?q) = Allow"
    by code_simp+
  ultimately show ?thesis
    using dangerous_allow_traces_to_exact_approval [OF sample_granted_reachable] by blast
qed

text \<open>
  No grant replays into another run or another workspace: a call of a run or workspace that no
  granted request of the list belongs to matches nothing and reports no drift.
\<close>

theorem grants_die_with_run_and_workspace:
  assumes "\<forall>r\<in>set requests. ar_state r = AS_Granted \<longrightarrow>
             pa_run_id (ar_pending r) \<noteq> cc_run_id c \<or> pa_workspace (ar_pending r) \<noteq> cc_workspace c"
  shows "matching_grants_detailed (grants_of requests) c
           = \<lparr>gm_grants = [], gm_identity_drifts = []\<rparr>"
proof -
  have none: "match_candidate g c = NotApplicable" if "g \<in> set (grants_of requests)" for g
    using that assms
    by (auto simp: grants_of_def set_map_filter ApprovalGrant_of_def match_candidate_def
        scope_applies_except_identity_def split: if_splits)
  have "List.map_filter (\<lambda>g. ApprovalGrant_matching g c) (grants_of requests) = []"
    "List.map_filter (drift_of c) (grants_of requests) = []"
    using none by (auto simp: List.map_filter_def filter_empty_conv ApprovalGrant_matching_def drift_of_def)
  then show ?thesis
    by (simp add: matching_grants_detailed_eq)
qed

theorem grants_die_with_run_and_workspace_witness:
  "matching_grants_detailed (grants_of sample_granted) (sample_candidate\<lparr>cc_run_id := RunId 2\<rparr>)
     = \<lparr>gm_grants = [], gm_identity_drifts = []\<rparr>"
proof (rule grants_die_with_run_and_workspace)
  have "list_all (\<lambda>r. pa_run_id (ar_pending r) \<noteq> RunId 2) sample_granted"
    by code_simp
  then show "\<forall>r\<in>set sample_granted. ar_state r = AS_Granted \<longrightarrow>
      pa_run_id (ar_pending r) \<noteq> cc_run_id (sample_candidate\<lparr>cc_run_id := RunId 2\<rparr>)
      \<or> pa_workspace (ar_pending r) \<noteq> cc_workspace (sample_candidate\<lparr>cc_run_id := RunId 2\<rparr>)"
    by (simp add: list_all_iff)
qed

end
