(* ===== verification/Approval_Gate.thy ===== *)
theory Approval_Gate
  imports Approval_Lifecycle
begin

text \<open>
  The rendezvous a call parks on while a human decides.

  Source: \<open>harkness-runtime/src/approval/gate.rs\<close>. Every operation holds the gate's mutex from
  its first read of the map \<open>waiting\<close> to its last write, so that part of it is one atomic step.
  \<open>resolve\<close> drops the mutex and only then calls \<open>notify_all\<close>, so it is two steps: it stores the
  answer, and later it notifies; any thread may run in between. \<open>wait\<close> is its loop body:
  \<open>gate_take\<close> under the lock, or the thread parks on the condition variable, which releases the
  lock. A woken or spuriously woken thread runs the body again.
\<close>

section \<open>Observations\<close>

record approval_observation =
  ob_approval_id :: approval_id
  ob_state :: approval_state
  ob_verdict :: approval_verdict
  ob_scope :: "approval_scope option"
  ob_reason :: "string option"

definition unanswered_reason :: "approval_state \<Rightarrow> string" where
  "unanswered_reason s =
     (case s of
        AS_Expired \<Rightarrow> ''the approval request expired before it was answered''
      | AS_Cancelled \<Rightarrow> ''the run was cancelled while the approval was pending''
      | AS_Superseded \<Rightarrow> ''the run will not resume, so the approval authorizes nothing''
      | _ \<Rightarrow> ''the approval was resolved without a decision'')"

definition ApprovalObservation_of :: "('w, 't) approval_request \<Rightarrow> approval_observation option" where
  "ApprovalObservation_of r =
     (if \<not> ApprovalState_is_terminal (ar_state r) then None
      else case (case ar_decision r of
                   Some d \<Rightarrow> (ad_verdict d, ad_scope d, ad_reason d)
                 | None \<Rightarrow> (VerdictDenied, None, Some (unanswered_reason (ar_state r)))) of
          (verdict, scope, reason) \<Rightarrow>
            Some \<lparr>ob_approval_id = ar_id r, ob_state = ar_state r, ob_verdict = verdict,
                  ob_scope = scope, ob_reason = reason\<rparr>)"

definition ApprovalObservation_is_granted :: "approval_observation \<Rightarrow> bool" where
  "ApprovalObservation_is_granted ob \<longleftrightarrow> ob_verdict ob = VerdictGranted"

section \<open>The gate\<close>

type_synonym gate = "approval_id \<rightharpoonup> approval_observation option"

definition ApprovalGate_new :: gate where
  "ApprovalGate_new = Map.empty"

definition gate_ticket :: "gate \<Rightarrow> approval_id \<Rightarrow> (gate \<times> approval_id) option" where
  "gate_ticket g i = (if g i \<noteq> None then None else Some (g(i \<mapsto> None), i))"

text \<open>
  The section \<open>resolve\<close> runs under the lock. The flag tells whether the resolver goes on to call
  \<open>notify_all\<close> after it has dropped the lock, or returns early.
\<close>

definition gate_resolve :: "gate \<Rightarrow> approval_observation \<Rightarrow> gate \<times> bool" where
  "gate_resolve g ob =
     (if g (ob_approval_id ob) = None then (g, False)
      else (g(ob_approval_id ob \<mapsto> Some ob), True))"

definition gate_resolve_from :: "gate \<Rightarrow> ('w, 't) approval_request \<Rightarrow> gate \<times> bool" where
  "gate_resolve_from g r =
     (case ApprovalObservation_of r of None \<Rightarrow> (g, False) | Some ob \<Rightarrow> gate_resolve g ob)"

definition gate_is_resolved :: "gate \<Rightarrow> approval_id \<Rightarrow> bool" where
  "gate_is_resolved g i = (case g i of Some (Some _) \<Rightarrow> True | _ \<Rightarrow> False)"

definition gate_is_waiting :: "gate \<Rightarrow> approval_id \<Rightarrow> bool" where
  "gate_is_waiting g i \<longleftrightarrow> g i \<noteq> None"

definition gate_forget :: "gate \<Rightarrow> approval_id \<Rightarrow> gate" where
  "gate_forget g i = g(i := None)"

text \<open>\<open>waiting.get_mut(&id).and_then(Option::take)\<close>: the answer leaves an empty slot behind.\<close>

definition gate_take :: "gate \<Rightarrow> approval_id \<Rightarrow> (gate \<times> approval_observation) option" where
  "gate_take g i = (case g i of Some (Some ob) \<Rightarrow> Some (g(i \<mapsto> None), ob) | _ \<Rightarrow> None)"

section \<open>The waiting threads\<close>

text \<open>
  \<open>Holding\<close>: a ticket exists and its thread runs outside the wait (before it, after a timeout
  handed the ticket back, or woken and about to check again). \<open>Parked\<close>: its thread sleeps on the
  condition variable. \<open>Returning\<close>: the answer was taken and the ticket is about to drop.
  \<open>gs_notifying\<close> holds the answers whose resolvers have stored them, dropped the lock and not
  yet called \<open>notify_all\<close>.
\<close>

datatype waiter = Holding | Parked | Returning approval_observation

record gate_system =
  gs_gate :: gate
  gs_waiters :: "approval_id \<rightharpoonup> waiter"
  gs_notifying :: "approval_observation list"
  gs_delivered :: "(approval_id \<times> approval_observation) list"
  gs_resolved :: "approval_observation list"

definition gate_initial :: gate_system where
  "gate_initial =
     \<lparr>gs_gate = ApprovalGate_new, gs_waiters = Map.empty, gs_notifying = [],
      gs_delivered = [], gs_resolved = []\<rparr>"

definition wake_all :: "(approval_id \<rightharpoonup> waiter) \<Rightarrow> approval_id \<rightharpoonup> waiter" where
  "wake_all w = (\<lambda>i. map_option (\<lambda>x. if x = Parked then Holding else x) (w i))"

text \<open>\<open>notify_all\<close>, the last statement of \<open>resolve\<close>, by the resolver of \<open>ob\<close>.\<close>

definition gate_notify :: "gate_system \<Rightarrow> approval_observation \<Rightarrow> gate_system" where
  "gate_notify s ob =
     s\<lparr>gs_waiters := wake_all (gs_waiters s), gs_notifying := remove1 ob (gs_notifying s)\<rparr>"

inductive gate_step :: "gate_system \<Rightarrow> gate_system \<Rightarrow> bool" where
  take_ticket: "gate_ticket (gs_gate s) i = Some (g, i) \<Longrightarrow>
    gate_step s (s\<lparr>gs_gate := g, gs_waiters := (gs_waiters s)(i \<mapsto> Holding)\<rparr>)"
| take_answer: "gs_waiters s i = Some Holding \<Longrightarrow> gate_take (gs_gate s) i = Some (g, ob) \<Longrightarrow>
    gate_step s (s\<lparr>gs_gate := g, gs_waiters := (gs_waiters s)(i \<mapsto> Returning ob)\<rparr>)"
| park: "gs_waiters s i = Some Holding \<Longrightarrow> gate_take (gs_gate s) i = None \<Longrightarrow>
    gate_step s (s\<lparr>gs_waiters := (gs_waiters s)(i \<mapsto> Parked)\<rparr>)"
| wake: "gs_waiters s i = Some Parked \<Longrightarrow>
    gate_step s (s\<lparr>gs_waiters := (gs_waiters s)(i \<mapsto> Holding)\<rparr>)"
| return_answer: "gs_waiters s i = Some (Returning ob) \<Longrightarrow>
    gate_step s (s\<lparr>gs_gate := gate_forget (gs_gate s) i, gs_waiters := (gs_waiters s)(i := None),
                  gs_delivered := gs_delivered s @ [(i, ob)]\<rparr>)"
| drop_ticket: "gs_waiters s i = Some Holding \<Longrightarrow>
    gate_step s (s\<lparr>gs_gate := gate_forget (gs_gate s) i, gs_waiters := (gs_waiters s)(i := None)\<rparr>)"
| resolve: "gate_resolve (gs_gate s) ob = (g, notify) \<Longrightarrow>
    gate_step s (s\<lparr>gs_gate := g,
                  gs_notifying := (if notify then gs_notifying s @ [ob] else gs_notifying s),
                  gs_resolved := gs_resolved s @ [ob]\<rparr>)"
| notify_waiters: "ob \<in> set (gs_notifying s) \<Longrightarrow> gate_step s (gate_notify s ob)"

inductive gate_reachable :: "gate_system \<Rightarrow> bool" where
  gate_start: "gate_reachable gate_initial"
| gate_next: "gate_reachable s \<Longrightarrow> gate_step s s' \<Longrightarrow> gate_reachable s'"

section \<open>Invariant\<close>

definition gate_inv :: "gate_system \<Rightarrow> bool" where
  "gate_inv s \<longleftrightarrow>
     (\<forall>i. gs_gate s i = None \<longleftrightarrow> gs_waiters s i = None)
     \<and> (\<forall>i ob. gs_waiters s i = Some Parked \<longrightarrow> gs_gate s i = Some (Some ob) \<longrightarrow>
          ob \<in> set (gs_notifying s))
     \<and> (\<forall>i ob. gs_gate s i = Some (Some ob) \<longrightarrow> ob_approval_id ob = i \<and> ob \<in> set (gs_resolved s))
     \<and> (\<forall>i ob. gs_waiters s i = Some (Returning ob) \<longrightarrow>
          ob_approval_id ob = i \<and> ob \<in> set (gs_resolved s))
     \<and> (\<forall>i ob. (i, ob) \<in> set (gs_delivered s) \<longrightarrow> ob_approval_id ob = i \<and> ob \<in> set (gs_resolved s))"

lemma wake_all_None [simp]: "wake_all w i = None \<longleftrightarrow> w i = None"
  by (auto simp: wake_all_def)

lemma wake_all_not_parked: "wake_all w i \<noteq> Some Parked"
  by (cases "w i") (auto simp: wake_all_def)

lemma wake_all_Returning [simp]: "wake_all w i = Some (Returning ob) \<longleftrightarrow> w i = Some (Returning ob)"
  by (cases "w i") (auto simp: wake_all_def)

lemma gate_take_Some:
  "gate_take g i = Some (g', ob) \<longleftrightarrow> g i = Some (Some ob) \<and> g' = g(i \<mapsto> None)"
  by (auto simp: gate_take_def split: option.splits)

lemma gate_take_None: "gate_take g i = None \<longleftrightarrow> (\<forall>ob. g i \<noteq> Some (Some ob))"
  by (auto simp: gate_take_def split: option.splits)

lemma gate_step_inv: "gate_step s s' \<Longrightarrow> gate_inv s \<Longrightarrow> gate_inv s'"
proof (induction rule: gate_step.induct)
  case (park s i)
  then show ?case
    by (auto simp: gate_inv_def gate_take_None)
next
  case (resolve s ob g notify)
  then show ?case
    by (auto simp: gate_inv_def gate_resolve_def split: if_splits)
next
  case (notify_waiters ob s)
  then show ?case
    using wake_all_not_parked [of "gs_waiters s"]
    by (auto simp: gate_inv_def gate_notify_def)
qed (auto simp: gate_inv_def gate_ticket_def gate_take_Some gate_forget_def split: if_splits)

lemma gate_reachable_inv: "gate_reachable s \<Longrightarrow> gate_inv s"
proof (induction rule: gate_reachable.induct)
  case gate_start
  show ?case
    by (simp add: gate_inv_def gate_initial_def ApprovalGate_new_def)
next
  case (gate_next s s')
  then show ?case
    using gate_step_inv by blast
qed

section \<open>A sample history\<close>

definition sample_observation :: approval_observation where
  "sample_observation =
     \<lparr>ob_approval_id = ApprovalId 9, ob_state = AS_Granted, ob_verdict = VerdictGranted,
      ob_scope = Some ExactCall, ob_reason = None\<rparr>"

text \<open>
  A ticket is taken, its thread parks, and the answer is stored: the thread sleeps on until the
  resolver notifies.
\<close>

definition sample_stored :: gate_system where
  "sample_stored =
     \<lparr>gs_gate = [ApprovalId 9 \<mapsto> Some sample_observation],
      gs_waiters = [ApprovalId 9 \<mapsto> Parked], gs_notifying = [sample_observation],
      gs_delivered = [], gs_resolved = [sample_observation]\<rparr>"

definition sample_gate :: gate_system where
  "sample_gate = gate_notify sample_stored sample_observation"

lemma sample_stored_reachable: "gate_reachable sample_stored"
proof -
  let ?i = "ApprovalId 9"
  let ?s1 = "gate_initial\<lparr>gs_gate := [?i \<mapsto> None], gs_waiters := [?i \<mapsto> Holding]\<rparr>"
  let ?s2 = "?s1\<lparr>gs_waiters := [?i \<mapsto> Parked]\<rparr>"
  have "gate_step gate_initial ?s1"
    using take_ticket [of gate_initial ?i "[?i \<mapsto> None]"]
    by (simp add: gate_initial_def ApprovalGate_new_def gate_ticket_def)
  then have 1: "gate_reachable ?s1"
    by (rule gate_next [OF gate_start])
  have "gate_step ?s1 ?s2"
    using park [of ?s1 ?i] by (simp add: gate_take_def)
  with 1 have 2: "gate_reachable ?s2"
    by (rule gate_next)
  have "gate_step ?s2 sample_stored"
    using resolve [of ?s2 sample_observation "[?i \<mapsto> Some sample_observation]" True]
    by (simp add: gate_resolve_def sample_observation_def gate_initial_def sample_stored_def)
  with 2 show ?thesis
    by (rule gate_next)
qed

lemma sample_gate_reachable: "gate_reachable sample_gate"
  unfolding sample_gate_def
  by (rule gate_next [OF sample_stored_reachable notify_waiters]) (simp add: sample_stored_def)

section \<open>Properties\<close>

text \<open>
  C13: No wake-up is lost and nothing leaks: whatever the interleaving of tickets, waits, timeouts,
  drops, stored answers and notifications, a thread sleeps over an answer only while the resolver
  that stored this very answer has still to notify, and that notification wakes it; once every
  resolver has notified, no thread sleeps over an answer. The gate holds an entry for exactly the
  tickets outstanding.
\<close>

theorem no_lost_wakeup:
  assumes "gate_reachable s"
  shows "(gs_waiters s i = Some Parked \<longrightarrow> gs_gate s i = Some (Some ob) \<longrightarrow>
        gate_step s (gate_notify s ob) \<and> gs_waiters (gate_notify s ob) i = Some Holding)
    \<and> (gs_notifying s = [] \<longrightarrow>
        \<not> (gs_waiters s i = Some Parked \<and> gate_is_resolved (gs_gate s) i))
    \<and> (gate_is_waiting (gs_gate s) i \<longleftrightarrow> gs_waiters s i \<noteq> None)"
  using gate_reachable_inv [OF assms]
  by (auto simp: gate_inv_def gate_is_resolved_def gate_is_waiting_def gate_notify_def wake_all_def
      intro: notify_waiters [unfolded gate_notify_def, unfolded wake_all_def] split: option.splits)

theorem no_lost_wakeup_witness:
  "gs_waiters sample_stored (ApprovalId 9) = Some Parked
   \<and> gate_step sample_stored sample_gate
   \<and> gs_waiters sample_gate (ApprovalId 9) = Some Holding
   \<and> gate_is_resolved (gs_gate sample_gate) (ApprovalId 9)"
  using no_lost_wakeup [OF sample_stored_reachable, of "ApprovalId 9" sample_observation]
  by (simp add: sample_gate_def sample_stored_def gate_is_resolved_def gate_notify_def)

text \<open>
  What a wait returns is an answer that was resolved for exactly the approval it waited for;
  and a waiter with an answer in its slot takes it at its next check without parking.
\<close>

theorem delivered_answers_are_resolved:
  assumes "gate_reachable s"
  shows "((i, ob) \<in> set (gs_delivered s) \<longrightarrow> ob_approval_id ob = i \<and> ob \<in> set (gs_resolved s))
    \<and> (gate_is_resolved (gs_gate s) i \<longrightarrow> gs_waiters s i = Some Holding \<longrightarrow>
         (\<exists>g ob. gate_take (gs_gate s) i = Some (g, ob)))"
  using gate_reachable_inv [OF assms]
  by (auto simp: gate_inv_def gate_is_resolved_def gate_take_Some split: option.splits)

theorem delivered_answers_are_resolved_witness:
  "\<exists>g ob. gate_take (gs_gate sample_gate) (ApprovalId 9) = Some (g, ob)"
  using delivered_answers_are_resolved [OF sample_gate_reachable, of "ApprovalId 9"]
  by (simp add: sample_gate_def sample_stored_def gate_notify_def wake_all_def
      gate_is_resolved_def)

text \<open>
  A resolved request yields an observation, a pending one none; the observation authorizes the
  waiting call exactly when the request was granted, and then it carries the granted scope. An
  expired, cancelled or superseded request is observed as a refusal with a reason.
\<close>

theorem observation_grants_iff_granted:
  assumes "request_reachable T r"
  shows "(ApprovalObservation_of r = None \<longleftrightarrow> ar_state r = AS_Pending)
    \<and> (\<forall>ob. ApprovalObservation_of r = Some ob \<longrightarrow>
         ob_approval_id ob = ar_id r \<and> ob_state ob = ar_state r
         \<and> (ApprovalObservation_is_granted ob \<longleftrightarrow> ar_state r = AS_Granted)
         \<and> (ar_state r = AS_Granted \<longrightarrow> ob_scope ob = Some (ar_effective_scope r))
         \<and> (ar_state r \<in> {AS_Expired, AS_Cancelled, AS_Superseded} \<longrightarrow>
              ob_verdict ob = VerdictDenied \<and> ob_reason ob \<noteq> None))"
  using request_reachable_ok [OF assms]
  by (cases "ar_decision r")
     (auto simp: ApprovalObservation_of_def ApprovalState_is_terminal_def
        ApprovalObservation_is_granted_def request_ok_def Let_def stored_decision_ok_def
        split: approval_verdict.splits)

theorem observation_grants_iff_granted_witness:
  "\<exists>r ob. sample_grant RemoteWrite ExactCall = Inr r \<and> ApprovalObservation_of r = Some ob
     \<and> ApprovalObservation_is_granted ob"
proof -
  obtain r where r: "sample_grant RemoteWrite ExactCall = Inr r"
    using sample_grant_ok(1) by (auto simp: is_ok_iff)
  then show ?thesis
    using observation_grants_iff_granted [OF sample_grant_reachable [OF r]] sample_grant_state [OF r]
    by auto
qed

end
