(* ===== verification/Approval_Canonical.thy ===== *)
theory Approval_Canonical
  imports Approval_Record
begin

text \<open>
  The canonical encoding of a tool input and the hash an exact-call grant is bound to.

  Source: \<open>harkness-runtime/src/approval/canonical.rs\<close>. The type parameter \<open>'n\<close> is
  \<open>serde_json::Number\<close>; its three readings and Rust's \<open>Debug\<close> text of a double are the record
  \<open>numbers\<close>, and the digest of the \<open>sha2\<close> crate is a function from the bytes absorbed. An object
  is the list of its entries, whose keys are distinct.
\<close>

section \<open>JSON values\<close>

datatype (json_numbers: 'n) json =
    Null
  | Bool bool
  | Number 'n
  | String string
  | Array "'n json list"
  | Object "(string \<times> 'n json) list"

record 'n numbers =
  as_u64 :: "'n \<Rightarrow> u64 option"
  as_i64 :: "'n \<Rightarrow> u64 option"
  as_f64 :: "'n \<Rightarrow> u64 option"
  debug_f64 :: "u64 \<Rightarrow> string"

text \<open>A double is its 64 bits; it is finite unless its eleven exponent bits are all set.\<close>

definition f64_is_finite :: "u64 \<Rightarrow> bool" where
  "f64_is_finite f \<longleftrightarrow> take_bit 11 (drop_bit 52 f) \<noteq> 2047"

section \<open>The encoding\<close>

definition NO_REPRESENTABLE_VALUE :: string where
  "NO_REPRESENTABLE_VALUE = ''it is a number with no representable value''"

definition NOT_FINITE :: string where
  "NOT_FINITE =
     ''it is not finite, and a non-finite number has no canonical JSON spelling''"

definition show_int :: "int \<Rightarrow> string" where
  "show_int i = (if i < 0 then CHR ''-'' # show_nat (nat (- i)) else show_nat (nat i))"

definition encode_double :: "'n numbers \<Rightarrow> u64 \<Rightarrow> string option" where
  "encode_double N f = (if f64_is_finite f then Some (debug_f64 N f) else None)"

definition write_number :: "'n numbers \<Rightarrow> string \<Rightarrow> 'n \<Rightarrow> string \<Rightarrow> 't approval_error + string" where
  "write_number N canonical number pointer =
     (case as_u64 N number of
        Some u \<Rightarrow> Inr (canonical @ show_int (uint u))
      | None \<Rightarrow>
          (case as_i64 N number of
             Some i \<Rightarrow> Inr (canonical @ show_int (sint i))
           | None \<Rightarrow>
               (case as_f64 N number of
                  None \<Rightarrow> Inl (UncanonicalizableInput pointer NO_REPRESENTABLE_VALUE)
                | Some f \<Rightarrow>
                    (case encode_double N f of
                       None \<Rightarrow> Inl (UncanonicalizableInput pointer NOT_FINITE)
                     | Some text \<Rightarrow> Inr (canonical @ text)))))"

text \<open>
  Every character \<open>write_string\<close> escapes is one byte, so it is written per byte; the bytes of a
  longer character are above U+007F and are copied.
\<close>

definition escape :: "char \<Rightarrow> string" where
  "escape c =
     (if c = CHR 0x22 then [CHR 0x5C, CHR 0x22]
      else if c = CHR 0x5C then [CHR 0x5C, CHR 0x5C]
      else if c = CHR 0x08 then [CHR 0x5C, CHR ''b'']
      else if c = CHR 0x0C then [CHR 0x5C, CHR ''f'']
      else if c = CHR 0x0A then [CHR 0x5C, CHR ''n'']
      else if c = CHR 0x0D then [CHR 0x5C, CHR ''r'']
      else if c = CHR 0x09 then [CHR 0x5C, CHR ''t'']
      else if c < CHR 0x20
      then CHR 0x5C # ''u00'' @ [hex_digit (drop_bit 4 (of_char c)), hex_digit (take_bit 4 (of_char c))]
      else [c])"

definition write_string :: "string \<Rightarrow> string \<Rightarrow> string" where
  "write_string canonical text =
     fold (\<lambda>c canonical. canonical @ escape c) text (canonical @ [CHR 0x22]) @ [CHR 0x22]"

definition escape_pointer_token :: "string \<Rightarrow> string" where
  "escape_pointer_token key =
     concat (map (\<lambda>c. if c = CHR ''/'' then ''~1'' else [c])
       (concat (map (\<lambda>c. if c = CHR ''~'' then ''~0'' else [c]) key)))"

text \<open>The entries of an object sorted by the bytes of their keys, each with its value.\<close>

definition sorted_fields :: "(string \<times> 'v) list \<Rightarrow> (string \<times> 'v) list" where
  "sorted_fields entries = sort_key fst entries"

lemma size_list_insort_key: "size_list g (insort_key f x xs) = Suc (g x + size_list g xs)"
  by (induction xs) auto

lemma size_list_sort_key: "size_list g (sort_key f xs) = size_list g xs"
  by (induction xs) (simp_all add: size_list_insort_key)

lemma size_sorted_fields: "size_list g (sorted_fields entries) = size_list g entries"
  by (simp add: sorted_fields_def size_list_sort_key)

text \<open>
  \<open>canonical\<close> and \<open>pointer\<close> are the two buffers the code appends to; \<open>truncate\<close> is \<open>take\<close>.
\<close>

function write_value ::
  "'n numbers \<Rightarrow> string \<Rightarrow> 'n json \<Rightarrow> string \<Rightarrow> 't approval_error + string \<times> string" and
  write_items ::
  "'n numbers \<Rightarrow> string \<Rightarrow> nat \<Rightarrow> 'n json list \<Rightarrow> string \<Rightarrow> 't approval_error + string \<times> string" and
  write_fields ::
  "'n numbers \<Rightarrow> string \<Rightarrow> nat \<Rightarrow> (string \<times> 'n json) list \<Rightarrow> string \<Rightarrow>
   't approval_error + string \<times> string" where
  "write_value N canonical Null pointer = Inr (canonical @ ''null'', pointer)"
| "write_value N canonical (Bool b) pointer =
     Inr (canonical @ (if b then ''true'' else ''false''), pointer)"
| "write_value N canonical (Number number) pointer =
     res_bind (write_number N canonical number pointer) (\<lambda>canonical. Inr (canonical, pointer))"
| "write_value N canonical (String text) pointer = Inr (write_string canonical text, pointer)"
| "write_value N canonical (Array items) pointer =
     res_bind (write_items N (canonical @ ''['') 0 items pointer)
       (\<lambda>(canonical, pointer). Inr (canonical @ '']'', pointer))"
| "write_value N canonical (Object entries) pointer =
     res_bind (write_fields N (canonical @ ''{'') 0 (sorted_fields entries) pointer)
       (\<lambda>(canonical, pointer). Inr (canonical @ ''}'', pointer))"
| "write_items N canonical index [] pointer = Inr (canonical, pointer)"
| "write_items N canonical index (item # items) pointer =
     (let canonical = (if 0 < index then canonical @ '','' else canonical);
          restore = length pointer
      in res_bind (write_value N canonical item (pointer @ ''/'' @ show_nat index))
           (\<lambda>(canonical, pointer).
              write_items N canonical (Suc index) items (take restore pointer)))"
| "write_fields N canonical index [] pointer = Inr (canonical, pointer)"
| "write_fields N canonical index ((key, field) # entries) pointer =
     (let canonical = (if 0 < index then canonical @ '','' else canonical);
          canonical = write_string canonical key @ '':'';
          restore = length pointer
      in res_bind (write_value N canonical field (pointer @ ''/'' @ escape_pointer_token key))
           (\<lambda>(canonical, pointer).
              write_fields N canonical (Suc index) entries (take restore pointer)))"
  by pat_completeness auto

termination
  by (relation "measure (\<lambda>x. case x of
        Inl (N, c, v, p) \<Rightarrow> size_json (\<lambda>n. 0) v
      | Inr (Inl (N, c, i, vs, p)) \<Rightarrow> size_list (size_json (\<lambda>n. 0)) vs
      | Inr (Inr (N, c, i, fs, p)) \<Rightarrow> size_list (size_prod (\<lambda>k. 0) (size_json (\<lambda>n. 0))) fs)")
     (auto simp: size_sorted_fields)

definition canonical_input :: "'n numbers \<Rightarrow> 'n json \<Rightarrow> 't approval_error + string" where
  "canonical_input N input =
     res_bind (write_value N [] input []) (\<lambda>(canonical, pointer). Inr canonical)"

section \<open>The hash\<close>

definition CANONICAL_INPUT_DOMAIN :: string where
  "CANONICAL_INPUT_DOMAIN = ''harkness.approval.canonical-input.v1''"

definition u64_to_le_bytes :: "u64 \<Rightarrow> string" where
  "u64_to_le_bytes w = map (\<lambda>i. char_of (uint (take_bit 8 (drop_bit (8 * i) w)))) [0..<8]"

text \<open>The hasher is the bytes it has absorbed; \<open>finalize\<close> is \<open>sha256\<close> of them.\<close>

definition absorb :: "string \<Rightarrow> string \<Rightarrow> string" where
  "absorb hasher bytes = hasher @ u64_to_le_bytes (of_nat (length bytes)) @ bytes"

definition canonical_input_hash ::
  "'n numbers \<Rightarrow> (string \<Rightarrow> 8 word list) \<Rightarrow> 'n json \<Rightarrow> 't approval_error + input_hash" where
  "canonical_input_hash N sha256 input =
     res_bind (canonical_input N input)
       (\<lambda>canonical. Inr (InputHash (sha256 (absorb (absorb [] CANONICAL_INPUT_DOMAIN) canonical))))"

end
