(* ===== verification/Canonical_Properties.thy ===== *)
theory Canonical_Properties
  imports Approval_Canonical Approval_Matcher
begin

text \<open>
  What the canonical encoding promises: it writes one text per value, two inputs share a text
  exactly when they are the same value, a refusal names the number that caused it, and so an
  input hash identifies the input up to a collision of the digest itself.
\<close>

section \<open>Spellings of integers\<close>

definition number_char :: "char \<Rightarrow> bool" where
  "number_char c \<longleftrightarrow> c \<in> set ''0123456789.e+-''"

definition digit_char :: "char \<Rightarrow> bool" where
  "digit_char c \<longleftrightarrow> c \<in> set ''0123456789''"

lemma digit_char_of: "n < 10 \<Longrightarrow> digit_char (char_of (48 + n :: nat))"
proof -
  have "list_all (\<lambda>n. digit_char (char_of (48 + n :: nat))) [0..<10]"
    by code_simp
  then show "n < 10 \<Longrightarrow> digit_char (char_of (48 + n))"
    by (simp add: list_all_iff)
qed

lemma show_nat_digits: "list_all digit_char (show_nat n)"
  by (induction n rule: show_nat.induct) (subst show_nat.simps, auto simp: digit_char_of)

lemma show_nat_nonempty [simp]: "show_nat n \<noteq> []"
  by (subst show_nat.simps) simp

lemma show_nat_value: "foldl (\<lambda>a c. 10 * a + (of_char c - 48)) 0 (show_nat n) = n"
  by (induction n rule: show_nat.induct) (subst show_nat.simps, auto)

lemma show_nat_inject: "show_nat m = show_nat n \<longleftrightarrow> m = n"
  by (metis show_nat_value)

lemma show_nat_no_minus: "show_nat n \<noteq> CHR ''-'' # s"
  using show_nat_digits [of n] by (auto simp: digit_char_def)

lemma show_int_inject: "show_int i = show_int j \<longleftrightarrow> i = j"
  using show_nat_no_minus [of "nat i" "show_nat (nat (- j))"]
    show_nat_no_minus [of "nat j" "show_nat (nat (- i))"]
  by (auto simp: show_int_def show_nat_inject)

lemma digit_char_number_char: "digit_char c \<Longrightarrow> number_char c"
  by (auto simp: digit_char_def number_char_def)

lemma show_int_chars: "list_all (\<lambda>c. digit_char c \<or> c = CHR ''-'') (show_int i)"
proof -
  have "list_all (\<lambda>c. digit_char c \<or> c = CHR ''-'') (show_nat n)" for n
    using show_nat_digits [of n] by (auto simp: list_all_iff)
  then show ?thesis
    by (simp add: show_int_def)
qed

lemma list_all_notin: "list_all P xs \<Longrightarrow> \<not> P c \<Longrightarrow> c \<notin> set xs"
  by (auto simp: list_all_iff)

lemma show_int_nonempty [simp]: "show_int i \<noteq> []"
  by (simp add: show_int_def)

section \<open>Escaping\<close>

fun unescape :: "string \<Rightarrow> (char \<times> string) option" where
  "unescape (a # r) =
     (if a \<noteq> CHR 0x5C then Some (a, r)
      else case r of
          [] \<Rightarrow> None
        | b # r \<Rightarrow>
            if b = CHR ''b'' then Some (CHR 0x08, r)
            else if b = CHR ''f'' then Some (CHR 0x0C, r)
            else if b = CHR ''n'' then Some (CHR 0x0A, r)
            else if b = CHR ''r'' then Some (CHR 0x0D, r)
            else if b = CHR ''t'' then Some (CHR 0x09, r)
            else if b = CHR ''u''
            then (case (nibble (r ! 2), nibble (r ! 3)) of
                    (Some x, Some y) \<Rightarrow> Some (char_of (unat (push_bit 4 x OR y)), drop 4 r)
                  | _ \<Rightarrow> None)
            else Some (b, r))"
| "unescape [] = None"

lemma unat_of_char: "unat (of_char c :: 8 word) = of_char c"
proof -
  have "unat (of_nat (of_char c) :: 8 word) = of_char c"
    by (simp add: unat_of_nat del: of_nat_of_char)
  then show ?thesis
    by (simp only: of_nat_of_char)
qed

lemma unescape_escape: "unescape (escape c @ r) = Some (c, r)"
  by (simp add: escape_def nibble_hex_digit halves_bound byte_halves unat_of_char
      numeral_2_eq_2 numeral_3_eq_3)

lemma escape_prefix_free: "escape c @ r = escape d @ s \<Longrightarrow> c = d \<and> r = s"
  by (metis unescape_escape option.inject prod.inject)

lemma escape_not_quote: "escape c \<noteq> []" "hd (escape c) \<noteq> CHR 0x22"
  by (auto simp: escape_def)

lemma quote_not_escape: "CHR 0x22 # t \<noteq> escape c @ s" "escape c @ s \<noteq> CHR 0x22 # t"
  by (auto simp: escape_def)

definition quote :: "string \<Rightarrow> string" where
  "quote t = CHR 0x22 # concat (map escape t) @ [CHR 0x22]"

lemma write_string_eq: "write_string canonical t = canonical @ quote t"
proof -
  have "fold (\<lambda>c canonical. canonical @ escape c) t s = s @ concat (map escape t)" for s
    by (induction t arbitrary: s) auto
  then show ?thesis
    by (simp add: write_string_def quote_def)
qed

lemma quote_prefix_free: "quote k @ r = quote l @ s \<Longrightarrow> k = l \<and> r = s"
proof -
  have "concat (map escape k) @ CHR 0x22 # r = concat (map escape l) @ CHR 0x22 # s \<Longrightarrow> k = l \<and> r = s"
  proof (induction k arbitrary: l)
    case Nil
    then show ?case
      by (cases l) (simp_all add: quote_not_escape)
  next
    case (Cons c k)
    then show ?case
      by (cases l) (auto simp: quote_not_escape dest!: escape_prefix_free)
  qed
  then show "quote k @ r = quote l @ s \<Longrightarrow> k = l \<and> r = s"
    by (simp add: quote_def)
qed

section \<open>The value behind an input\<close>

text \<open>
  \<open>meaning\<close> is what an input says: its numbers as they are read, its objects in key order.
  \<open>json_text\<close> writes a meaning without any buffer.
\<close>

datatype number_reading = Whole int | Double u64 | Unreadable

definition number_reading :: "'n numbers \<Rightarrow> 'n \<Rightarrow> number_reading" where
  "number_reading N n =
     (case as_u64 N n of
        Some u \<Rightarrow> Whole (uint u)
      | None \<Rightarrow> (case as_i64 N n of
            Some i \<Rightarrow> Whole (sint i)
          | None \<Rightarrow> (case as_f64 N n of Some f \<Rightarrow> Double f | None \<Rightarrow> Unreadable)))"

primrec representable :: "number_reading \<Rightarrow> bool" where
  "representable (Whole i) = True"
| "representable (Double f) = f64_is_finite f"
| "representable Unreadable = False"

primrec number_refusal :: "number_reading \<Rightarrow> string" where
  "number_refusal (Whole i) = []"
| "number_refusal (Double f) = NOT_FINITE"
| "number_refusal Unreadable = NO_REPRESENTABLE_VALUE"

primrec number_text :: "(u64 \<Rightarrow> string) \<Rightarrow> number_reading \<Rightarrow> string" where
  "number_text D (Whole i) = show_int i"
| "number_text D (Double f) = D f"
| "number_text D Unreadable = []"

fun meaning :: "'n numbers \<Rightarrow> 'n json \<Rightarrow> number_reading json" where
  "meaning N Null = Null"
| "meaning N (Bool b) = Bool b"
| "meaning N (Number n) = Number (number_reading N n)"
| "meaning N (String s) = String s"
| "meaning N (Array vs) = Array (map (meaning N) vs)"
| "meaning N (Object es) = Object (sort_key fst (map (\<lambda>(k, v). (k, meaning N v)) es))"

definition tails :: "string list \<Rightarrow> string" where
  "tails ts = concat (map ((#) CHR '','') ts)"

fun commas :: "string list \<Rightarrow> string" where
  "commas [] = []"
| "commas (t # ts) = t @ tails ts"

fun json_text :: "(u64 \<Rightarrow> string) \<Rightarrow> number_reading json \<Rightarrow> string" where
  "json_text D Null = ''null''"
| "json_text D (Bool b) = (if b then ''true'' else ''false'')"
| "json_text D (Number r) = number_text D r"
| "json_text D (String s) = quote s"
| "json_text D (Array vs) = ''['' @ commas (map (json_text D) vs) @ '']''"
| "json_text D (Object es) =
     ''{'' @ commas (map (\<lambda>(k, v). quote k @ '':'' @ json_text D v) es) @ ''}''"

abbreviation field_text :: "(u64 \<Rightarrow> string) \<Rightarrow> string \<times> number_reading json \<Rightarrow> string" where
  "field_text D \<equiv> (\<lambda>(k, v). quote k @ '':'' @ json_text D v)"

definition all_representable :: "'n numbers \<Rightarrow> 'n json \<Rightarrow> bool" where
  "all_representable N v \<longleftrightarrow> (\<forall>n\<in>json_numbers v. representable (number_reading N n))"

lemma all_representable_simps [simp]:
  "all_representable N Null"
  "all_representable N (Bool b)"
  "all_representable N (String s)"
  "all_representable N (Number n) \<longleftrightarrow> representable (number_reading N n)"
  "all_representable N (Array vs) \<longleftrightarrow> (\<forall>v\<in>set vs. all_representable N v)"
  "all_representable N (Object es) \<longleftrightarrow> (\<forall>e\<in>set es. all_representable N (snd e))"
  by (auto simp: all_representable_def)

lemma set_sorted_fields [simp]: "set (sorted_fields es) = set es"
  by (simp add: sorted_fields_def)

lemma sorted_fields_map:
  "sort_key fst (map (\<lambda>(k, v). (k, f v)) es) = map (\<lambda>(k, v). (k, f v)) (sorted_fields es)"
proof -
  have "insort_key fst (k, f v) (map (\<lambda>(k, v). (k, f v)) xs)
        = map (\<lambda>(k, v). (k, f v)) (insort_key fst (k, v) xs)" for k v xs
    by (induction xs) auto
  note insort = this
  show ?thesis
    unfolding sorted_fields_def by (induction es) (auto simp: insort)
qed

lemma write_number_eq:
  "write_number N canonical n pointer =
     (if representable (number_reading N n)
      then Inr (canonical @ number_text (debug_f64 N) (number_reading N n))
      else Inl (UncanonicalizableInput pointer (number_refusal (number_reading N n))))"
  by (auto simp: write_number_def number_reading_def encode_double_def split: option.splits)

text \<open>On representable numbers the buffers end as the text of the meaning and the old pointer.\<close>

lemma write_value_text:
  "all_representable N v \<Longrightarrow>
     (write_value N c v p :: 't approval_error + _) =
       Inr (c @ json_text (debug_f64 N) (meaning N v), p)"
  "list_all (all_representable N) vs \<Longrightarrow>
     (write_items N c i vs p :: 't approval_error + _) =
       Inr (c @ (if 0 < i then tails else commas) (map (json_text (debug_f64 N) \<circ> meaning N) vs), p)"
  "list_all (all_representable N \<circ> snd) es \<Longrightarrow>
     (write_fields N c i es p :: 't approval_error + _) =
       Inr (c @ (if 0 < i then tails else commas)
                  (map (\<lambda>(k, v). quote k @ '':'' @ json_text (debug_f64 N) (meaning N v)) es), p)"
proof (induction N c v p and N c i vs p and N c i es p rule: write_value_write_items_write_fields.induct)
  case (6 N c es p)
  then show ?case
    by (simp add: sorted_fields_map [unfolded split_beta'] list_all_iff comp_def split_beta')
qed (auto simp: write_number_eq write_string_eq list_all_iff tails_def Let_def split: if_splits)

section \<open>One text, one meaning\<close>

text \<open>
  What Rust documents of the \<open>Debug\<close> text of a finite double: a decimal that reads back as the
  same double, with a point or an exponent.
\<close>

definition debug_f64_law :: "(u64 \<Rightarrow> string) \<Rightarrow> bool" where
  "debug_f64_law D \<longleftrightarrow>
     (\<forall>f. f64_is_finite f \<longrightarrow> list_all number_char (D f) \<and> (CHR ''.'' \<in> set (D f) \<or> CHR ''e'' \<in> set (D f)))
     \<and> inj_on D {f. f64_is_finite f}"

definition good :: "number_reading json \<Rightarrow> bool" where
  "good x \<longleftrightarrow> (\<forall>r\<in>json_numbers x. representable r)"

lemma good_simps [simp]:
  "good (Number r) \<longleftrightarrow> representable r"
  "good (Array vs) \<longleftrightarrow> (\<forall>v\<in>set vs. good v)"
  "good (Object es) \<longleftrightarrow> (\<forall>e\<in>set es. good (snd e))"
  by (auto simp: good_def)

lemma good_meaning: "all_representable N v \<Longrightarrow> good (meaning N v)"
  by (induction N v rule: meaning.induct) (auto simp: good_def)

text \<open>A text is followed by nothing, or by what separates or closes values.\<close>

definition closes :: "string \<Rightarrow> bool" where
  "closes r \<longleftrightarrow> r = [] \<or> hd r \<in> set '',]}''"

lemma closes_simps [simp]:
  "closes []" "closes (c # r) \<longleftrightarrow> c \<in> set '',]}''"
  by (simp_all add: closes_def)

lemma closes_tails [simp]: "closes (tails ts @ c # r) \<longleftrightarrow> ts \<noteq> [] \<or> closes (c # r)"
  by (cases ts) (simp_all add: tails_def)

lemma number_text_chars:
  assumes "debug_f64_law D" "representable x"
  shows "list_all number_char (number_text D x) \<and> number_text D x \<noteq> []"
proof (cases x)
  case (Whole i)
  then show ?thesis
    using show_int_chars [of i] by (auto simp: list_all_iff digit_char_number_char number_char_def [of "CHR ''-''"])
qed (use assms in \<open>auto simp: debug_f64_law_def\<close>)

lemma number_text_inject:
  assumes "debug_f64_law D" "representable x" "representable y"
  shows "number_text D x = number_text D y \<longleftrightarrow> x = y"
proof -
  have "CHR ''.'' \<notin> set (show_int i)" "CHR ''e'' \<notin> set (show_int i)" for i
    by (rule list_all_notin [OF show_int_chars], simp add: digit_char_def)+
  then have "show_int i \<noteq> D f" if "f64_is_finite f" for i f
    using that assms(1) unfolding debug_f64_law_def by metis
  moreover have "D f = D g \<longleftrightarrow> f = g" if "f64_is_finite f" "f64_is_finite g" for f g
    using that assms(1) by (auto simp: debug_f64_law_def dest: inj_onD)
  ultimately show ?thesis
    using assms(2,3) by (cases x; cases y) (auto simp: show_int_inject dest: sym)
qed

lemma prefix_of_chars:
  assumes "list_all P t" "list_all P u" "t @ r = u @ s"
    and "r = [] \<or> \<not> P (hd r)" "s = [] \<or> \<not> P (hd s)"
  shows "t = u \<and> r = s"
proof -
  have "takeWhile P (t @ r) = t" if "list_all P t" "r = [] \<or> \<not> P (hd r)" for t r
    using that by (cases r) (auto simp: list_all_iff takeWhile_append2 takeWhile_eq_Nil_iff)
  with assms have "t = u"
    by metis
  with assms(3) show ?thesis
    by simp
qed

lemma closes_not_number: "closes r \<Longrightarrow> r = [] \<or> \<not> number_char (hd r)"
  by (auto simp: closes_def number_char_def)

lemma number_prefix_free:
  assumes "debug_f64_law D" "representable x" "representable y" "closes r" "closes s"
    and "number_text D x @ r = number_text D y @ s"
  shows "x = y \<and> r = s"
  using prefix_of_chars [of number_char "number_text D x" "number_text D y" r s] assms
  by (simp add: number_text_chars number_text_inject closes_not_number)

text \<open>The first character of a text tells the constructor.\<close>

primrec shape :: "'r json \<Rightarrow> char" where
  "shape Null = CHR ''n''"
| "shape (Bool b) = (if b then CHR ''t'' else CHR ''f'')"
| "shape (Number r) = CHR ''0''"
| "shape (String t) = CHR 0x22"
| "shape (Array vs) = CHR ''[''"
| "shape (Object es) = CHR ''{''"

definition shape_char :: "char \<Rightarrow> char" where
  "shape_char c = (if number_char c then CHR ''0'' else c)"

lemma json_text_first:
  assumes "debug_f64_law D" "good x"
  shows "json_text D x \<noteq> []" "shape_char (hd (json_text D x)) = shape x"
proof -
  have "list_all number_char t \<Longrightarrow> t \<noteq> [] \<Longrightarrow> number_char (hd t)" for t
    by (cases t) auto
  with assms number_text_chars [OF assms(1)]
  show "json_text D x \<noteq> []" "shape_char (hd (json_text D x)) = shape x"
    by (cases x; simp add: shape_char_def number_char_def quote_def)+
qed

lemma json_text_starts:
  assumes "debug_f64_law D" "good x"
  shows "hd (json_text D x @ r) \<notin> set '',]}''"
proof
  assume "hd (json_text D x @ r) \<in> set '',]}''"
  with json_text_first [OF assms] have "shape x \<in> set '',]}''"
    by (auto simp: shape_char_def number_char_def split: if_splits)
  then show False
    by (cases x) (auto split: if_splits)
qed

lemma tails_prefix_free:
  assumes "\<And>x y r s. x \<in> set xs \<Longrightarrow> y \<in> set ys \<Longrightarrow> closes r \<Longrightarrow> closes s \<Longrightarrow>
      e x @ r = e y @ s \<Longrightarrow> x = y \<and> r = s"
    and "c \<in> set '']}''" "tails (map e xs) @ c # r = tails (map e ys) @ c # s"
  shows "xs = ys \<and> r = s"
  using assms
proof (induction xs arbitrary: ys)
  case Nil
  then show ?case
    by (cases ys) (auto simp: tails_def)
next
  case (Cons x xs)
  show ?case
  proof (cases ys)
    case Nil
    with Cons.prems show ?thesis
      by (auto simp: tails_def)
  next
    case (Cons y zs)
    with Cons.prems have "e x @ tails (map e xs) @ c # r = e y @ tails (map e zs) @ c # s"
      by (simp add: tails_def)
    then have "x = y \<and> tails (map e xs) @ c # r = tails (map e zs) @ c # s"
      using Cons.prems(2) Cons by (intro Cons.prems(1)) auto
    with Cons.IH [of zs] Cons.prems(1,2) Cons show ?thesis
      by auto
  qed
qed

lemma commas_prefix_free:
  assumes "\<And>x y r s. x \<in> set xs \<Longrightarrow> y \<in> set ys \<Longrightarrow> closes r \<Longrightarrow> closes s \<Longrightarrow>
      e x @ r = e y @ s \<Longrightarrow> x = y \<and> r = s"
    and starts: "\<And>x r. x \<in> set xs \<union> set ys \<Longrightarrow> hd (e x @ r) \<notin> set '',]}''"
    and c: "c \<in> set '']}''" and eq: "commas (map e xs) @ c # r = commas (map e ys) @ c # s"
  shows "xs = ys \<and> r = s"
proof (cases "xs = [] \<or> ys = []")
  case True
  have "commas (map e zs) @ c # t \<noteq> c # u" if "zs \<noteq> []" "set zs \<subseteq> set xs \<union> set ys" for zs t u
    using that starts [of "hd zs"] c by (cases zs) (force dest: arg_cong [of _ _ hd])+
  with True eq show ?thesis
    by (metis (no_types, lifting) Un_upper1 Un_upper2 append_Nil commas.simps(1) list.inject list.simps(8))
next
  case False
  then have "tails (map e xs) @ c # r = tails (map e ys) @ c # s"
    using eq by (auto simp: neq_Nil_conv tails_def)
  from tails_prefix_free [OF assms(1) c this] show ?thesis .
qed

lemma same_shape:
  assumes "debug_f64_law D" "good x" "good y" "closes r" "closes s"
    and "json_text D x @ r = json_text D y @ s"
  shows "shape x = shape y"
  using json_text_first [OF assms(1)] assms(2,3,6) by (metis hd_append2)

lemma json_prefix_free:
  assumes D: "debug_f64_law D"
  shows "good x \<Longrightarrow> good y \<Longrightarrow> closes r \<Longrightarrow> closes s \<Longrightarrow> json_text D x @ r = json_text D y @ s \<Longrightarrow>
    x = y \<and> r = s"
proof (induction x arbitrary: y r s)
  case Null
  moreover from this have "shape (Null :: number_reading json) = shape y"
    by (rule same_shape [OF D])
  ultimately show ?case
    by (cases y) (auto split: if_splits)
next
  case (Bool b)
  moreover from this have "shape (Bool b :: number_reading json) = shape y"
    by (rule same_shape [OF D])
  ultimately show ?case
    by (cases y) (auto split: if_splits)
next
  case (Number n)
  moreover from this have "shape (Number n) = shape y"
    by (rule same_shape [OF D])
  ultimately show ?case
    by (cases y) (auto dest: number_prefix_free [OF D] split: if_splits)
next
  case (String t)
  moreover from this have "shape (String t :: number_reading json) = shape y"
    by (rule same_shape [OF D])
  ultimately show ?case
    by (cases y) (auto dest: quote_prefix_free split: if_splits)
next
  case (Array vs)
  moreover from Array.prems have "shape (Array vs) = shape y"
    by (rule same_shape [OF D])
  ultimately obtain ws where y: "y = Array ws"
    by (cases y) (auto split: if_splits)
  have "vs = ws \<and> r = s"
  proof (rule commas_prefix_free [of vs ws "json_text D" "CHR '']''" r s])
    show "a = b \<and> t = u" if "a \<in> set vs" "b \<in> set ws" "closes t" "closes u"
      "json_text D a @ t = json_text D b @ u" for a b t u
      using Array.IH [of a b t u] Array.prems(1,2) that y by auto
    show "hd (json_text D x @ r) \<notin> set '',]}''" if "x \<in> set vs \<union> set ws" for x r
      using that Array.prems(1,2) y by (intro json_text_starts [OF D]) auto
  qed (use Array y in auto)
  with y show ?case
    by simp
next
  case (Object es)
  moreover from Object.prems have "shape (Object es) = shape y"
    by (rule same_shape [OF D])
  ultimately obtain fs where y: "y = Object fs"
    by (cases y) (auto split: if_splits)
  have "es = fs \<and> r = s"
  proof (rule commas_prefix_free [of es fs "field_text D" "CHR ''}''" r s])
    show "hd (field_text D x @ r) \<notin> set '',]}''" for x r
      by (simp add: quote_def split: prod.splits)
    show "a = b \<and> t = u" if "a \<in> set es" "b \<in> set fs" "closes t" "closes u"
      "field_text D a @ t = field_text D b @ u" for a b t u
    proof -
      obtain k v l w where ab: "a = (k, v)" "b = (l, w)"
        by (metis surj_pair)
      with that(5) have "quote k @ CHR '':'' # json_text D v @ t = quote l @ CHR '':'' # json_text D w @ u"
        by simp
      then have "k = l \<and> json_text D v @ t = json_text D w @ u"
        by (blast dest: quote_prefix_free)
      moreover have "good v" "good w"
        using Object.prems(1,2) that(1,2) y ab by force+
      ultimately show ?thesis
        using Object.IH [of a v w t u] that(1,3,4) ab by auto
    qed
  qed (use Object y in auto)
  with y show ?case
    by simp
qed

section \<open>Refusals\<close>

text \<open>
  An RFC 6901 pointer as its tokens: \<open>walk\<close> follows them, \<open>pointer_text\<close> spells them.
\<close>

fun walk :: "string list \<Rightarrow> 'n json \<Rightarrow> 'n json option" where
  "walk [] v = Some v"
| "walk (t # ts) (Array vs) =
     (case find (\<lambda>i. show_nat i = t) [0..<length vs] of
        Some i \<Rightarrow> walk ts (vs ! i)
      | None \<Rightarrow> None)"
| "walk (t # ts) (Object es) = (case map_of es t of Some v \<Rightarrow> walk ts v | None \<Rightarrow> None)"
| "walk (t # ts) v = None"

definition pointer_text :: "string list \<Rightarrow> string" where
  "pointer_text ts = concat (map (\<lambda>t. ''/'' @ escape_pointer_token t) ts)"

fun distinct_keys :: "'n json \<Rightarrow> bool" where
  "distinct_keys (Array vs) = (\<forall>v\<in>set vs. distinct_keys v)"
| "distinct_keys (Object es) = (distinct (map fst es) \<and> (\<forall>(k, v)\<in>set es. distinct_keys v))"
| "distinct_keys v = True"

lemma digits_need_no_escape: "list_all digit_char t \<Longrightarrow> escape_pointer_token t = t"
  by (induction t) (auto simp: escape_pointer_token_def digit_char_def)

lemma walk_index: "i < length vs \<Longrightarrow> walk (show_nat i # ts) (Array vs) = walk ts (vs ! i)"
proof -
  assume i: "i < length vs"
  have "find (\<lambda>j. show_nat j = show_nat i) [0..<length vs] = Some i"
    using i by (simp add: show_nat_inject find_Some_iff) (intro exI [of _ i], auto)
  then show ?thesis
    by simp
qed

definition refused_at :: "'n numbers \<Rightarrow> 'n json \<Rightarrow> string \<Rightarrow> string \<Rightarrow> 't approval_error \<Rightarrow> bool" where
  "refused_at N v p q e \<longleftrightarrow>
     (\<exists>ts n. e = UncanonicalizableInput (p @ q @ pointer_text ts) (number_refusal (number_reading N n))
        \<and> walk ts v = Some (Number n) \<and> \<not> representable (number_reading N n))"

lemma refused_at_shift: "refused_at N v (p @ q) [] e \<longleftrightarrow> refused_at N v p q e"
  by (simp add: refused_at_def)

lemma write_value_pointer:
  "(write_value N c v p :: 't approval_error + _) = Inr (c', p') \<Longrightarrow> p' = p"
  "(write_items N c i vs p :: 't approval_error + _) = Inr (c', p') \<Longrightarrow> p' = p"
  "(write_fields N c i es p :: 't approval_error + _) = Inr (c', p') \<Longrightarrow> p' = p"
proof (induction N c v p and N c i vs p and N c i es p arbitrary: c' p' and c' p' and c' p'
    rule: write_value_write_items_write_fields.induct)
  case (8 N c i v vs p)
  then obtain c1 p1 where
        "(write_value N (if 0 < i then c @ '','' else c) v (p @ ''/'' @ show_nat i)
          :: 't approval_error + _) = Inr (c1, p1)"
      and rest: "(write_items N c1 (Suc i) vs (take (length p) p1) :: 't approval_error + _) = Inr (c', p')"
    by (auto simp: res_bind_Inr_iff Let_def split del: if_split)
  from 8(1) [OF refl refl this(1)] 8(2) [OF refl refl rest] show ?case
    by simp
next
  case (10 N c i k v es p)
  then obtain c1 p1 where
        "(write_value N (write_string (if 0 < i then c @ '','' else c) k @ '':'') v
           (p @ ''/'' @ escape_pointer_token k) :: 't approval_error + _) = Inr (c1, p1)"
      and rest: "(write_fields N c1 (Suc i) es (take (length p) p1) :: 't approval_error + _) = Inr (c', p')"
    by (auto simp: res_bind_Inr_iff Let_def split del: if_split)
  from 10(1) [OF refl refl refl this(1)] 10(2) [OF refl refl refl rest] show ?case
    by simp
qed (auto simp: res_bind_Inr_iff)

lemma refused_in_array:
  "i < length vs \<Longrightarrow> refused_at N (vs ! i) p (''/'' @ show_nat i) e \<Longrightarrow> refused_at N (Array vs) p [] e"
  unfolding refused_at_def
  by (elim exE conjE, rule_tac x = "show_nat i # ts" in exI)
     (auto simp: pointer_text_def walk_index digits_need_no_escape show_nat_digits simp del: walk.simps(2))

lemma refused_in_object:
  "map_of es k = Some v \<Longrightarrow> refused_at N v p (''/'' @ escape_pointer_token k) e \<Longrightarrow>
   refused_at N (Object es) p [] e"
  unfolding refused_at_def
  by (elim exE conjE, rule_tac x = "k # ts" in exI) (auto simp: pointer_text_def)

lemma write_value_refusal:
  "write_value N c v p = Inl e \<Longrightarrow> distinct_keys v \<Longrightarrow> refused_at N v p [] e"
  "write_items N c i vs p = Inl e \<Longrightarrow> list_all distinct_keys vs \<Longrightarrow>
     \<exists>j<length vs. refused_at N (vs ! j) p (''/'' @ show_nat (i + j)) e"
  "write_fields N c i es p = Inl e \<Longrightarrow> list_all (distinct_keys \<circ> snd) es \<Longrightarrow>
     \<exists>(k, v)\<in>set es. refused_at N v p (''/'' @ escape_pointer_token k) e"
  for e :: "'t approval_error"
proof (induction N c v p and N c i vs p and N c i es p
    rule: write_value_write_items_write_fields.induct)
  case (3 N c n p)
  have "walk [] (Number n) = Some (Number n)"
    by simp
  with 3 show ?case
    by (auto simp: res_bind_Inl_iff write_number_eq refused_at_def pointer_text_def split: if_splits
        intro!: exI [of _ "[]"])
next
  case (5 N c vs p)
  then show ?case
    by (auto simp: res_bind_Inl_iff list_all_iff intro: refused_in_array)
next
  case (6 N c es p)
  then obtain k v where "(k, v) \<in> set es" "refused_at N v p (''/'' @ escape_pointer_token k) e"
    by (auto simp: res_bind_Inl_iff list_all_iff case_prod_unfold)
  with 6 show ?case
    by (auto intro: refused_in_object)
next
  case (8 N c i v vs p)
  let ?c = "if 0 < i then c @ '','' else c"
  show ?case
  proof (cases "write_value N ?c v (p @ ''/'' @ show_nat i) :: 't approval_error + _")
    case (Inl e')
    with 8(3) have "write_value N ?c v (p @ ''/'' @ show_nat i) = Inl e"
      by (simp add: Let_def split del: if_split)
    from 8(1) [OF refl refl this] 8(4) have "refused_at N v p (''/'' @ show_nat i) e"
      by (simp only: refused_at_shift list.pred_inject(2))
    then show ?thesis
      by (intro exI [of _ 0]) simp
  next
    case (Inr cp)
    then obtain c1 where c1: "cp = (c1, p @ ''/'' @ show_nat i)"
      by (metis surj_pair write_value_pointer(1))
    with Inr 8(3) have "write_items N c1 (Suc i) vs p = Inl e"
      by (simp add: Let_def split del: if_split)
    with 8(2) [of ?c "length p" c1 "p @ ''/'' @ show_nat i"] 8(4)
    obtain j where "j < length vs" "refused_at N (vs ! j) p (''/'' @ show_nat (Suc i + j)) e"
      by auto
    then show ?thesis
      by (intro exI [of _ "Suc j"]) auto
  qed
next
  case (10 N c i k v es p)
  let ?c = "write_string (if 0 < i then c @ '','' else c) k @ '':''"
  show ?case
  proof (cases "write_value N ?c v (p @ ''/'' @ escape_pointer_token k) :: 't approval_error + _")
    case (Inl e')
    with 10(3) have "write_value N ?c v (p @ ''/'' @ escape_pointer_token k) = Inl e"
      by (simp add: Let_def split del: if_split)
    from 10(1) [OF refl refl refl this] 10(4)
    have "refused_at N v p (''/'' @ escape_pointer_token k) e"
      by (simp only: refused_at_shift list.pred_inject(2) o_def snd_conv)
    then show ?thesis
      by auto
  next
    case (Inr cp)
    then obtain c1 where c1: "cp = (c1, p @ ''/'' @ escape_pointer_token k)"
      by (metis surj_pair write_value_pointer(1))
    with Inr 10(3) have "write_fields N c1 (Suc i) es p = Inl e"
      by (simp add: Let_def split del: if_split)
    with 10(2) [of _ ?c "length p" c1 "p @ ''/'' @ escape_pointer_token k"] 10(4) show ?thesis
      by (auto split del: if_split)
  qed
qed simp_all

section \<open>The promises of the encoding\<close>

lemma canonical_input_eq:
  "all_representable N v \<Longrightarrow> canonical_input N v = Inr (json_text (debug_f64 N) (meaning N v))"
  by (simp add: canonical_input_def write_value_text(1))

lemma canonical_input_refusal:
  "canonical_input N v = Inl e \<Longrightarrow> distinct_keys v \<Longrightarrow> refused_at N v [] [] e"
  by (auto simp: canonical_input_def res_bind_Inl_iff intro: write_value_refusal(1))

lemma write_value_accepts:
  "(write_value N c v p :: 't approval_error + _) = Inr x \<Longrightarrow> all_representable N v"
  "(write_items N c i vs p :: 't approval_error + _) = Inr x \<Longrightarrow> list_all (all_representable N) vs"
  "(write_fields N c i es p :: 't approval_error + _) = Inr x \<Longrightarrow>
     list_all (all_representable N \<circ> snd) es"
proof (induction N c v p and N c i vs p and N c i es p arbitrary: x and x and x
    rule: write_value_write_items_write_fields.induct)
  case (8 N c i v vs p)
  then show ?case
    by (cases x) (auto simp: res_bind_Inr_iff Let_def split del: if_split)
next
  case (10 N c i k v es p)
  then show ?case
    by (cases x) (auto simp: res_bind_Inr_iff Let_def split del: if_split)
qed (auto simp: res_bind_Inr_iff write_number_eq list_all_iff split: if_splits)

lemma canonical_input_accepts: "(canonical_input N v :: 't approval_error + _) = Inr s \<Longrightarrow> all_representable N v"
  by (auto simp: canonical_input_def res_bind_Inr_iff intro: write_value_accepts(1))

lemma canonical_input_Inr:
  "(canonical_input N v :: 't approval_error + _) = Inr s \<Longrightarrow> s = json_text (debug_f64 N) (meaning N v) \<and> good (meaning N v)"
  by (frule canonical_input_accepts) (simp add: canonical_input_eq good_meaning)

lemma json_text_inject:
  assumes "debug_f64_law D" "good x" "good y"
  shows "json_text D x = json_text D y \<longleftrightarrow> x = y"
  using json_prefix_free [OF assms, of "[]" "[]"] by auto

text \<open>A sample: integers below \<open>2 ^ 64\<close> as numbers, and every double printed with a point.\<close>

definition sample_numbers :: "int numbers" where
  "sample_numbers =
     \<lparr>as_u64 = (\<lambda>i. if 0 \<le> i \<and> i < 18446744073709551616 then Some (word_of_int i) else None),
      as_i64 = (\<lambda>i. None), as_f64 = (\<lambda>i. None), debug_f64 = (\<lambda>f. show_nat (unat f) @ ''.'')\<rparr>"

lemma sample_debug_law: "debug_f64_law (debug_f64 sample_numbers)"
proof -
  have "list_all number_char (show_nat n @ ''.'')" for n
    using show_nat_digits [of n] by (auto simp: list_all_iff digit_char_number_char number_char_def [of "CHR ''.''"])
  then show ?thesis
    by (simp add: debug_f64_law_def sample_numbers_def inj_on_def show_nat_inject
        word_unat_eq_iff)
qed

definition sample_input :: "int json" where
  "sample_input = Object [(''path'', String ''a/b''), (''lines'', Array [Number 12, Null])]"

definition sample_reordered :: "int json" where
  "sample_reordered = Object [(''lines'', Array [Number 12, Null]), (''path'', String ''a/b'')]"

definition sample_sha :: "string \<Rightarrow> 8 word list" where
  "sample_sha bytes = map of_char bytes"

text \<open>What the hasher has absorbed when it is finalized.\<close>

definition hashed_bytes :: "string \<Rightarrow> string" where
  "hashed_bytes canonical = absorb (absorb [] CANONICAL_INPUT_DOMAIN) canonical"

lemma hashed_bytes_inject: "hashed_bytes s = hashed_bytes t \<longleftrightarrow> s = t"
  by (auto simp: hashed_bytes_def absorb_def u64_to_le_bytes_def)

lemma canonical_input_hash_Inr:
  "(canonical_input_hash N sha v :: 't approval_error + _) = Inr h \<longleftrightarrow>
     (\<exists>s. (canonical_input N v :: 't approval_error + _) = Inr s \<and> h = InputHash (sha (hashed_bytes s)))"
  by (auto simp: canonical_input_hash_def res_bind_Inr_iff hashed_bytes_def)

text \<open>The digest does not confuse the bytes hashed for two inputs.\<close>

definition no_collision :: "'n numbers \<Rightarrow> (string \<Rightarrow> 8 word list) \<Rightarrow> 'n json \<Rightarrow> 'n json \<Rightarrow> bool" where
  "no_collision N sha a b \<longleftrightarrow>
     inj_on sha (hashed_bytes ` {json_text (debug_f64 N) (meaning N a), json_text (debug_f64 N) (meaning N b)})"

lemma input_hash_identifies_value:
  assumes "debug_f64_law (debug_f64 N)" "no_collision N sha a b"
    and "canonical_input_hash N sha a = (Inr h :: 't approval_error + _)"
    and "canonical_input_hash N sha b = (Inr k :: 't approval_error + _)"
  shows "h = k \<longleftrightarrow> meaning N a = meaning N b"
proof -
  obtain s t where s: "canonical_input N a = (Inr s :: 't approval_error + _)" "h = InputHash (sha (hashed_bytes s))"
    and t: "canonical_input N b = (Inr t :: 't approval_error + _)" "k = InputHash (sha (hashed_bytes t))"
    using assms(3,4) by (auto simp: canonical_input_hash_Inr)
  have st: "s = json_text (debug_f64 N) (meaning N a)" "t = json_text (debug_f64 N) (meaning N b)"
    "good (meaning N a)" "good (meaning N b)"
    using canonical_input_Inr [OF s(1)] canonical_input_Inr [OF t(1)] by blast+
  have "inj_on sha {hashed_bytes s, hashed_bytes t}"
    using assms(2) unfolding no_collision_def st(1,2) by (simp only: image_insert image_empty)
  from inj_on_eq_iff [OF this, of "hashed_bytes s" "hashed_bytes t"]
  have "h = k \<longleftrightarrow> hashed_bytes s = hashed_bytes t"
    by (simp add: s(2) t(2))
  also have "\<dots> \<longleftrightarrow> meaning N a = meaning N b"
    unfolding hashed_bytes_inject st(1,2) by (rule json_text_inject [OF assms(1) st(3,4)])
  finally show ?thesis .
qed

section \<open>Properties\<close>

text \<open>
  C35: Canonicalization either renders the value, every number in it being representable, or
  refuses it; then the pointer in the error leads to a number of the value that is not finite or
  cannot be read, and the reason is the one for that number.
\<close>

theorem canonical_input_refuses_exactly:
  assumes "distinct_keys v"
  shows "case canonical_input N v :: 't approval_error + string of
      Inr s \<Rightarrow> all_representable N v
    | Inl e \<Rightarrow> (\<exists>ts n. e = UncanonicalizableInput (pointer_text ts) (number_refusal (number_reading N n))
        \<and> walk ts v = Some (Number n) \<and> \<not> representable (number_reading N n))"
proof (cases "canonical_input N v :: 't approval_error + string")
  case (Inl e)
  with canonical_input_refusal [OF Inl assms] show ?thesis
    by (simp add: refused_at_def)
next
  case (Inr s)
  then show ?thesis
    by (simp add: canonical_input_accepts [OF Inr])
qed

lemma canonical_input_refuses_exactly_witness:
  "\<exists>ts n. (UncanonicalizableInput ''/path/1'' NO_REPRESENTABLE_VALUE :: int approval_error)
        = UncanonicalizableInput (pointer_text ts) (number_refusal (number_reading sample_numbers n))
      \<and> walk ts (Object [(''path'', Array [Null, Number (- 1)])]) = Some (Number n)
      \<and> \<not> representable (number_reading sample_numbers n)"
proof -
  let ?v = "Object [(''path'', Array [Null, Number (- 1 :: int)])]"
  have "distinct_keys ?v"
    by simp
  from canonical_input_refuses_exactly [OF this, of sample_numbers, where ?'t = int]
  have "case Inl (UncanonicalizableInput ''/path/1'' NO_REPRESENTABLE_VALUE) :: int approval_error + string of
      Inr s \<Rightarrow> all_representable sample_numbers ?v
    | Inl e \<Rightarrow> \<exists>ts n. e = UncanonicalizableInput (pointer_text ts) (number_refusal (number_reading sample_numbers n))
        \<and> walk ts ?v = Some (Number n) \<and> \<not> representable (number_reading sample_numbers n)"
  proof -
    have "canonical_input sample_numbers ?v
        = (Inl (UncanonicalizableInput ''/path/1'' NO_REPRESENTABLE_VALUE) :: int approval_error + string)"
      by code_simp
    with \<open>case _ of Inl e \<Rightarrow> _ e | Inr s \<Rightarrow> _\<close> show ?thesis
      by (simp only:)
  qed
  then show ?thesis
    by (simp only: sum.case)
qed

text \<open>
  C6: Two inputs have the same canonical text exactly when they are the same value, up to the
  order in which object keys were written and the spelling of numbers.
\<close>

theorem canonical_text_identifies_value:
  assumes "debug_f64_law (debug_f64 N)" "canonical_input N a = Inr s" "canonical_input N b = Inr t"
  shows "s = t \<longleftrightarrow> meaning N a = meaning N b"
  using canonical_input_Inr [OF assms(2)] canonical_input_Inr [OF assms(3)]
  by (simp add: json_text_inject [OF assms(1)])

lemma canonical_text_identifies_value_witness:
  "meaning sample_numbers sample_input = meaning sample_numbers sample_reordered"
proof -
  let ?t = "[CHR ''{'', CHR 0x22] @ ''lines'' @ [CHR 0x22] @ '':[12,null],'' @ [CHR 0x22] @ ''path''
    @ [CHR 0x22, CHR '':'', CHR 0x22] @ ''a/b'' @ [CHR 0x22, CHR ''}'']"
  have "canonical_input sample_numbers sample_input = (Inr ?t :: int approval_error + _)"
    "canonical_input sample_numbers sample_reordered = (Inr ?t :: int approval_error + _)"
    by code_simp+
  with canonical_text_identifies_value [OF sample_debug_law] show ?thesis
    by blast
qed

lemma sample_no_collision: "no_collision sample_numbers sample_sha a b"
proof -
  have "inj_on sample_sha S" for S
  proof (rule inj_onI)
    have byte: "(of_char c :: 8 word) = of_char d \<Longrightarrow> c = d" for c d
      using unat_of_char [of c] unat_of_char [of d] by (metis char_of_char)
    show "sample_sha s = sample_sha t \<Longrightarrow> s = t" for s t
      unfolding sample_sha_def by (rule map_injective) (auto simp: inj_on_def byte)
  qed
  then show ?thesis
    by (simp only: no_collision_def)
qed

text \<open>
  C5: A grant for one exact call that matches a later call was given, in the same run and
  workspace, to the same tool for the same value of the input.
\<close>

theorem exact_grant_covers_only_its_input:
  assumes "debug_f64_law (debug_f64 N)" "no_collision N sha approved observed"
    and "canonical_input_hash N sha approved = (Inr (ag_input_hash g) :: 't approval_error + input_hash)"
    and "canonical_input_hash N sha observed = (Inr (cc_input_hash c) :: 't approval_error + input_hash)"
    and "ag_scope g = ExactCall" "ApprovalGrant_matching g c = Some grant"
  shows "meaning N approved = meaning N observed \<and> ag_tool g = cc_tool c
    \<and> ag_tool_call_id g = cc_tool_call_id c \<and> ag_run_id g = cc_run_id c \<and> ag_workspace g = cc_workspace c"
proof -
  have "scope_applies_except_identity g c"
    using assms(6) by (auto simp: ApprovalGrant_matching_def match_candidate_def split: if_splits)
  then show ?thesis
    using assms(5) input_hash_identifies_value [OF assms(1-4)] by (simp add: scope_applies_except_identity_def)
qed

lemma exact_grant_covers_only_its_input_witness:
  "meaning sample_numbers sample_input = meaning sample_numbers sample_reordered"
proof -
  have "is_ok (canonical_input_hash sample_numbers sample_sha sample_input :: int approval_error + _)"
    "canonical_input_hash sample_numbers sample_sha sample_input
      = (canonical_input_hash sample_numbers sample_sha sample_reordered :: int approval_error + _)"
    by code_simp+
  then obtain h where h: "canonical_input_hash sample_numbers sample_sha sample_input = (Inr h :: int approval_error + _)"
    "canonical_input_hash sample_numbers sample_sha sample_reordered = (Inr h :: int approval_error + _)"
    by (auto simp: is_ok_iff)
  let ?c = "sample_candidate\<lparr>cc_input_hash := h\<rparr>"
  let ?g = "\<lparr>ag_approval_id = ApprovalId 1, ag_run_id = cc_run_id ?c,
    ag_tool_call_id = cc_tool_call_id ?c, ag_workspace = cc_workspace ?c, ag_tool = cc_tool ?c,
    ag_capabilities = [], ag_integration_identity = cc_integration_identity ?c, ag_input_hash = h,
    ag_scope = ExactCall\<rparr>"
  have "ApprovalGrant_matching ?g ?c
      = Some (RunGrant_matching GrantExactCall (cc_integration_identity ?c))"
    by (simp add: ApprovalGrant_matching_def match_candidate_def scope_applies_except_identity_def)
  then show ?thesis
    using exact_grant_covers_only_its_input [OF sample_debug_law sample_no_collision,
        where ?'t = int, of sample_input ?g sample_reordered ?c]
      h by simp
qed

end
