(* ===== verification/Scheduler.thy ===== *)
theory Scheduler
  imports Approval_Record "HOL-Library.Multiset"
begin

text \<open>
  The tool-call scheduler: per-workspace queues with a mutation slot and a read limit, a global
  process limit, claims, cancellation and shutdown.

  Source: \<open>harkness-runtime/src/schedule/scheduler.rs\<close>, \<open>workspace.rs\<close>, \<open>snapshot.rs\<close> and
  \<open>error.rs\<close>. An \<open>Arc<Workspace>\<close> is an index into \<open>sc_heap\<close>, so an object that left the map but
  is still referenced by a thread stays visible. A thread is the list of the atomic sections it
  still has to execute (\<open>task\<close>), one per lock section or atomic access of the code, and the
  scheduler interleaves the threads freely. A call body is one task (\<open>Body\<close>); what the executor
  does inside it is not modelled.
\<close>

section \<open>Workspace keys\<close>

datatype workspace_key = WorkspaceKey (key_project: project_id) (key_root: string)

primrec project_uuid :: "project_id \<Rightarrow> uuid" where
  "project_uuid (ProjectId u) = u"

text \<open>
  The derived order compares the project first and then the paths, which \<open>Path\<close> compares
  component by component.
\<close>

definition key_rank :: "workspace_key \<Rightarrow> uuid \<times> string list" where
  "key_rank k = (project_uuid (key_project k), split_on CHR ''/'' (key_root k))"

lemma split_on_ne' [simp]: "[] \<noteq> split_on c s"
  using split_on_ne [of c s] by (rule not_sym)

lemma split_on_inject: "split_on c s = split_on c t \<Longrightarrow> s = t"
proof (induction s arbitrary: t)
  case Nil
  then show ?case
    by (cases t) (auto split: if_splits list.splits)
next
  case (Cons a s)
  show ?case
  proof (cases t)
    case Nil
    with Cons.prems show ?thesis
      by (auto split: if_splits list.splits)
  next
    case (Cons b u)
    with Cons.prems Cons.IH [of u] show ?thesis
      by (cases "split_on c s"; cases "split_on c u") (auto split: if_splits)
  qed
qed

lemma key_rank_inject [simp]: "key_rank k = key_rank l \<longleftrightarrow> k = l"
proof
  assume "key_rank k = key_rank l"
  then show "k = l"
    by (cases k; cases l; cases "key_project k"; cases "key_project l")
       (auto simp: key_rank_def dest: split_on_inject)
qed simp

instantiation workspace_key :: linorder
begin

definition less_eq_workspace_key :: "workspace_key \<Rightarrow> workspace_key \<Rightarrow> bool" where
  "less_eq_workspace_key k l \<longleftrightarrow>
     fst (key_rank k) < fst (key_rank l)
     \<or> fst (key_rank k) = fst (key_rank l) \<and> snd (key_rank k) \<le> snd (key_rank l)"

definition less_workspace_key :: "workspace_key \<Rightarrow> workspace_key \<Rightarrow> bool" where
  "less_workspace_key k l \<longleftrightarrow> k \<le> l \<and> \<not> l \<le> (k :: workspace_key)"

instance
proof
  fix k l m :: workspace_key
  show "k < l \<longleftrightarrow> k \<le> l \<and> \<not> l \<le> k"
    by (simp add: less_workspace_key_def)
  show "k \<le> k"
    by (simp add: less_eq_workspace_key_def)
  show "k \<le> l \<Longrightarrow> l \<le> m \<Longrightarrow> k \<le> m"
    by (auto simp: less_eq_workspace_key_def)
  show "k \<le> l \<Longrightarrow> l \<le> k \<Longrightarrow> k = l"
    using key_rank_inject [of k l] by (auto simp: less_eq_workspace_key_def prod_eq_iff)
  show "k \<le> l \<or> l \<le> k"
    by (auto simp: less_eq_workspace_key_def)
qed

end

definition WorkspaceKey_new ::
  "(string \<Rightarrow> string + string) \<Rightarrow> (string \<Rightarrow> bool) \<Rightarrow> project_id \<Rightarrow> string \<Rightarrow>
   boundary_error + workspace_key" where
  "WorkspaceKey_new canonicalize is_dir project root =
     res_bind (canonical_root canonicalize is_dir root)
       (\<lambda>canonical. Inr (WorkspaceKey project canonical))"

section \<open>Calls\<close>

datatype 'w admission =
    AdmissionPending
  | AdmissionApproved string
  | BoundApproved string "'w tool_identity" input_hash

record workspace_metadata =
  wm_project_id :: project_id
  wm_canonical_root :: string

text \<open>A cancellation token is the address of its shared flag.\<close>

type_synonym token = nat

record 'w scheduled_call =
  sd_call :: tool_call_id
  sd_workspace :: workspace_key
  sd_risk :: risk_level
  sd_cancellation :: token
  sd_admission :: "'w admission"
  sd_workspace_metadata :: "workspace_metadata option"

definition ScheduledCall_new ::
  "tool_call_id \<Rightarrow> workspace_key \<Rightarrow> risk_level \<Rightarrow> token \<Rightarrow> 'w scheduled_call" where
  "ScheduledCall_new call workspace risk cancellation =
     \<lparr>sd_call = call, sd_workspace = workspace, sd_risk = risk, sd_cancellation = cancellation,
      sd_admission = AdmissionPending, sd_workspace_metadata = None\<rparr>"

datatype tool_error = ForbiddenPath string string

definition ScheduledCall_with_workspace_metadata ::
  "(string \<Rightarrow> string + string) \<Rightarrow> workspace_metadata \<Rightarrow> 'w scheduled_call \<Rightarrow>
   tool_error + 'w scheduled_call" where
  "ScheduledCall_with_workspace_metadata canonicalize metadata c =
     (if wm_project_id metadata \<noteq> key_project (sd_workspace c)
      then Inl (ForbiddenPath (wm_canonical_root metadata)
                  ''workspace metadata names a different catalog project'')
      else case canonicalize (wm_canonical_root metadata) of
          Inl error \<Rightarrow> Inl (ForbiddenPath (wm_canonical_root metadata)
                         (''the catalog workspace root is unavailable: '' @ error))
        | Inr canonical \<Rightarrow>
            if canonical \<noteq> key_root (sd_workspace c)
            then Inl (ForbiddenPath (wm_canonical_root metadata)
                        ''workspace metadata names a different canonical root'')
            else Inr (c\<lparr>sd_workspace_metadata := Some metadata\<rparr>))"

definition ScheduledCall_approved_by :: "string \<Rightarrow> 'w scheduled_call \<Rightarrow> 'w scheduled_call" where
  "ScheduledCall_approved_by decided_by c = c\<lparr>sd_admission := AdmissionApproved decided_by\<rparr>"

definition ScheduledCall_approved_with_binding ::
  "string \<Rightarrow> 'w tool_identity \<Rightarrow> input_hash \<Rightarrow> 'w scheduled_call \<Rightarrow> 'w scheduled_call" where
  "ScheduledCall_approved_with_binding decided_by tool hash c =
     c\<lparr>sd_admission := BoundApproved decided_by tool hash\<rparr>"

record 'w waiting =
  wt_dispatch :: u64
  wt_call :: tool_call_id
  wt_run :: run_id
  wt_root :: string
  wt_risk :: risk_level
  wt_spawns_processes :: bool
  wt_cancellation :: token
  wt_admission :: "'w admission"
  wt_workspace_metadata :: "workspace_metadata option"

text \<open>Which entry point of the executor a dispatched call goes through.\<close>

datatype 'w executor_call =
    ExecuteCall tool_call_id string token
  | Execute_with_metadata tool_call_id string workspace_metadata token
  | Execute_approved tool_call_id string string token
  | Execute_approved_with_metadata tool_call_id string string workspace_metadata token
  | Execute_bound tool_call_id string "'w tool_identity" input_hash string token
  | Execute_bound_with_metadata tool_call_id string "'w tool_identity" input_hash string
      workspace_metadata token

definition Inner_run :: "'w waiting \<Rightarrow> 'w executor_call" where
  "Inner_run w =
     (case wt_admission w of
        AdmissionPending \<Rightarrow>
          (case wt_workspace_metadata w of
             Some metadata \<Rightarrow>
               Execute_with_metadata (wt_call w) (wt_root w) metadata (wt_cancellation w)
           | None \<Rightarrow> ExecuteCall (wt_call w) (wt_root w) (wt_cancellation w))
      | AdmissionApproved decided_by \<Rightarrow>
          (case wt_workspace_metadata w of
             Some metadata \<Rightarrow>
               Execute_approved_with_metadata (wt_call w) decided_by (wt_root w) metadata
                 (wt_cancellation w)
           | None \<Rightarrow>
               Execute_approved (wt_call w) decided_by (wt_root w) (wt_cancellation w))
      | BoundApproved decided_by tool hash \<Rightarrow>
          (case wt_workspace_metadata w of
             Some metadata \<Rightarrow>
               Execute_bound_with_metadata (wt_call w) decided_by tool hash (wt_root w) metadata
                 (wt_cancellation w)
           | None \<Rightarrow>
               Execute_bound (wt_call w) decided_by tool hash (wt_root w) (wt_cancellation w)))"

section \<open>One workspace\<close>

definition WORKSPACE_QUEUE_CAPACITY :: nat where "WORKSPACE_QUEUE_CAPACITY = 64"
definition WORKSPACE_READ_CONCURRENCY :: nat where "WORKSPACE_READ_CONCURRENCY = 4"
definition MAX_PROCESS_CONCURRENCY :: nat where "MAX_PROCESS_CONCURRENCY = 4"

record running =
  rn_run :: run_id
  rn_cancellation :: token
  rn_mutating :: bool
  rn_holds_process :: bool

record 'w workspace_state =
  ws_queue :: "'w waiting list"
  ws_running :: "(u64 \<times> running) list"
  ws_waiting :: nat

definition WorkspaceState_default :: "'w workspace_state" where
  "WorkspaceState_default = \<lparr>ws_queue = [], ws_running = [], ws_waiting = 0\<rparr>"

definition ws_mutating :: "'w workspace_state \<Rightarrow> bool" where
  "ws_mutating ws = list_ex (\<lambda>e. rn_mutating (snd e)) (ws_running ws)"

definition ws_reads :: "'w workspace_state \<Rightarrow> nat" where
  "ws_reads ws = length (filter (\<lambda>e. \<not> rn_mutating (snd e)) (ws_running ws))"

definition ws_is_idle :: "'w workspace_state \<Rightarrow> bool" where
  "ws_is_idle ws \<longleftrightarrow> ws_queue ws = [] \<and> ws_running ws = [] \<and> ws_waiting ws = 0"

record process_limit =
  pl_capacity :: nat
  pl_in_use :: nat

definition ProcessLimit_new :: "nat \<Rightarrow> process_limit" where
  "ProcessLimit_new capacity = \<lparr>pl_capacity = max capacity 1, pl_in_use = 0\<rparr>"

definition default_process_limit :: "nat option \<Rightarrow> nat" where
  "default_process_limit available_parallelism =
     min (case available_parallelism of None \<Rightarrow> 1 | Some n \<Rightarrow> n) MAX_PROCESS_CONCURRENCY"

definition try_acquire :: "process_limit \<Rightarrow> bool \<times> process_limit" where
  "try_acquire p =
     (if pl_capacity p \<le> pl_in_use p then (False, p)
      else (True, p\<lparr>pl_in_use := pl_in_use p + 1\<rparr>))"

text \<open>\<open>saturating_sub\<close> on an unsigned integer is subtraction of naturals.\<close>

definition release_process :: "process_limit \<Rightarrow> process_limit" where
  "release_process p = p\<lparr>pl_in_use := pl_in_use p - 1\<rparr>"

section \<open>Admission\<close>

text \<open>One iteration of the loop of \<open>Inner::admit\<close>; \<open>None\<close> is the end of the loop.\<close>

definition admit_head ::
  "bool \<Rightarrow> process_limit \<Rightarrow> 'w workspace_state \<Rightarrow>
   (process_limit \<times> 'w workspace_state \<times> 'w waiting) option" where
  "admit_head shutting_down processes ws =
     (case ws_queue ws of
        [] \<Rightarrow> None
      | head # rest \<Rightarrow>
          if shutting_down then None
          else
            let mutating = mutates_state (wt_risk head)
            in if mutating \<and> ws_running ws \<noteq> [] then None
               else if \<not> mutating \<and> (ws_mutating ws \<or> WORKSPACE_READ_CONCURRENCY \<le> ws_reads ws)
               then None
               else
                 let holds_process = wt_spawns_processes head;
                     (acquired, processes') =
                       (if holds_process then try_acquire processes else (True, processes))
                 in if \<not> acquired then None
                    else Some (processes',
                      ws\<lparr>ws_queue := rest,
                         ws_running := btree_insert (wt_dispatch head)
                           \<lparr>rn_run = wt_run head, rn_cancellation = wt_cancellation head,
                            rn_mutating = mutating, rn_holds_process = holds_process\<rparr>
                           (ws_running ws)\<rparr>,
                      head))"

lemma admit_head_queue:
  "admit_head sd p ws = Some (p', ws', w) \<Longrightarrow> ws_queue ws = w # ws_queue ws'"
  by (auto simp: admit_head_def Let_def split: list.splits if_splits prod.splits)

function admit ::
  "bool \<Rightarrow> process_limit \<Rightarrow> 'w workspace_state \<Rightarrow>
   process_limit \<times> 'w workspace_state \<times> 'w waiting list" where
  "admit sd p ws =
     (case admit_head sd p ws of
        None \<Rightarrow> (p, ws, [])
      | Some (p', ws', w) \<Rightarrow>
          (case admit sd p' ws' of (p'', ws'', ready) \<Rightarrow> (p'', ws'', w # ready)))"
  by pat_completeness auto

termination
  by (relation "measure (\<lambda>(sd, p, ws). length (ws_queue ws))") (auto dest: admit_head_queue)

declare admit.simps [simp del]

section \<open>The scheduler's shared state\<close>

datatype schedule_error =
    ScheduleShutdown tool_call_id
  | AlreadyScheduled tool_call_id
  | ScheduleExecution tool_call_id string

record 'w workspace =
  wk_key :: workspace_key
  wk_state :: "'w workspace_state"

datatype 'w task =
    Submit "'w scheduled_call"
  | Claim "'w scheduled_call"
  | Load "'w scheduled_call"
  | Enter "'w waiting" workspace_key
  | Register "'w waiting" nat
  | Enqueue "'w waiting" nat
  | Pump nat
  | Admit nat "'w waiting list"
  | Dispatch nat "'w waiting list"
  | Body "'w executor_call"
  | Finish nat u64
  | PumpInTurn nat
  | ForgetIdle
  | Forget "workspace_key list"
  | ReleaseClaim tool_call_id
  | Leave
  | ReportTo u64
  | StopCheck
  | Stop "run_id option"
  | Sweep "nat list" "run_id option" "(nat \<times> 'w waiting list) list"
  | Shutdown

text \<open>
  Logs of what callers see: \<open>sc_tickets\<close> has the ticket of every call that joined a queue, whose
  \<open>submit\<close> returns it; \<open>sc_refused\<close> the numbers of the submissions a shutdown refused after they
  had drawn one; \<open>sc_reports\<close> the outcomes sent to tickets; \<open>sc_errors\<close> the errors \<open>submit\<close> returned.
\<close>

record 'w scheduler =
  sc_workspaces :: "(workspace_key \<times> nat) list"
  sc_map_locked :: bool
  sc_heap :: "'w workspace list"
  sc_locked :: "nat set"
  sc_processes :: process_limit
  sc_live :: nat
  sc_dispatched :: u64
  sc_sweep :: u64
  sc_claimed :: "tool_call_id set"
  sc_shutting_down :: bool
  sc_cancelled :: "token set"
  sc_tickets :: "u64 list"
  sc_refused :: "u64 list"
  sc_reports :: "u64 list"
  sc_errors :: "schedule_error list"
  sc_threads :: "'w task list list"

definition Scheduler_with_process_limit :: "nat \<Rightarrow> 'w scheduler" where
  "Scheduler_with_process_limit processes =
     \<lparr>sc_workspaces = [], sc_map_locked = False, sc_heap = [], sc_locked = {}, sc_processes = ProcessLimit_new processes,
      sc_live = 0, sc_dispatched = 0, sc_sweep = 0, sc_claimed = {}, sc_shutting_down = False,
      sc_cancelled = {}, sc_tickets = [], sc_refused = [], sc_reports = [], sc_errors = [], sc_threads = []\<rparr>"

text \<open>The tool registry and the version parser, fixed for a scheduler's life.\<close>

record ('w, 'v) sched_env =
  se_registry_get :: "tool_id \<Rightarrow> 'w tool_version option \<Rightarrow> ('w, 'v) tool_descriptor option"
  se_semver_parse :: "string \<Rightarrow> string + 'w"
  se_has_build :: "'w \<Rightarrow> bool"

record declared =
  dc_risk :: risk_level
  dc_spawns_processes :: bool

definition Inner_declared :: "('w, 'v) sched_env \<Rightarrow> string \<Rightarrow> string \<Rightarrow> declared" where
  "Inner_declared E i version =
     (let resolved =
        (case ToolId_new i of
           Inl _ \<Rightarrow> None
         | Inr i \<Rightarrow>
             (case version of
                [] \<Rightarrow> se_registry_get E i None
              | _ # _ \<Rightarrow>
                  (case ToolVersion_new (se_semver_parse E) (se_has_build E) version of
                     Inl _ \<Rightarrow> None
                   | Inr v \<Rightarrow> se_registry_get E i (Some v))))
      in case resolved of
           None \<Rightarrow> \<lparr>dc_risk = RiskLevel_lowest, dc_spawns_processes = False\<rparr>
         | Some tool \<Rightarrow> \<lparr>dc_risk = descriptor_risk tool,
                         dc_spawns_processes = descriptor_spawns_processes tool\<rparr>)"

text \<open>What \<open>store().load_tool_call\<close> answers: the recorded call, or the rendered store error.\<close>

record loaded_call =
  ld_run_id :: run_id
  ld_tool_id :: string
  ld_tool_version :: string

definition new_waiting ::
  "('w, 'v) sched_env \<Rightarrow> u64 \<Rightarrow> loaded_call \<Rightarrow> 'w scheduled_call \<Rightarrow> 'w waiting" where
  "new_waiting E dispatch rec c =
     (let declared = Inner_declared E (ld_tool_id rec) (ld_tool_version rec)
      in \<lparr>wt_dispatch = dispatch, wt_call = sd_call c, wt_run = ld_run_id rec,
          wt_root = key_root (sd_workspace c), wt_risk = max (sd_risk c) (dc_risk declared),
          wt_spawns_processes = dc_spawns_processes declared,
          wt_cancellation = sd_cancellation c, wt_admission = sd_admission c,
          wt_workspace_metadata = sd_workspace_metadata c\<rparr>)"

abbreviation heap_state :: "'w scheduler \<Rightarrow> nat \<Rightarrow> 'w workspace_state" where
  "heap_state s a \<equiv> wk_state (sc_heap s ! a)"

definition set_state :: "nat \<Rightarrow> 'w workspace_state \<Rightarrow> 'w scheduler \<Rightarrow> 'w scheduler" where
  "set_state a ws s = s\<lparr>sc_heap := (sc_heap s)[a := (sc_heap s ! a)\<lparr>wk_state := ws\<rparr>]\<rparr>"

definition log_error :: "schedule_error \<Rightarrow> 'w scheduler \<Rightarrow> 'w scheduler" where
  "log_error e s = s\<lparr>sc_errors := sc_errors s @ [e]\<rparr>"

text \<open>
  The worker thread that \<open>Inner::dispatch\<close> spawns: the call, then the drop of \<open>Completion\<close>
  (\<open>complete\<close>, \<open>release\<close>, \<open>leave\<close>), then the report.
\<close>

definition worker :: "nat \<Rightarrow> 'w waiting \<Rightarrow> 'w task list" where
  "worker a w =
     [Body (Inner_run w), Finish a (wt_dispatch w), ReleaseClaim (wt_call w), Leave,
      ReportTo (wt_dispatch w)]"

text \<open>The second loop of \<open>Inner::stop\<close> over what the first loop removed.\<close>

definition after_sweep :: "(nat \<times> 'w waiting list) list \<Rightarrow> 'w task list" where
  "after_sweep swept =
     concat (map (\<lambda>(a, removed).
        concat (map (\<lambda>w. [ReportTo (wt_dispatch w), ReleaseClaim (wt_call w)]) removed) @ [Pump a])
      swept) @ [ForgetIdle]"

definition run_matches :: "run_id option \<Rightarrow> run_id \<Rightarrow> bool" where
  "run_matches run candidate = (case run of None \<Rightarrow> True | Some r \<Rightarrow> r = candidate)"

section \<open>The atomic sections\<close>

text \<open>
  Each definition executes one section: the new state, the tasks the thread continues with before
  the rest of its list, and the threads it spawns. \<open>None\<close> when the section cannot run yet: a mutex
  it needs is held, or the queue is full and the submitter stays parked. The mutexes that are held
  across sections are resources of the state: those of the workspaces (\<open>sc_locked\<close>) and that of
  the map \<open>workspaces\<close> (\<open>sc_map_locked\<close>).
\<close>

type_synonym 'w outcome = "('w scheduler \<times> 'w task list \<times> 'w task list list) option"

text \<open>\<open>Scheduler::submit\<close>, section by section.\<close>

definition submit_check :: "'w scheduled_call \<Rightarrow> 'w scheduler \<Rightarrow> 'w outcome" where
  "submit_check c s =
     (if sc_shutting_down s then Some (log_error (ScheduleShutdown (sd_call c)) s, [], [])
      else Some (s, [Claim c], []))"

definition Inner_claim :: "'w scheduled_call \<Rightarrow> 'w scheduler \<Rightarrow> 'w outcome" where
  "Inner_claim c s =
     (if sd_call c \<in> sc_claimed s then Some (log_error (AlreadyScheduled (sd_call c)) s, [], [])
      else Some (s\<lparr>sc_claimed := insert (sd_call c) (sc_claimed s)\<rparr>, [Load c], []))"

definition submit_load ::
  "('w, 'v) sched_env \<Rightarrow> string + loaded_call \<Rightarrow> 'w scheduled_call \<Rightarrow> 'w scheduler \<Rightarrow> 'w outcome" where
  "submit_load E rec c s =
     (case rec of
        Inl source \<Rightarrow>
          Some (log_error (ScheduleExecution (sd_call c) source) s, [ReleaseClaim (sd_call c)], [])
      | Inr record \<Rightarrow>
          Some (s\<lparr>sc_dispatched := sc_dispatched s + 1\<rparr>,
                [Enter (new_waiting E (sc_dispatched s) record c) (sd_workspace c)], []))"

text \<open>
  \<open>submit\<close> takes the mutex of the map, finds or inserts the workspace, and blocks on the mutex of
  the workspace without giving the map back; it drops the map once it has both.
\<close>

definition submit_enter :: "'w waiting \<Rightarrow> workspace_key \<Rightarrow> 'w scheduler \<Rightarrow> 'w outcome" where
  "submit_enter w key s =
     (if sc_map_locked s then None
      else case map_of (sc_workspaces s) key of
             Some a \<Rightarrow> Some (s\<lparr>sc_map_locked := True\<rparr>, [Register w a], [])
           | None \<Rightarrow>
               let a = length (sc_heap s)
               in Some (s\<lparr>sc_map_locked := True,
                          sc_workspaces := btree_insert key a (sc_workspaces s),
                          sc_heap := sc_heap s
                            @ [\<lparr>wk_key = key, wk_state = WorkspaceState_default\<rparr>]\<rparr>,
                        [Register w a], []))"

definition submit_register :: "'w waiting \<Rightarrow> nat \<Rightarrow> 'w scheduler \<Rightarrow> 'w outcome" where
  "submit_register w a s =
     (if a \<in> sc_locked s then None
      else Some ((set_state a ((heap_state s a)\<lparr>ws_waiting := ws_waiting (heap_state s a) + 1\<rparr>) s)
                   \<lparr>sc_map_locked := False\<rparr>,
                 [Enqueue w a], []))"

definition submit_enqueue :: "'w waiting \<Rightarrow> nat \<Rightarrow> 'w scheduler \<Rightarrow> 'w outcome" where
  "submit_enqueue w a s =
     (let ws = heap_state s a
      in if a \<in> sc_locked s then None
         else if WORKSPACE_QUEUE_CAPACITY \<le> length (ws_queue ws) \<and> \<not> sc_shutting_down s then None
         else if sc_shutting_down s
         then Some ((log_error (ScheduleShutdown (wt_call w))
                      (set_state a (ws\<lparr>ws_waiting := ws_waiting ws - 1\<rparr>) s))
                      \<lparr>sc_refused := sc_refused s @ [wt_dispatch w]\<rparr>,
                    [ReleaseClaim (wt_call w)], [])
         else Some ((set_state a (ws\<lparr>ws_waiting := ws_waiting ws - 1,
                                     ws_queue := ws_queue ws @ [w]\<rparr>) s)
                      \<lparr>sc_locked := insert a (sc_locked s),
                       sc_tickets := sc_tickets s @ [wt_dispatch w]\<rparr>,
                    [Admit a [], StopCheck], []))"

text \<open>\<open>Inner::admit\<close> under the workspace mutex, one head at a time, then \<open>Inner::dispatch\<close>.\<close>

definition pump_lock :: "nat \<Rightarrow> 'w scheduler \<Rightarrow> 'w outcome" where
  "pump_lock a s =
     (if a \<in> sc_locked s then None
      else Some (s\<lparr>sc_locked := insert a (sc_locked s)\<rparr>, [Admit a []], []))"

definition admit_next :: "nat \<Rightarrow> 'w waiting list \<Rightarrow> 'w scheduler \<Rightarrow> 'w outcome" where
  "admit_next a ready s =
     (case admit_head (sc_shutting_down s) (sc_processes s) (heap_state s a) of
        None \<Rightarrow> Some (s\<lparr>sc_locked := sc_locked s - {a}\<rparr>, [Dispatch a ready], [])
      | Some (processes, ws, w) \<Rightarrow>
          Some ((set_state a ws s)\<lparr>sc_processes := processes, sc_live := sc_live s + 1\<rparr>,
                [Admit a (ready @ [w])], []))"

definition Inner_dispatch :: "nat \<Rightarrow> 'w waiting list \<Rightarrow> 'w scheduler \<Rightarrow> 'w outcome" where
  "Inner_dispatch a ready s = Some (s, [], map (worker a) ready)"

text \<open>The drop of \<open>Completion\<close>: \<open>Inner::complete\<close>, \<open>Inner::release\<close>, \<open>Workers::leave\<close>.\<close>

definition Inner_complete :: "nat \<Rightarrow> u64 \<Rightarrow> 'w scheduler \<Rightarrow> 'w outcome" where
  "Inner_complete a dispatch s =
     (if a \<in> sc_locked s then None
      else
        let ws = heap_state s a;
            released = (case map_of (ws_running ws) dispatch of
                          None \<Rightarrow> False | Some running \<Rightarrow> rn_holds_process running);
            s = set_state a (ws\<lparr>ws_running := filter (\<lambda>e. fst e \<noteq> dispatch) (ws_running ws)\<rparr>) s
        in if released
           then Some (s\<lparr>sc_processes := release_process (sc_processes s)\<rparr>,
                      [PumpInTurn a, ForgetIdle], [])
           else Some (s, [Pump a, ForgetIdle], []))"

text \<open>\<open>live_workspaces\<close> holds the mutex of the map while it copies the references, and no longer.\<close>

definition Inner_pump_in_turn :: "nat \<Rightarrow> 'w scheduler \<Rightarrow> 'w outcome" where
  "Inner_pump_in_turn a s =
     (if sc_map_locked s then None
      else
        let live = map snd (sc_workspaces s);
            workspaces = (if a \<in> set live then live else live @ [a]);
            start = unat (sc_sweep s) mod length workspaces
        in Some (s\<lparr>sc_sweep := sc_sweep s + 1\<rparr>, map Pump (rotate start workspaces), []))"

text \<open>
  \<open>forget_idle\<close> keeps the mutex of the map over the whole \<open>retain\<close>, which tries each workspace in
  turn while other threads run.
\<close>

definition Inner_forget_idle :: "'w scheduler \<Rightarrow> 'w outcome" where
  "Inner_forget_idle s =
     (if sc_map_locked s then None
      else Some (s\<lparr>sc_map_locked := True\<rparr>, [Forget (map fst (sc_workspaces s))], []))"

definition forget_entry :: "workspace_key \<Rightarrow> workspace_key list \<Rightarrow> 'w scheduler \<Rightarrow> 'w outcome" where
  "forget_entry key keys s =
     (case map_of (sc_workspaces s) key of
        None \<Rightarrow> Some (s, [Forget keys], [])
      | Some a \<Rightarrow>
          if a \<notin> sc_locked s \<and> ws_is_idle (heap_state s a)
          then Some (s\<lparr>sc_workspaces := filter (\<lambda>e. fst e \<noteq> key) (sc_workspaces s)\<rparr>,
                     [Forget keys], [])
          else Some (s, [Forget keys], []))"

definition forget_done :: "'w scheduler \<Rightarrow> 'w outcome" where
  "forget_done s = Some (s\<lparr>sc_map_locked := False\<rparr>, [], [])"

definition Inner_release :: "tool_call_id \<Rightarrow> 'w scheduler \<Rightarrow> 'w outcome" where
  "Inner_release call s = Some (s\<lparr>sc_claimed := sc_claimed s - {call}\<rparr>, [], [])"

definition Workers_leave :: "'w scheduler \<Rightarrow> 'w outcome" where
  "Workers_leave s = Some (s\<lparr>sc_live := sc_live s - 1\<rparr>, [], [])"

definition report_to :: "u64 \<Rightarrow> 'w scheduler \<Rightarrow> 'w outcome" where
  "report_to dispatch s = Some (s\<lparr>sc_reports := sc_reports s @ [dispatch]\<rparr>, [], [])"

text \<open>\<open>Inner::stop\<close>: the sweep of one workspace, then what the sweep removed.\<close>

definition submit_stop_check :: "'w scheduler \<Rightarrow> 'w outcome" where
  "submit_stop_check s = Some (s, if sc_shutting_down s then [Stop None] else [], [])"

definition Inner_stop :: "run_id option \<Rightarrow> 'w scheduler \<Rightarrow> 'w outcome" where
  "Inner_stop run s =
     (if sc_map_locked s then None
      else Some (s, [Sweep (map snd (sc_workspaces s)) run []], []))"

definition stop_sweep ::
  "nat \<Rightarrow> nat list \<Rightarrow> run_id option \<Rightarrow> (nat \<times> 'w waiting list) list \<Rightarrow> 'w scheduler \<Rightarrow>
   'w outcome" where
  "stop_sweep a as run swept s =
     (if a \<in> sc_locked s then None
      else
        let ws = heap_state s a;
            removed = filter (\<lambda>w. run_matches run (wt_run w)) (ws_queue ws);
            kept = filter (\<lambda>w. \<not> run_matches run (wt_run w)) (ws_queue ws);
            stopped = filter (\<lambda>e. run_matches run (rn_run (snd e))) (ws_running ws)
        in Some ((set_state a (ws\<lparr>ws_queue := kept\<rparr>) s)
                   \<lparr>sc_cancelled := sc_cancelled s \<union> (\<lambda>e. rn_cancellation (snd e)) ` set stopped\<rparr>,
                 [Sweep as run (swept @ [(a, removed)])], []))"

definition Scheduler_shutdown :: "'w scheduler \<Rightarrow> 'w outcome" where
  "Scheduler_shutdown s =
     (if sc_shutting_down s then Some (s, [], [])
      else Some (s\<lparr>sc_shutting_down := True\<rparr>, [Stop None], []))"

lemmas section_defs =
  submit_check_def Inner_claim_def submit_load_def submit_enter_def submit_register_def
  submit_enqueue_def
  pump_lock_def admit_next_def Inner_dispatch_def Inner_complete_def Inner_pump_in_turn_def
  Inner_forget_idle_def forget_entry_def forget_done_def Inner_release_def Workers_leave_def report_to_def
  submit_stop_check_def Inner_stop_def stop_sweep_def Scheduler_shutdown_def

fun run_task ::
  "('w, 'v) sched_env \<Rightarrow> string + loaded_call \<Rightarrow> 'w task \<Rightarrow> 'w scheduler \<Rightarrow> 'w outcome" where
  "run_task E rec (Submit c) s = submit_check c s"
| "run_task E rec (Claim c) s = Inner_claim c s"
| "run_task E rec (Load c) s = submit_load E rec c s"
| "run_task E rec (Enter w key) s = submit_enter w key s"
| "run_task E rec (Register w a) s = submit_register w a s"
| "run_task E rec (Enqueue w a) s = submit_enqueue w a s"
| "run_task E rec (Pump a) s = pump_lock a s"
| "run_task E rec (Admit a ready) s = admit_next a ready s"
| "run_task E rec (Dispatch a ready) s = Inner_dispatch a ready s"
| "run_task E rec (Body call) s = Some (s, [], [])"
| "run_task E rec (Finish a dispatch) s = Inner_complete a dispatch s"
| "run_task E rec (PumpInTurn a) s = Inner_pump_in_turn a s"
| "run_task E rec ForgetIdle s = Inner_forget_idle s"
| "run_task E rec (Forget []) s = forget_done s"
| "run_task E rec (Forget (key # keys)) s = forget_entry key keys s"
| "run_task E rec (ReleaseClaim call) s = Inner_release call s"
| "run_task E rec Leave s = Workers_leave s"
| "run_task E rec (ReportTo dispatch) s = report_to dispatch s"
| "run_task E rec StopCheck s = submit_stop_check s"
| "run_task E rec (Stop run) s = Inner_stop run s"
| "run_task E rec (Sweep [] run swept) s = Some (s, after_sweep swept, [])"
| "run_task E rec (Sweep (a # as) run swept) s = stop_sweep a as run swept s"
| "run_task E rec Shutdown s = Scheduler_shutdown s"

section \<open>Interleaving\<close>

text \<open>
  A step lets one thread execute its next section, or a caller enter \<open>submit\<close>, \<open>cancel_run\<close> or
  \<open>shutdown\<close> on a thread of its own. The counter of dispatch numbers is a \<open>u64\<close>; executions are
  followed up to its last value, before it would wrap.
\<close>

definition is_entry :: "'w task \<Rightarrow> bool" where
  "is_entry t = (case t of Submit _ \<Rightarrow> True | Stop (Some _) \<Rightarrow> True | Shutdown \<Rightarrow> True | _ \<Rightarrow> False)"

inductive sched_step :: "('w, 'v) sched_env \<Rightarrow> 'w scheduler \<Rightarrow> 'w scheduler \<Rightarrow> bool" for E where
  step_run: "i < length (sc_threads s) \<Longrightarrow> sc_threads s ! i = task # rest \<Longrightarrow>
    run_task E rec task s = Some (s', next, spawned) \<Longrightarrow> sc_dispatched s \<noteq> - 1 \<Longrightarrow>
    sched_step E s (s'\<lparr>sc_threads := (sc_threads s)[i := next @ rest] @ spawned\<rparr>)"
| step_enter: "is_entry task \<Longrightarrow>
    sched_step E s (s\<lparr>sc_threads := sc_threads s @ [[task]]\<rparr>)"

inductive sched_reachable :: "('w, 'v) sched_env \<Rightarrow> nat \<Rightarrow> 'w scheduler \<Rightarrow> bool" for E processes where
  sched_start: "sched_reachable E processes (Scheduler_with_process_limit processes)"
| sched_next: "sched_reachable E processes s \<Longrightarrow> sched_step E s s' \<Longrightarrow> sched_reachable E processes s'"

section \<open>The snapshot\<close>

record workspace_load =
  wl_workspace :: workspace_key
  wl_queued :: nat
  wl_running :: nat
  wl_waiting :: nat
  wl_mutating :: bool

record schedule_snapshot =
  sn_workspaces :: "workspace_load list"
  sn_processes :: process_limit
  sn_shutting_down :: bool

definition Scheduler_snapshot :: "'w scheduler \<Rightarrow> schedule_snapshot" where
  "Scheduler_snapshot s =
     \<lparr>sn_workspaces =
        map (\<lambda>a. \<lparr>wl_workspace = wk_key (sc_heap s ! a),
                  wl_queued = length (ws_queue (heap_state s a)),
                  wl_running = length (ws_running (heap_state s a)),
                  wl_waiting = ws_waiting (heap_state s a),
                  wl_mutating = ws_mutating (heap_state s a)\<rparr>)
          (filter (\<lambda>a. \<not> ws_is_idle (heap_state s a)) (map snd (sc_workspaces s))),
      sn_processes = sc_processes s, sn_shutting_down = sc_shutting_down s\<rparr>"

definition snapshot_queued :: "schedule_snapshot \<Rightarrow> nat" where
  "snapshot_queued n = sum_list (map wl_queued (sn_workspaces n))"

definition snapshot_running :: "schedule_snapshot \<Rightarrow> nat" where
  "snapshot_running n = sum_list (map wl_running (sn_workspaces n))"

definition slots_available :: "process_limit \<Rightarrow> nat" where
  "slots_available p = pl_capacity p - pl_in_use p"

end
