(* ===== verification/Scheduler_Invariant.thy ===== *)
theory Scheduler_Invariant
  imports Scheduler
begin

text \<open>
  The invariants of the scheduler over every interleaving of its threads.

  Each resource is accounted for by tokens: what a pending section of a thread holds plus what
  the workspace objects hold. A section moves tokens and never duplicates one, which is one
  balance lemma per resource; the invariants are sums of such balances.
\<close>

section \<open>Sums over threads and workspaces\<close>

definition tsum :: "('w task \<Rightarrow> 'm::comm_monoid_add) \<Rightarrow> 'w task list list \<Rightarrow> 'm" where
  "tsum f threads = sum_list (map (\<lambda>ts. sum_list (map f ts)) threads)"

definition hsum :: "('w workspace_state \<Rightarrow> 'm::comm_monoid_add) \<Rightarrow> 'w workspace list \<Rightarrow> 'm" where
  "hsum g heap = sum_list (map (\<lambda>k. g (wk_state k)) heap)"

lemma sum_list_update_add:
  "i < length xs \<Longrightarrow> sum_list (map f (xs[i := y])) + f (xs ! i) = sum_list (map f xs) + f y"
  for f :: "'a \<Rightarrow> 'm::comm_monoid_add"
proof (induction xs arbitrary: i)
  case (Cons x xs)
  then show ?case
    by (cases i) (auto simp: ac_simps)
qed simp

lemma tsum_update:
  fixes f :: "'w task \<Rightarrow> 'm::cancel_comm_monoid_add"
  assumes "i < length threads" "threads ! i = task # rest"
  shows "tsum f (threads[i := next @ rest] @ spawned) + f task
       = tsum f threads + sum_list (map f next) + tsum f spawned"
proof -
  have "tsum f (threads[i := next @ rest]) + f task + sum_list (map f rest)
      = tsum f threads + sum_list (map f next) + sum_list (map f rest)"
    using sum_list_update_add [OF assms(1), of "\<lambda>ts. sum_list (map f ts)" "next @ rest"] assms(2)
    by (simp add: tsum_def ac_simps)
  then have "tsum f (threads[i := next @ rest]) + f task = tsum f threads + sum_list (map f next)"
    by (rule add_right_imp_eq)
  then have "tsum f (threads[i := next @ rest]) + f task + tsum f spawned
      = tsum f threads + sum_list (map f next) + tsum f spawned"
    by simp
  then show ?thesis
    by (simp add: tsum_def ac_simps)
qed

lemma hsum_update:
  "a < length heap \<Longrightarrow>
   hsum g (heap[a := (heap ! a)\<lparr>wk_state := ws\<rparr>]) + g (wk_state (heap ! a)) = hsum g heap + g ws"
  using sum_list_update_add [of a heap "\<lambda>k. g (wk_state k)" "(heap ! a)\<lparr>wk_state := ws\<rparr>"]
  by (simp add: hsum_def)

lemma hsum_snoc [simp]: "hsum g (heap @ [k]) = hsum g heap + g (wk_state k)"
  by (simp add: hsum_def)

lemma tsum_snoc [simp]: "tsum f (threads @ [[t]]) = tsum f threads + f t"
  by (simp add: tsum_def)

lemma tsum_Nil [simp]: "tsum f [] = 0"
  by (simp add: tsum_def)

lemma tsum_ge:
  fixes f :: "'w task \<Rightarrow> nat"
  assumes "i < length threads" "threads ! i = task # rest"
  shows "f task \<le> tsum f threads"
proof -
  have "sum_list (map f (threads ! i)) \<le> tsum f threads"
    unfolding tsum_def using assms(1) by (intro member_le_sum_list) auto
  with assms(2) show ?thesis
    by simp
qed

lemma sum_list_subset:
  "i < length xs \<Longrightarrow> f (xs ! i) \<subseteq># sum_list (map f xs)" for f :: "'a \<Rightarrow> 'b multiset"
proof (induction xs arbitrary: i)
  case (Cons x xs)
  show ?case
  proof (cases i)
    case (Suc j)
    with Cons have "f (xs ! j) \<subseteq># sum_list (map f xs)"
      by simp
    then show ?thesis
      using Suc by (simp add: subset_mset.add_increasing)
  qed simp
qed simp

lemma tsum_subset:
  fixes f :: "'w task \<Rightarrow> 'b multiset"
  assumes "i < length threads" "threads ! i = task # rest"
  shows "f task \<subseteq># tsum f threads"
proof -
  have "f task \<subseteq># sum_list (map f (threads ! i))"
    using assms(2) by simp
  also have "\<dots> \<subseteq># tsum f threads"
    unfolding tsum_def using assms(1) by (rule sum_list_subset)
  finally show ?thesis .
qed

lemma hsum_subset:
  "a < length heap \<Longrightarrow> g (wk_state (heap ! a)) \<subseteq># hsum g heap"
  for g :: "'w workspace_state \<Rightarrow> 'b multiset"
  unfolding hsum_def by (rule sum_list_subset)

section \<open>Admission of the head\<close>

lemma admit_head_Some:
  "admit_head sd p ws = Some (p', ws', w) \<Longrightarrow>
     ws_queue ws = w # ws_queue ws' \<and> \<not> sd
     \<and> ws_waiting ws' = ws_waiting ws
     \<and> ws_running ws' = btree_insert (wt_dispatch w)
            \<lparr>rn_run = wt_run w, rn_cancellation = wt_cancellation w,
             rn_mutating = mutates_state (wt_risk w), rn_holds_process = wt_spawns_processes w\<rparr>
            (ws_running ws)
     \<and> (mutates_state (wt_risk w) \<longrightarrow> ws_running ws = [])
     \<and> (\<not> mutates_state (wt_risk w) \<longrightarrow>
          \<not> ws_mutating ws \<and> ws_reads ws < WORKSPACE_READ_CONCURRENCY)
     \<and> p' = (if wt_spawns_processes w then p\<lparr>pl_in_use := pl_in_use p + 1\<rparr> else p)
     \<and> (wt_spawns_processes w \<longrightarrow> pl_in_use p < pl_capacity p)"
  by (auto simp: admit_head_def Let_def try_acquire_def not_le
      split: list.splits if_splits prod.splits)

lemma mset_btree_insert:
  "k \<notin> fst ` set m \<Longrightarrow> mset (btree_insert k v m) = add_mset (k, v) (mset m)"
  by (induction k v m rule: btree_insert.induct) auto

lemma mset_keys_btree_insert:
  "mset (map fst (btree_insert k v m)) \<subseteq># add_mset k (mset (map fst m))"
  by (induction k v m rule: btree_insert.induct) auto

lemma mset_filter_split:
  "mset (map f (filter P xs)) + mset (map f (filter (\<lambda>x. \<not> P x) xs)) = mset (map f xs)"
  by (induction xs) auto

lemma run_task_threads:
  "run_task E rec task s = Some (s', next, spawned) \<Longrightarrow> sc_threads s' = sc_threads s"
  by (induction E rec task s rule: run_task.induct)
     (auto simp: section_defs set_state_def log_error_def Let_def
       split: if_splits option.splits sum.splits)

section \<open>Fields the sections leave alone\<close>

lemma heap_set_state [simp]: "sc_heap (set_state a ws s) = (sc_heap s)[a := (sc_heap s ! a)\<lparr>wk_state := ws\<rparr>]"
  by (simp add: set_state_def)

lemma set_state_simps [simp]:
  "sc_workspaces (set_state a ws s) = sc_workspaces s"
  "sc_locked (set_state a ws s) = sc_locked s"
  "sc_processes (set_state a ws s) = sc_processes s"
  "sc_live (set_state a ws s) = sc_live s"
  "sc_dispatched (set_state a ws s) = sc_dispatched s"
  "sc_sweep (set_state a ws s) = sc_sweep s"
  "sc_claimed (set_state a ws s) = sc_claimed s"
  "sc_shutting_down (set_state a ws s) = sc_shutting_down s"
  "sc_cancelled (set_state a ws s) = sc_cancelled s"
  "sc_reports (set_state a ws s) = sc_reports s"
  "sc_tickets (set_state a ws s) = sc_tickets s"
  "sc_refused (set_state a ws s) = sc_refused s"
  "sc_map_locked (set_state a ws s) = sc_map_locked s"
  "sc_threads (set_state a ws s) = sc_threads s"
  by (simp_all add: set_state_def)

lemma log_error_simps [simp]:
  "sc_workspaces (log_error e s) = sc_workspaces s"
  "sc_heap (log_error e s) = sc_heap s"
  "sc_locked (log_error e s) = sc_locked s"
  "sc_processes (log_error e s) = sc_processes s"
  "sc_live (log_error e s) = sc_live s"
  "sc_dispatched (log_error e s) = sc_dispatched s"
  "sc_sweep (log_error e s) = sc_sweep s"
  "sc_claimed (log_error e s) = sc_claimed s"
  "sc_shutting_down (log_error e s) = sc_shutting_down s"
  "sc_cancelled (log_error e s) = sc_cancelled s"
  "sc_reports (log_error e s) = sc_reports s"
  "sc_tickets (log_error e s) = sc_tickets s"
  "sc_refused (log_error e s) = sc_refused s"
  "sc_map_locked (log_error e s) = sc_map_locked s"
  "sc_threads (log_error e s) = sc_threads s"
  by (simp_all add: log_error_def)

lemma run_task_heap_length:
  "run_task E rec task s = Some (s', next, spawned) \<Longrightarrow> length (sc_heap s) \<le> length (sc_heap s')"
  by (induction E rec task s rule: run_task.induct)
     (auto simp: section_defs Let_def split: if_splits option.splits sum.splits)

lemma wk_key_update [simp]:
  "wk_key (xs[b := (xs ! b)\<lparr>wk_state := ws\<rparr>] ! a) = wk_key (xs ! a)"
  by (cases "b < length xs"; cases "a = b") (auto simp: list_update_beyond)

lemma run_task_keys:
  "run_task E rec task s = Some (s', next, spawned) \<Longrightarrow> a < length (sc_heap s) \<Longrightarrow>
   wk_key (sc_heap s' ! a) = wk_key (sc_heap s ! a)"
  by (induction E rec task s rule: run_task.induct)
     (auto simp: section_defs Let_def nth_append
       split: if_splits option.splits sum.splits)

end
