(* ===== verification/Scheduler_Accounting.thy ===== *)
theory Scheduler_Accounting
  imports Scheduler_Invariant
begin

text \<open>
  One step of the scheduler moves tokens between its threads and its workspaces. This theory turns
  the balance of one section into the balance of a whole step, and accounts for addresses,
  dispatch numbers, claims, process slots, workers and parked submitters.
\<close>

section \<open>From one section to one step\<close>

lemma exchange:
  fixes x :: "'m::cancel_comm_monoid_add"
  assumes "x' + old = x + fresh" "y' + (fresh + gone) = y + (old + new)"
  shows "x' + y' + gone = x + y + new"
proof -
  have "x' + y' + gone + old = (x' + old) + (y' + gone)"
    by (simp add: ac_simps)
  also have "\<dots> = x + (y' + (fresh + gone))"
    unfolding assms(1) by (simp add: ac_simps)
  also have "\<dots> = x + y + new + old"
    unfolding assms(2) by (simp add: ac_simps)
  finally show ?thesis
    by (rule add_right_imp_eq)
qed

lemma exchange_subset:
  fixes x :: "'b multiset"
  assumes "x' + old = x + fresh" "y' + fresh \<subseteq># y + (old + new)"
  shows "x' + y' \<subseteq># x + y + new"
proof -
  have "x' + y' + old = (x' + old) + y'"
    by (simp add: ac_simps)
  also have "\<dots> = x + (y' + fresh)"
    unfolding assms(1) by (simp add: ac_simps)
  also have "\<dots> \<subseteq># x + (y + (old + new))"
    using assms(2) by simp
  also have "\<dots> = x + y + new + old"
    by (simp add: ac_simps)
  finally show ?thesis
    by simp
qed

lemma hsum_update_subset:
  fixes g :: "'w workspace_state \<Rightarrow> 'b multiset"
  assumes "a < length heap" "g ws + p \<subseteq># g (wk_state (heap ! a)) + q"
  shows "hsum g (heap[a := (heap ! a)\<lparr>wk_state := ws\<rparr>]) + p \<subseteq># hsum g heap + q"
  using exchange_subset [OF hsum_update [OF assms(1), of g ws], of p 0 q] assms(2)
  by (simp add: add.commute)

lemma hsum_update_le:
  "a < length heap \<Longrightarrow> g ws \<subseteq># g (wk_state (heap ! a)) \<Longrightarrow>
   hsum g (heap[a := (heap ! a)\<lparr>wk_state := ws\<rparr>]) \<subseteq># hsum g heap"
  for g :: "'w workspace_state \<Rightarrow> 'b multiset"
  using hsum_update_subset [of a heap g ws "{#}" "{#}"] by simp

lemma hsum_update_add:
  "a < length heap \<Longrightarrow> g ws \<subseteq># add_mset x (g (wk_state (heap ! a))) \<Longrightarrow>
   hsum g (heap[a := (heap ! a)\<lparr>wk_state := ws\<rparr>]) \<subseteq># add_mset x (hsum g heap)"
  for g :: "'w workspace_state \<Rightarrow> 'b multiset"
  using hsum_update_subset [of a heap g ws "{#}" "{#x#}"] by simp

lemma hsum_update_eq:
  fixes g :: "'w workspace_state \<Rightarrow> 'm::cancel_comm_monoid_add"
  assumes "a < length heap" "g ws + p = g (wk_state (heap ! a)) + q"
  shows "hsum g (heap[a := (heap ! a)\<lparr>wk_state := ws\<rparr>]) + p = hsum g heap + q"
  using exchange [OF hsum_update [OF assms(1), of g ws], of 0 p 0 q] assms(2)
  by (simp add: add.commute)

text \<open>What the threads and the workspaces of a state hold of a resource.\<close>

definition held ::
  "('w task \<Rightarrow> 'm::comm_monoid_add) \<Rightarrow> ('w workspace_state \<Rightarrow> 'm) \<Rightarrow> 'w scheduler \<Rightarrow> 'm" where
  "held f g s = tsum f (sc_threads s) + hsum g (sc_heap s)"

lemma held_step_subset:
  fixes f :: "'w task \<Rightarrow> 'b multiset"
  assumes "i < length (sc_threads s)" "sc_threads s ! i = task # rest"
    and "hsum g (sc_heap s') + (sum_list (map f next) + tsum f spawned)
         \<subseteq># hsum g (sc_heap s) + (f task + new)"
  shows "held f g (s'\<lparr>sc_threads := (sc_threads s)[i := next @ rest] @ spawned\<rparr>)
         \<subseteq># held f g s + new"
  using exchange_subset [OF tsum_update [OF assms(1,2), of f "next" spawned,
      unfolded add.assoc [of _ "sum_list _"]] assms(3)]
  by (simp add: held_def)

lemma held_step_eq:
  fixes f :: "'w task \<Rightarrow> 'm::cancel_comm_monoid_add"
  assumes "i < length (sc_threads s)" "sc_threads s ! i = task # rest"
    and "hsum g (sc_heap s') + (sum_list (map f next) + tsum f spawned + gone)
         = hsum g (sc_heap s) + (f task + new)"
  shows "held f g (s'\<lparr>sc_threads := (sc_threads s)[i := next @ rest] @ spawned\<rparr>) + gone
         = held f g s + new"
  using exchange [OF tsum_update [OF assms(1,2), of f "next" spawned,
      unfolded add.assoc [of _ "sum_list _"]] assms(3)]
  by (simp add: held_def)

lemma held_enter:
  "held f g (s\<lparr>sc_threads := sc_threads s @ [[task]]\<rparr>) = held f g s + f task"
  by (simp add: held_def ac_simps)

text \<open>The same for a quantity held by threads only.\<close>

lemma tsum_step_eq:
  fixes f :: "'w task \<Rightarrow> 'm::cancel_comm_monoid_add"
  assumes "i < length threads" "threads ! i = task # rest"
    and "sum_list (map f next) + tsum f spawned + gone = f task + new"
  shows "tsum f (threads[i := next @ rest] @ spawned) + gone = tsum f threads + new"
  using exchange [OF tsum_update [OF assms(1,2), of f "next" spawned,
      unfolded add.assoc [of _ "sum_list _"]], of 0 gone 0 new] assms(3)
  by simp

section \<open>Addresses\<close>

primrec task_addrs :: "'w task \<Rightarrow> nat set" where
  "task_addrs (Submit c) = {}"
| "task_addrs (Claim c) = {}"
| "task_addrs (Load c) = {}"
| "task_addrs (Enter w k) = {}"
| "task_addrs (Register w a) = {a}"
| "task_addrs (Enqueue w a) = {a}"
| "task_addrs (Pump a) = {a}"
| "task_addrs (Admit a ready) = {a}"
| "task_addrs (Dispatch a ready) = {a}"
| "task_addrs (Body x) = {}"
| "task_addrs (Finish a d) = {a}"
| "task_addrs (PumpInTurn a) = {a}"
| "task_addrs ForgetIdle = {}"
| "task_addrs (Forget ks) = {}"
| "task_addrs (ReleaseClaim c) = {}"
| "task_addrs Leave = {}"
| "task_addrs (ReportTo d) = {}"
| "task_addrs StopCheck = {}"
| "task_addrs (Stop r) = {}"
| "task_addrs (Sweep as r swept) = set as \<union> fst ` set swept"
| "task_addrs Shutdown = {}"

definition map_ok :: "'w scheduler \<Rightarrow> bool" where
  "map_ok s \<longleftrightarrow> sorted_wrt (<) (map fst (sc_workspaces s))
     \<and> (\<forall>(k, a)\<in>set (sc_workspaces s). a < length (sc_heap s) \<and> wk_key (sc_heap s ! a) = k)"

definition addrs_ok :: "'w scheduler \<Rightarrow> bool" where
  "addrs_ok s \<longleftrightarrow>
     (\<forall>ts\<in>set (sc_threads s). \<forall>t\<in>set ts. \<forall>a\<in>task_addrs t. a < length (sc_heap s))"

lemma addrs_ok_head:
  assumes "addrs_ok s" "i < length (sc_threads s)" "sc_threads s ! i = task # rest"
  shows "\<forall>a\<in>task_addrs task. a < length (sc_heap s)"
proof -
  have "sc_threads s ! i \<in> set (sc_threads s)"
    using assms(2) by (rule nth_mem)
  with assms show ?thesis
    by (auto simp: addrs_ok_def)
qed

lemma map_ok_lookup:
  "map_ok s \<Longrightarrow> map_of (sc_workspaces s) k = Some a \<Longrightarrow>
   a < length (sc_heap s) \<and> wk_key (sc_heap s ! a) = k"
  by (auto simp: map_ok_def dest!: map_of_SomeD)

lemma map_ok_values: "map_ok s \<Longrightarrow> (k, a) \<in> set (sc_workspaces s) \<Longrightarrow> a < length (sc_heap s)"
  by (auto simp: map_ok_def)

lemma set_btree_insert: "set (btree_insert k v m) \<subseteq> insert (k, v) (set m)"
  by (induction k v m rule: btree_insert.induct) auto

text \<open>The map changes only where a new workspace enters and where an idle one is forgotten.\<close>

lemma run_task_workspaces:
  "run_task E rec task s = Some (s', next, spawned) \<Longrightarrow>
   sc_workspaces s' = sc_workspaces s
   \<or> (\<exists>w key. task = Enter w key \<and> map_of (sc_workspaces s) key = None
        \<and> sc_workspaces s' = btree_insert key (length (sc_heap s)) (sc_workspaces s)
        \<and> sc_heap s' = sc_heap s
            @ [\<lparr>wk_key = key, wk_state = WorkspaceState_default\<rparr>]
        \<and> next = [Register w (length (sc_heap s))] \<and> spawned = [])
   \<or> (\<exists>key keys a. task = Forget (key # keys) \<and> map_of (sc_workspaces s) key = Some a
        \<and> ws_is_idle (heap_state s a) \<and> sc_heap s' = sc_heap s \<and> next = [Forget keys] \<and> spawned = []
        \<and> sc_workspaces s' = filter (\<lambda>e. fst e \<noteq> key) (sc_workspaces s))"
  by (induction E rec task s rule: run_task.induct)
     (auto simp: section_defs Let_def split: if_splits option.splits sum.splits)

lemma run_task_map_ok:
  assumes run: "run_task E rec task s = Some (s', next, spawned)" and ok: "map_ok s"
  shows "map_ok s'"
proof -
  have old: "a < length (sc_heap s') \<and> wk_key (sc_heap s' ! a) = k"
    if "(k, a) \<in> set (sc_workspaces s)" for k a
    using that ok run_task_heap_length [OF run] run_task_keys [OF run, of a]
    by (auto simp: map_ok_def)
  from run_task_workspaces [OF run] show ?thesis
  proof (elim disjE exE conjE)
    assume "sc_workspaces s' = sc_workspaces s"
    with old ok show ?thesis
      by (auto simp: map_ok_def)
  next
    fix w key
    assume new: "sc_workspaces s' = btree_insert key (length (sc_heap s)) (sc_workspaces s)"
      and heap: "sc_heap s' = sc_heap s
        @ [\<lparr>wk_key = key, wk_state = WorkspaceState_default\<rparr>]"
    have "sorted_wrt (<) (map fst (sc_workspaces s'))"
      using ok new by (simp add: map_ok_def sorted_btree_insert)
    moreover have "a < length (sc_heap s') \<and> wk_key (sc_heap s' ! a) = k"
      if "(k, a) \<in> set (sc_workspaces s')" for k a
      using that new old [of k a] heap
        set_btree_insert [of key "length (sc_heap s)" "sc_workspaces s"] by auto
    ultimately show ?thesis
      by (auto simp: map_ok_def)
  next
    fix key a
    assume "sc_workspaces s' = filter (\<lambda>e. fst e \<noteq> key) (sc_workspaces s)"
    with old ok show ?thesis
      by (auto simp: map_ok_def sorted_wrt_map sorted_wrt_filter)
  qed
qed

lemma run_task_addrs:
  "run_task E rec task s = Some (s', next, spawned) \<Longrightarrow> map_ok s \<Longrightarrow>
   \<forall>a\<in>task_addrs task. a < length (sc_heap s) \<Longrightarrow>
   t \<in> set next \<union> (\<Union>ts\<in>set spawned. set ts) \<Longrightarrow> a \<in> task_addrs t \<Longrightarrow> a < length (sc_heap s')"
  by (induction E rec task s rule: run_task.induct)
     (auto simp: section_defs Let_def worker_def after_sweep_def
       dest: map_ok_lookup split: if_splits option.splits sum.splits,
      (fastforce dest: map_ok_values)+)

section \<open>What the sections continue with\<close>

lemma sum_list_zero: "(\<And>x. x \<in> set xs \<Longrightarrow> f x = 0) \<Longrightarrow> sum_list (map f xs) = 0"
  for f :: "'a \<Rightarrow> 'm::comm_monoid_add"
  by (induction xs) auto

lemma sum_pumps [simp]: "(\<And>a. f (Pump a) = 0) \<Longrightarrow> sum_list (map f (map Pump as)) = 0"
  for f :: "'w task \<Rightarrow> 'm::comm_monoid_add"
  by (induction as) auto

lemma sum_after_sweep:
  "sum_list (map f (after_sweep swept)) =
     sum_list (map (\<lambda>e. sum_list (map (\<lambda>w. f (ReportTo (wt_dispatch w))
                                            + f (ReleaseClaim (wt_call w))) (snd e)) + f (Pump (fst e)))
       swept) + f ForgetIdle"
  for f :: "'w task \<Rightarrow> 'm::comm_monoid_add"
proof (induction swept)
  case (Cons e swept)
  have "sum_list (map f (concat (map (\<lambda>w. [ReportTo (wt_dispatch w), ReleaseClaim (wt_call w)]) ws)))
      = sum_list (map (\<lambda>w. f (ReportTo (wt_dispatch w)) + f (ReleaseClaim (wt_call w))) ws)"
    for ws :: "'w waiting list"
    by (induction ws) (simp_all add: ac_simps)
  with Cons show ?case
    by (cases e) (simp add: after_sweep_def ac_simps)
qed (simp add: after_sweep_def)

lemma tsum_workers:
  "tsum f (map (worker a) ready) =
     sum_list (map (\<lambda>w. f (Body (Inner_run w)) + (f (Finish a (wt_dispatch w))
       + (f (ReleaseClaim (wt_call w)) + (f Leave + f (ReportTo (wt_dispatch w)))))) ready)"
  by (simp add: tsum_def worker_def o_def)

lemma sum_list_mset [simp]: "sum_list (map (\<lambda>x. {#g x#}) xs) = mset (map g xs)"
  by (induction xs) auto

section \<open>Dispatch numbers\<close>

definition dispatch_task :: "'w task \<Rightarrow> u64 multiset" where
  "dispatch_task t =
     (case t of Enter w k \<Rightarrow> {#wt_dispatch w#} | Register w a \<Rightarrow> {#wt_dispatch w#}
      | Enqueue w a \<Rightarrow> {#wt_dispatch w#} | _ \<Rightarrow> {#})"

definition dispatch_ws :: "'w workspace_state \<Rightarrow> u64 multiset" where
  "dispatch_ws ws = mset (map wt_dispatch (ws_queue ws)) + mset (map fst (ws_running ws))"

definition dispatch_numbers :: "'w scheduler \<Rightarrow> u64 multiset" where
  "dispatch_numbers s = held dispatch_task dispatch_ws s"

definition dispatch_ok :: "'w scheduler \<Rightarrow> bool" where
  "dispatch_ok s \<longleftrightarrow>
     (\<forall>d. count (dispatch_numbers s) d \<le> (if unat d < unat (sc_dispatched s) then 1 else 0))"

lemma dispatch_ws_simps [simp]:
  "dispatch_ws (ws\<lparr>ws_waiting := n\<rparr>) = dispatch_ws ws"
  "dispatch_ws WorkspaceState_default = {#}"
  by (simp_all add: dispatch_ws_def WorkspaceState_default_def)

lemma dispatch_ws_admit:
  "admit_head sd p ws = Some (p', ws', w) \<Longrightarrow> dispatch_ws ws' \<subseteq># dispatch_ws ws"
  using mset_keys_btree_insert [of "wt_dispatch w" _ "ws_running ws"]
  by (auto dest!: admit_head_Some simp: dispatch_ws_def)

lemma mset_filter_map_subset: "mset (map f (filter P xs)) \<subseteq># mset (map f xs)"
  by (induction xs) (auto intro: subset_mset.order_trans)

lemma dispatch_ws_filter [simp]:
  "dispatch_ws (ws\<lparr>ws_running := filter P (ws_running ws)\<rparr>) \<subseteq># dispatch_ws ws"
  "dispatch_ws (ws\<lparr>ws_queue := filter Q (ws_queue ws)\<rparr>) \<subseteq># dispatch_ws ws"
  using mset_filter_map_subset [of fst P "ws_running ws"]
    mset_filter_map_subset [of wt_dispatch Q "ws_queue ws"]
  by (simp_all add: dispatch_ws_def)

lemma dispatch_ws_enqueue [simp]:
  "dispatch_ws (ws\<lparr>ws_waiting := n, ws_queue := ws_queue ws @ [w]\<rparr>) =
     add_mset (wt_dispatch w) (dispatch_ws ws)"
  by (simp add: dispatch_ws_def)

lemma new_waiting_ids [simp]:
  "wt_dispatch (new_waiting E d record c) = d" "wt_call (new_waiting E d record c) = sd_call c"
  by (simp_all add: new_waiting_def Let_def)

lemma run_task_dispatch:
  "run_task E rec task s = Some (s', next, spawned) \<Longrightarrow> map_ok s \<Longrightarrow>
   \<forall>a\<in>task_addrs task. a < length (sc_heap s) \<Longrightarrow>
   hsum dispatch_ws (sc_heap s') + (sum_list (map dispatch_task next) + tsum dispatch_task spawned)
   \<subseteq># hsum dispatch_ws (sc_heap s)
     + (dispatch_task task + (if sc_dispatched s' = sc_dispatched s then {#} else {#sc_dispatched s#}))"
  by (induction E rec task s rule: run_task.induct)
     (auto simp: section_defs Let_def dispatch_task_def tsum_workers sum_after_sweep sum_list_zero
       dest: map_ok_lookup intro!: hsum_update_le hsum_update_add
         intro: dispatch_ws_admit split: if_splits option.splits sum.splits)

lemma run_task_counter:
  "run_task E rec task s = Some (s', next, spawned) \<Longrightarrow>
   sc_dispatched s' = sc_dispatched s \<or> sc_dispatched s' = sc_dispatched s + 1"
  by (induction E rec task s rule: run_task.induct)
     (auto simp: section_defs Let_def split: if_splits option.splits sum.splits)

lemma unat_Suc: "d \<noteq> - 1 \<Longrightarrow> unat (d + 1) = Suc (unat d)" for d :: u64
  using unatSuc [of d] by (simp add: add.commute eq_neg_iff_add_eq_0)

lemma dispatch_step:
  assumes "dispatch_ok s" and run: "run_task E rec task s = Some (s', next, spawned)"
    and i: "i < length (sc_threads s)" "sc_threads s ! i = task # rest"
    and m: "map_ok s" "addrs_ok s" and d: "sc_dispatched s \<noteq> - 1"
  shows "dispatch_ok (s'\<lparr>sc_threads := (sc_threads s)[i := next @ rest] @ spawned\<rparr>)"
    (is "dispatch_ok ?s''")
proof -
  have a: "\<forall>a\<in>task_addrs task. a < length (sc_heap s)"
    using addrs_ok_head [OF m(2) i] .
  let ?new = "if sc_dispatched s' = sc_dispatched s then {#} else {#sc_dispatched s#}"
  have "dispatch_numbers ?s'' \<subseteq># dispatch_numbers s + ?new"
    unfolding dispatch_numbers_def by (rule held_step_subset [OF i run_task_dispatch [OF run m(1) a]])
  then have le: "count (dispatch_numbers ?s'') e \<le> count (dispatch_numbers s) e + count ?new e" for e
    by (metis count_union mset_subset_eq_count)
  from run_task_counter [OF run] show ?thesis
  proof
    assume s': "sc_dispatched s' = sc_dispatched s"
    have "count (dispatch_numbers ?s'') e \<le> (if unat e < unat (sc_dispatched s) then 1 else 0)" for e
      using order_trans [OF le [of e]] assms(1) s' by (simp add: dispatch_ok_def)
    with s' show ?thesis
      by (simp add: dispatch_ok_def)
  next
    assume s': "sc_dispatched s' = sc_dispatched s + 1"
    have "count (dispatch_numbers ?s'') e \<le> (if unat e < Suc (unat (sc_dispatched s)) then 1 else 0)" for e
    proof -
      have "count (dispatch_numbers s) e \<le> (if unat e < unat (sc_dispatched s) then 1 else 0)"
        using assms(1) by (simp add: dispatch_ok_def)
      with le [of e] s' show ?thesis
        by (cases "e = sc_dispatched s") (auto split: if_splits simp: less_Suc_eq)
    qed
    with s' d show ?thesis
      by (simp add: dispatch_ok_def unat_Suc)
  qed
qed

section \<open>Claims\<close>

definition claim_task :: "'w task \<Rightarrow> tool_call_id multiset" where
  "claim_task t =
     (case t of
        Load c \<Rightarrow> {#sd_call c#}
      | Enter w k \<Rightarrow> {#wt_call w#}
      | Register w a \<Rightarrow> {#wt_call w#}
      | Enqueue w a \<Rightarrow> {#wt_call w#}
      | Admit a ready \<Rightarrow> mset (map wt_call ready)
      | Dispatch a ready \<Rightarrow> mset (map wt_call ready)
      | ReleaseClaim c \<Rightarrow> {#c#}
      | Sweep as r swept \<Rightarrow> sum_list (map (\<lambda>e. mset (map wt_call (snd e))) swept)
      | _ \<Rightarrow> {#})"

definition claim_ws :: "'w workspace_state \<Rightarrow> tool_call_id multiset" where
  "claim_ws ws = mset (map wt_call (ws_queue ws))"

definition claims :: "'w scheduler \<Rightarrow> tool_call_id multiset" where
  "claims s = held claim_task claim_ws s"

definition claims_ok :: "'w scheduler \<Rightarrow> bool" where
  "claims_ok s \<longleftrightarrow> (\<forall>c. count (claims s) c = (if c \<in> sc_claimed s then 1 else 0))"

text \<open>What one section adds to the claims and takes from them.\<close>

definition claimed_by :: "'w task \<Rightarrow> 'w scheduler \<Rightarrow> tool_call_id multiset" where
  "claimed_by t s =
     (case t of Claim c \<Rightarrow> if sd_call c \<in> sc_claimed s then {#} else {#sd_call c#} | _ \<Rightarrow> {#})"

definition released_by :: "'w task \<Rightarrow> tool_call_id multiset" where
  "released_by t = (case t of ReleaseClaim c \<Rightarrow> {#c#} | _ \<Rightarrow> {#})"

lemma claim_ws_simps [simp]:
  "claim_ws (ws\<lparr>ws_waiting := n\<rparr>) = claim_ws ws"
  "claim_ws (ws\<lparr>ws_running := r\<rparr>) = claim_ws ws"
  "claim_ws (ws\<lparr>ws_waiting := n, ws_queue := ws_queue ws @ [w]\<rparr>) = add_mset (wt_call w) (claim_ws ws)"
  "claim_ws WorkspaceState_default = {#}"
  by (simp_all add: claim_ws_def WorkspaceState_default_def)

lemma hsum_same:
  "a < length heap \<Longrightarrow> g ws = g (wk_state (heap ! a)) \<Longrightarrow>
   hsum g (heap[a := (heap ! a)\<lparr>wk_state := ws\<rparr>]) = hsum g heap"
  for g :: "'w workspace_state \<Rightarrow> 'm::cancel_comm_monoid_add"
  using hsum_update_eq [of a heap g ws 0 0] by simp

lemma hsum_more:
  "a < length heap \<Longrightarrow> g ws = add_mset x (g (wk_state (heap ! a))) \<Longrightarrow>
   hsum g (heap[a := (heap ! a)\<lparr>wk_state := ws\<rparr>]) = add_mset x (hsum g heap)"
  for g :: "'w workspace_state \<Rightarrow> 'b multiset"
  using hsum_update_eq [of a heap g ws 0 "{#x#}"] by simp

lemma hsum_less:
  "a < length heap \<Longrightarrow> g (wk_state (heap ! a)) = add_mset x (g ws) \<Longrightarrow>
   add_mset x (hsum g (heap[a := (heap ! a)\<lparr>wk_state := ws\<rparr>])) = hsum g heap"
  for g :: "'w workspace_state \<Rightarrow> 'b multiset"
  using hsum_update_eq [of a heap g ws "{#x#}" 0] by simp

lemma claim_ws_admit:
  "admit_head sd p ws = Some (p', ws', w) \<Longrightarrow> claim_ws ws = add_mset (wt_call w) (claim_ws ws')"
  by (auto dest!: admit_head_Some simp: claim_ws_def)

lemma claim_ws_sweep:
  "claim_ws (ws\<lparr>ws_queue := filter (\<lambda>w. \<not> P w) (ws_queue ws)\<rparr>)
     + mset (map wt_call (filter P (ws_queue ws))) = claim_ws ws"
  using mset_filter_split [of wt_call P "ws_queue ws"] by (simp add: claim_ws_def ac_simps)

lemma run_task_claims:
  assumes run: "run_task E rec task s = Some (s', next, spawned)" and m: "map_ok s"
    and a: "\<forall>a\<in>task_addrs task. a < length (sc_heap s)"
  shows "hsum claim_ws (sc_heap s')
     + (sum_list (map claim_task next) + tsum claim_task spawned + released_by task)
   = hsum claim_ws (sc_heap s) + (claim_task task + claimed_by task s)"
proof (cases task)
  case (Sweep as r swept)
  show ?thesis
  proof (cases as)
    case (Cons b bs)
    let ?P = "\<lambda>w. run_matches r (wt_run w)"
    let ?q = "ws_queue (heap_state s b)"
    let ?ws = "heap_state s b\<lparr>ws_queue := filter (\<lambda>w. \<not> ?P w) ?q\<rparr>"
    have "hsum claim_ws ((sc_heap s)[b := (sc_heap s ! b)\<lparr>wk_state := ?ws\<rparr>])
        + mset (map wt_call (filter ?P ?q)) = hsum claim_ws (sc_heap s) + {#}"
      using a Sweep Cons claim_ws_sweep [of ?P "heap_state s b"] by (intro hsum_update_eq) auto
    then show ?thesis
      using run Sweep Cons
      by (auto simp: section_defs Let_def claim_task_def claimed_by_def released_by_def
          split: if_splits)
  qed (use run Sweep in \<open>auto simp: claim_task_def claimed_by_def released_by_def sum_after_sweep\<close>)
next
  case (Admit b ready)
  then have b: "b < length (sc_heap s)"
    using a by simp
  show ?thesis
    using run Admit b
    by (auto simp: section_defs claim_task_def claimed_by_def released_by_def hsum_less
        dest!: claim_ws_admit split: option.splits)
next
  case (Forget keys)
  with run show ?thesis
    by (cases keys) (auto simp: section_defs claim_task_def claimed_by_def released_by_def
        split: option.splits if_splits)
qed (use run a in \<open>auto simp: section_defs Let_def claim_task_def claimed_by_def released_by_def
       tsum_workers sum_list_zero hsum_same hsum_more
       dest: map_ok_lookup [OF m] split: if_splits option.splits sum.splits\<close>)

lemma claims_step:
  assumes ok: "claims_ok s" and run: "run_task E rec task s = Some (s', next, spawned)"
    and i: "i < length (sc_threads s)" "sc_threads s ! i = task # rest"
    and m: "map_ok s" "addrs_ok s"
  shows "claims_ok (s'\<lparr>sc_threads := (sc_threads s)[i := next @ rest] @ spawned\<rparr>)"
    (is "claims_ok ?s''")
proof -
  have balance: "claims ?s'' + released_by task = claims s + claimed_by task s"
    unfolding claims_def
    by (rule held_step_eq [OF i run_task_claims [OF run m(1) addrs_ok_head [OF m(2) i]]])
  have mine: "claim_task task \<subseteq># claims s"
    unfolding claims_def held_def using tsum_subset [OF i, of claim_task]
    by (simp add: subset_mset.add_increasing2)
  have claimed: "c \<in> sc_claimed s' \<longleftrightarrow>
      (c \<in> sc_claimed s \<and> c \<notin># released_by task) \<or> c \<in># claimed_by task s" for c
    using run
    by (induction E rec task s rule: run_task.induct)
       (auto simp: section_defs Let_def claimed_by_def released_by_def
         split: if_splits option.splits sum.splits)
  have "count (claims ?s'') c = (if c \<in> sc_claimed s' then 1 else 0)" for c
  proof -
    have "count (claims ?s'') c + count (released_by task) c
        = count (claims s) c + count (claimed_by task s) c"
      using balance by (metis count_union)
    moreover have "count (claims s) c = (if c \<in> sc_claimed s then 1 else 0)"
      using ok by (simp add: claims_ok_def)
    moreover have "count (claim_task task) c \<le> count (claims s) c"
      using mine by (rule mset_subset_eq_count)
    ultimately show ?thesis
      using claimed [of c]
      by (cases task) (auto simp: claimed_by_def released_by_def claim_task_def split: if_splits)
  qed
  then show ?thesis
    by (simp add: claims_ok_def)
qed

end
