(* ===== verification/Scheduler_Safety.thy ===== *)
theory Scheduler_Safety
  imports Scheduler_Accounting
begin

text \<open>
  What the accounting gives: the bounds of every workspace and of the process pool, one worker for
  every running call, and the theorems about the scheduler.
\<close>

section \<open>The workspace at an address\<close>

definition ws_at :: "'w workspace list \<Rightarrow> nat \<Rightarrow> 'w workspace_state" where
  "ws_at heap b = (if b < length heap then wk_state (heap ! b) else WorkspaceState_default)"

lemma ws_at_update [simp]:
  "ws_at (heap[a := (heap ! a)\<lparr>wk_state := ws\<rparr>]) b =
     (if b = a \<and> a < length heap then ws else ws_at heap b)"
  by (simp add: ws_at_def)

lemma ws_at_append [simp]:
  "ws_at (heap @ [k]) b = (if b = length heap then wk_state k else ws_at heap b)"
  by (simp add: ws_at_def nth_append)

lemma ws_at_old [simp]: "a < length heap \<Longrightarrow> wk_state (heap ! a) = ws_at heap a"
  by (simp add: ws_at_def)

lemma ws_at_new [simp]: "ws_at heap (length heap) = WorkspaceState_default"
  by (simp add: ws_at_def)

lemma default_simps [simp]:
  "ws_queue WorkspaceState_default = []"
  "ws_running WorkspaceState_default = []"
  "ws_waiting WorkspaceState_default = 0"
  by (simp_all add: WorkspaceState_default_def)

definition fresh_at :: "'w workspace_state \<Rightarrow> bool" where
  "fresh_at ws \<longleftrightarrow> distinct (map fst (ws_running ws))
     \<and> (\<forall>w\<in>set (ws_queue ws). wt_dispatch w \<notin> fst ` set (ws_running ws))"

lemma fresh_at_count:
  assumes "\<And>d. count (dispatch_ws ws) d \<le> 1"
  shows "fresh_at ws"
proof -
  have le: "count (mset (map wt_dispatch (ws_queue ws))) d + count (mset (map fst (ws_running ws))) d \<le> 1"
    for d
    using assms [of d] by (simp add: dispatch_ws_def)
  have "count (mset (map fst (ws_running ws))) d = (if d \<in> set (map fst (ws_running ws)) then 1 else 0)" for d
  proof (cases "d \<in> set (map fst (ws_running ws))")
    case True
    then have "0 < count (mset (map fst (ws_running ws))) d"
      by (metis count_greater_zero_iff set_mset_mset)
    then have "count (mset (map fst (ws_running ws))) d = 1"
      using le [of d] by linarith
    then show ?thesis
      by (simp only: True if_True)
  next
    case False
    then show ?thesis
      by (metis count_eq_zero_iff set_mset_mset)
  qed
  then have "distinct (map fst (ws_running ws))"
    unfolding distinct_count_atmost_1 by blast
  moreover have "d \<notin> set (map fst (ws_running ws))" if "d \<in> set (map wt_dispatch (ws_queue ws))" for d
  proof
    assume "d \<in> set (map fst (ws_running ws))"
    then have "0 < count (mset (map fst (ws_running ws))) d"
      by (metis count_greater_zero_iff set_mset_mset)
    moreover have "0 < count (mset (map wt_dispatch (ws_queue ws))) d"
      using that by (metis count_greater_zero_iff set_mset_mset)
    ultimately show False
      using le [of d] by linarith
  qed
  ultimately show ?thesis
    by (auto simp: fresh_at_def)
qed

lemma dispatch_ok_fresh:
  assumes "dispatch_ok s"
  shows "fresh_at (ws_at (sc_heap s) b)"
proof (cases "b < length (sc_heap s)")
  case True
  have sub: "dispatch_ws (ws_at (sc_heap s) b) \<subseteq># dispatch_numbers s"
    using hsum_subset [OF True, of dispatch_ws] True
    by (simp add: dispatch_numbers_def held_def subset_mset.add_increasing)
  have "count (dispatch_ws (ws_at (sc_heap s) b)) d \<le> 1" for d
  proof -
    have "count (dispatch_numbers s) d \<le> 1"
      using assms unfolding dispatch_ok_def by (auto dest!: spec [of _ d] simp: not_in_iff split: if_splits)
    with mset_subset_eq_count [OF sub, of d] show ?thesis
      by simp
  qed
  then show ?thesis
    by (rule fresh_at_count)
qed (simp add: ws_at_def fresh_at_def)

section \<open>Changes of one workspace\<close>

text \<open>
  What a section does to the workspace at \<open>b\<close> and, with it, to the process pool: \<open>ws_move\<close> names the
  change for every task, with what the section knew when it made it.
\<close>

definition ws_move ::
  "process_limit \<Rightarrow> process_limit \<Rightarrow> 'w task \<Rightarrow> nat \<Rightarrow> 'w workspace_state \<Rightarrow> 'w workspace_state \<Rightarrow> bool"
where
  "ws_move p p' task b ws ws' =
     (case task of
        Register w a \<Rightarrow>
          p' = p \<and> ws' = (if a = b then ws\<lparr>ws_waiting := Suc (ws_waiting ws)\<rparr> else ws)
      | Enqueue w a \<Rightarrow>
          p' = p
          \<and> (if a \<noteq> b then ws' = ws
             else ws' = ws\<lparr>ws_waiting := ws_waiting ws - 1\<rparr>
                  \<or> length (ws_queue ws) < WORKSPACE_QUEUE_CAPACITY
                    \<and> ws' = ws\<lparr>ws_waiting := ws_waiting ws - 1, ws_queue := ws_queue ws @ [w]\<rparr>)
      | Admit a ready \<Rightarrow>
          if a \<noteq> b then ws' = ws
          else p' = p \<and> ws' = ws \<or> (\<exists>w. admit_head False p ws = Some (p', ws', w))
      | Finish a d \<Rightarrow>
          if a \<noteq> b then ws' = ws
          else ws' = ws\<lparr>ws_running := filter (\<lambda>e. fst e \<noteq> d) (ws_running ws)\<rparr>
             \<and> p' = (case map_of (ws_running ws) d of
                       None \<Rightarrow> p | Some r \<Rightarrow> if rn_holds_process r then release_process p else p)
      | Sweep as r swept \<Rightarrow>
          p' = p
          \<and> (if as = [] \<or> hd as \<noteq> b then ws' = ws
             else ws' = ws\<lparr>ws_queue := filter (\<lambda>w. \<not> run_matches r (wt_run w)) (ws_queue ws)\<rparr>)
      | _ \<Rightarrow> p' = p \<and> ws' = ws)"

lemma admit_head_open: "admit_head sd p ws = Some x \<Longrightarrow> admit_head False p ws = Some x"
  by (cases sd) (auto simp: admit_head_def split: list.splits)

lemma run_task_move:
  "run_task E rec task s = Some (s', next, spawned) \<Longrightarrow> map_ok s \<Longrightarrow>
   \<forall>a\<in>task_addrs task. a < length (sc_heap s) \<Longrightarrow>
   ws_move (sc_processes s) (sc_processes s') task b (ws_at (sc_heap s) b) (ws_at (sc_heap s') b)"
  by (induction E rec task s rule: run_task.induct)
     (auto simp: section_defs Let_def ws_move_def dest: map_ok_lookup admit_head_open
       split: if_splits option.splits sum.splits)

section \<open>The bounds of a workspace\<close>

definition ws_ok :: "'w workspace_state \<Rightarrow> bool" where
  "ws_ok ws \<longleftrightarrow> length (ws_queue ws) \<le> WORKSPACE_QUEUE_CAPACITY
     \<and> (ws_mutating ws \<longrightarrow> length (ws_running ws) = 1)
     \<and> ws_reads ws \<le> WORKSPACE_READ_CONCURRENCY"

lemma length_filter_mset: "length (filter P xs) = size (filter_mset P (mset xs))"
  by (induction xs) auto

lemma filter_btree_insert:
  "k \<notin> fst ` set m \<Longrightarrow>
   length (filter P (btree_insert k v m)) = length (filter P m) + (if P (k, v) then 1 else 0)"
  unfolding length_filter_mset by (simp add: mset_btree_insert)

lemma set_btree_insert_fresh:
  "k \<notin> fst ` set m \<Longrightarrow> set (btree_insert k v m) = insert (k, v) (set m)"
  by (metis mset_btree_insert set_mset_add_mset_insert set_mset_mset)

lemma filter_remove_key:
  "distinct (map fst m) \<Longrightarrow>
   length (filter P m) = length (filter P (filter (\<lambda>e. fst e \<noteq> d) m))
     + (case map_of m d of None \<Rightarrow> 0 | Some v \<Rightarrow> if P (d, v) then 1 else 0)"
proof (induction m)
  case (Cons e m)
  have "fst x \<noteq> fst e" if "x \<in> set m" for x
    using Cons.prems that by (metis distinct.simps(2) image_eqI list.map(2) set_map)
  then have "filter (\<lambda>x. fst x \<noteq> fst e) m = m"
    by (simp add: filter_id_conv)
  with Cons show ?case
    by (cases e) (auto split: option.splits)
qed simp

lemma length_filter_shrinks: "length (filter P (filter Q xs)) \<le> length (filter P xs)"
  by (induction xs) auto

lemma ws_ok_admit:
  assumes "admit_head sd p ws = Some (p', ws', w)" "fresh_at ws" "ws_ok ws"
  shows "ws_ok ws'"
proof -
  from assms(1) have q: "ws_queue ws = w # ws_queue ws'"
    and r: "ws_running ws' = btree_insert (wt_dispatch w)
            \<lparr>rn_run = wt_run w, rn_cancellation = wt_cancellation w,
             rn_mutating = mutates_state (wt_risk w), rn_holds_process = wt_spawns_processes w\<rparr>
            (ws_running ws)" (is "_ = btree_insert _ ?r _")
    and m: "mutates_state (wt_risk w) \<longrightarrow> ws_running ws = []"
    and n: "\<not> mutates_state (wt_risk w) \<longrightarrow>
          \<not> ws_mutating ws \<and> ws_reads ws < WORKSPACE_READ_CONCURRENCY"
    by (auto dest!: admit_head_Some)
  have new: "wt_dispatch w \<notin> fst ` set (ws_running ws)"
    using assms(2) q by (simp add: fresh_at_def)
  have "ws_mutating ws' \<longleftrightarrow> mutates_state (wt_risk w) \<or> ws_mutating ws"
    by (simp add: ws_mutating_def r list_ex_iff set_btree_insert_fresh [OF new])
  moreover have "ws_reads ws' = ws_reads ws + (if mutates_state (wt_risk w) then 0 else 1)"
    by (simp add: ws_reads_def r filter_btree_insert [OF new])
  ultimately show ?thesis
    using assms(3) q m n r by (cases "mutates_state (wt_risk w)") (auto simp: ws_ok_def)
qed

lemma ws_ok_finish:
  assumes "ws_ok ws"
  shows "ws_ok (ws\<lparr>ws_running := filter (\<lambda>e. fst e \<noteq> d) (ws_running ws)\<rparr>)" (is "ws_ok ?ws'")
proof -
  have "length (ws_running ?ws') = 1" if "ws_mutating ?ws'"
  proof -
    from that have "ws_mutating ws"
      by (auto simp: ws_mutating_def list_ex_iff simp del: split_paired_Ex split_paired_All)
    with assms obtain e where "ws_running ws = [e]"
      by (auto simp: ws_ok_def length_Suc_conv)
    with that show ?thesis
      by (auto simp: ws_mutating_def split: if_splits)
  qed
  moreover have "ws_reads ?ws' \<le> ws_reads ws"
    using length_filter_shrinks [of "\<lambda>e. \<not> rn_mutating (snd e)" "\<lambda>e. fst e \<noteq> d" "ws_running ws"]
    by (simp add: ws_reads_def)
  ultimately show ?thesis
    using assms by (auto simp: ws_ok_def)
qed

lemma ws_ok_simps [simp]:
  "ws_ok (ws\<lparr>ws_waiting := n\<rparr>) = ws_ok ws"
  "ws_ok WorkspaceState_default"
  by (simp_all add: ws_ok_def ws_mutating_def ws_reads_def)

lemma ws_ok_queue:
  "ws_ok ws \<Longrightarrow> length (ws_queue ws) < WORKSPACE_QUEUE_CAPACITY \<Longrightarrow>
   ws_ok (ws\<lparr>ws_waiting := n, ws_queue := ws_queue ws @ [w]\<rparr>)"
  "ws_ok ws \<Longrightarrow> ws_ok (ws\<lparr>ws_queue := filter P (ws_queue ws)\<rparr>)"
  by (auto simp: ws_ok_def ws_mutating_def ws_reads_def
      intro: order_trans [OF length_filter_le])

lemma ws_move_ok:
  assumes "ws_move p p' task b ws ws'" "fresh_at ws" "ws_ok ws"
  shows "ws_ok ws'"
proof (cases task)
  case (Admit a ready)
  with assms show ?thesis
    by (auto simp: ws_move_def split: if_splits dest: ws_ok_admit)
next
  case (Finish a d)
  with assms show ?thesis
    by (auto simp: ws_move_def ws_ok_finish split: if_splits)
qed (use assms in \<open>auto simp: ws_move_def ws_ok_queue split: if_splits\<close>)

section \<open>Process slots\<close>

definition process_ws :: "'w workspace_state \<Rightarrow> nat" where
  "process_ws ws = length (filter (\<lambda>e. rn_holds_process (snd e)) (ws_running ws))"

definition slots_ok :: "'w scheduler \<Rightarrow> bool" where
  "slots_ok s \<longleftrightarrow> pl_in_use (sc_processes s) = hsum process_ws (sc_heap s)
     \<and> pl_in_use (sc_processes s) \<le> pl_capacity (sc_processes s) \<and> 1 \<le> pl_capacity (sc_processes s)"

lemma process_ws_simps [simp]:
  "process_ws (ws\<lparr>ws_waiting := n\<rparr>) = process_ws ws"
  "process_ws (ws\<lparr>ws_queue := q\<rparr>) = process_ws ws"
  "process_ws WorkspaceState_default = 0"
  by (simp_all add: process_ws_def)

lemma process_ws_admit:
  assumes "admit_head sd p ws = Some (p', ws', w)" "fresh_at ws"
  shows "process_ws ws' = process_ws ws + (if wt_spawns_processes w then 1 else 0)"
  using assms by (auto dest!: admit_head_Some simp: process_ws_def fresh_at_def filter_btree_insert)

lemma run_task_slots:
  assumes run: "run_task E rec task s = Some (s', next, spawned)" and m: "map_ok s"
    and a: "\<forall>a\<in>task_addrs task. a < length (sc_heap s)"
    and fresh: "\<And>b. fresh_at (ws_at (sc_heap s) b)" and ok: "slots_ok s"
  shows "slots_ok s'"
proof (cases task)
  case (Admit b ready)
  then have b: "b < length (sc_heap s)"
    using a by simp
  show ?thesis
  proof (cases "admit_head (sc_shutting_down s) (sc_processes s) (ws_at (sc_heap s) b)")
    case None
    with run Admit b ok show ?thesis
      by (auto simp: section_defs slots_ok_def)
  next
    case (Some x)
    obtain p' ws' w where x: "x = (p', ws', w)"
      by (cases x)
    note head = admit_head_Some [OF Some [unfolded x]]
    have "process_ws ws' = process_ws (ws_at (sc_heap s) b) + (if wt_spawns_processes w then 1 else 0)"
      by (rule process_ws_admit [OF Some [unfolded x] fresh])
    with run Admit b ok Some x head hsum_update [OF b, of process_ws ws'] show ?thesis
      by (auto simp: section_defs slots_ok_def split: if_splits)
  qed
next
  case (Finish b d)
  then have b: "b < length (sc_heap s)"
    using a by simp
  let ?ws = "ws_at (sc_heap s) b"
  let ?ws' = "?ws\<lparr>ws_running := filter (\<lambda>e. fst e \<noteq> d) (ws_running ?ws)\<rparr>"
  have "process_ws ?ws = process_ws ?ws' + (case map_of (ws_running ?ws) d of
      None \<Rightarrow> 0 | Some v \<Rightarrow> if rn_holds_process v then 1 else 0)"
    using fresh [of b] filter_remove_key [of "ws_running ?ws" "\<lambda>e. rn_holds_process (snd e)" d]
    by (simp add: process_ws_def fresh_at_def split: option.split)
  then show ?thesis
    using run Finish b ok hsum_update [OF b, of process_ws ?ws']
    by (auto simp: section_defs Let_def slots_ok_def release_process_def
        split: option.splits if_splits)
next
  case (Sweep as r swept)
  with run a ok show ?thesis
    by (cases as) (auto simp: section_defs Let_def slots_ok_def hsum_same split: if_splits)
next
  case (Forget keys)
  with run ok show ?thesis
    by (cases keys) (auto simp: section_defs slots_ok_def split: option.splits if_splits)
qed (use run a ok in \<open>auto simp: section_defs Let_def slots_ok_def hsum_same
       dest: map_ok_lookup [OF m] split: if_splits option.splits sum.splits list.splits\<close>)

section \<open>One worker for every running call\<close>

definition worker_task :: "nat \<Rightarrow> 'w task \<Rightarrow> u64 multiset" where
  "worker_task b t =
     (case t of
        Admit a ready \<Rightarrow> if a = b then mset (map wt_dispatch ready) else {#}
      | Dispatch a ready \<Rightarrow> if a = b then mset (map wt_dispatch ready) else {#}
      | Finish a d \<Rightarrow> if a = b then {#d#} else {#}
      | _ \<Rightarrow> {#})"

definition running_keys :: "'w workspace_state \<Rightarrow> u64 multiset" where
  "running_keys ws = mset (map fst (ws_running ws))"

definition workers_ok :: "'w scheduler \<Rightarrow> bool" where
  "workers_ok s \<longleftrightarrow> (\<forall>b. tsum (worker_task b) (sc_threads s) = running_keys (ws_at (sc_heap s) b))"

lemma running_keys_simps [simp]:
  "running_keys (ws\<lparr>ws_waiting := n\<rparr>) = running_keys ws"
  "running_keys (ws\<lparr>ws_queue := q\<rparr>) = running_keys ws"
  "running_keys WorkspaceState_default = {#}"
  by (simp_all add: running_keys_def)

lemma running_keys_admit:
  assumes "admit_head sd p ws = Some (p', ws', w)" "fresh_at ws"
  shows "running_keys ws' = add_mset (wt_dispatch w) (running_keys ws)"
  using assms by (auto dest!: admit_head_Some simp: running_keys_def fresh_at_def mset_btree_insert)

lemma running_keys_finish:
  assumes "fresh_at ws" "d \<in># running_keys ws"
  shows "add_mset d (running_keys (ws\<lparr>ws_running := filter (\<lambda>e. fst e \<noteq> d) (ws_running ws)\<rparr>))
       = running_keys ws"
proof -
  have "mset (filter (\<lambda>x. x \<noteq> d) ks) = mset ks - {#d#}" if "distinct ks" "d \<in> set ks" for ks :: "u64 list"
    using that
  proof (induction ks)
    case (Cons k ks)
    then have "filter (\<lambda>x. x \<noteq> k) ks = ks"
      by (auto simp: filter_id_conv)
    with Cons show ?case
      by (cases "k = d") (auto simp flip: mset_filter)
  qed simp
  moreover have "map fst (filter (\<lambda>e. fst e \<noteq> d) (ws_running ws))
      = filter (\<lambda>x. x \<noteq> d) (map fst (ws_running ws))"
    by (simp add: filter_map o_def)
  ultimately show ?thesis
    using assms unfolding running_keys_def fresh_at_def
    by (simp del: mset_map mset_filter add: insert_DiffM)
qed

lemma run_task_workers:
  assumes run: "run_task E rec task s = Some (s', next, spawned)" and m: "map_ok s"
    and a: "\<forall>a\<in>task_addrs task. a < length (sc_heap s)"
    and fresh: "\<And>b. fresh_at (ws_at (sc_heap s) b)"
    and fin: "\<And>a d. task = Finish a d \<Longrightarrow> d \<in># running_keys (ws_at (sc_heap s) a)"
  shows "sum_list (map (worker_task b) next) + tsum (worker_task b) spawned
           + running_keys (ws_at (sc_heap s) b)
       = worker_task b task + running_keys (ws_at (sc_heap s') b)"
proof (cases task)
  case (Admit c ready)
  with run a running_keys_admit [OF _ fresh [of c]] show ?thesis
    by (auto simp: section_defs worker_task_def split: option.splits)
next
  case (Finish c d)
  with run a running_keys_finish [OF fresh [of c] fin [OF Finish]] show ?thesis
    by (auto simp: section_defs Let_def worker_task_def split: option.splits if_splits)
next
  case (Sweep as r swept)
  with run a show ?thesis
    by (cases as) (auto simp: section_defs Let_def worker_task_def sum_after_sweep sum_list_zero
        split: if_splits)
next
  case (Forget keys)
  with run show ?thesis
    by (cases keys) (auto simp: section_defs worker_task_def split: option.splits if_splits)
qed (use run a in \<open>auto simp: section_defs Let_def worker_task_def tsum_workers sum_list_zero
       dest: map_ok_lookup [OF m] split: if_splits option.splits sum.splits\<close>)

lemma workers_step:
  assumes ok: "workers_ok s" and run: "run_task E rec task s = Some (s', next, spawned)"
    and i: "i < length (sc_threads s)" "sc_threads s ! i = task # rest"
    and m: "map_ok s" "addrs_ok s" and fresh: "\<And>b. fresh_at (ws_at (sc_heap s) b)"
  shows "workers_ok (s'\<lparr>sc_threads := (sc_threads s)[i := next @ rest] @ spawned\<rparr>)"
proof -
  have mine: "worker_task b task \<subseteq># running_keys (ws_at (sc_heap s) b)" for b
    using tsum_subset [OF i, of "worker_task b"] ok by (simp add: workers_ok_def)
  have fin: "d \<in># running_keys (ws_at (sc_heap s) a)" if "task = Finish a d" for a d
    using mine [of a] that by (simp add: worker_task_def)
  have "tsum (worker_task b) ((sc_threads s)[i := next @ rest] @ spawned)
      = running_keys (ws_at (sc_heap s') b)" for b
    using tsum_step_eq [OF i run_task_workers [OF run m(1) addrs_ok_head [OF m(2) i] fresh fin]] ok
    by (simp add: workers_ok_def add.commute)
  then show ?thesis
    by (simp add: workers_ok_def)
qed

section \<open>Parked submitters\<close>

definition parked_task :: "nat \<Rightarrow> 'w task \<Rightarrow> nat" where
  "parked_task b t = (case t of Enqueue w a \<Rightarrow> if a = b then 1 else 0 | _ \<Rightarrow> 0)"

lemma parked_Sweep [simp]: "parked_task b (Sweep as r swept) = 0"
  by (simp add: parked_task_def)

definition parked_ok :: "'w scheduler \<Rightarrow> bool" where
  "parked_ok s \<longleftrightarrow> (\<forall>b. tsum (parked_task b) (sc_threads s) = ws_waiting (ws_at (sc_heap s) b))"

lemma admit_head_waiting:
  "admit_head sd p ws = Some (p', ws', w) \<Longrightarrow> ws_waiting ws' = ws_waiting ws"
  by (auto dest!: admit_head_Some)

lemma run_task_parked:
  assumes run: "run_task E rec task s = Some (s', next, spawned)" and m: "map_ok s"
    and a: "\<forall>a\<in>task_addrs task. a < length (sc_heap s)"
    and enq: "\<And>a w. task = Enqueue w a \<Longrightarrow> 0 < ws_waiting (ws_at (sc_heap s) a)"
  shows "sum_list (map (parked_task b) next) + tsum (parked_task b) spawned
           + ws_waiting (ws_at (sc_heap s) b)
       = parked_task b task + ws_waiting (ws_at (sc_heap s') b)"
proof (cases task)
  case (Admit c ready)
  with run a show ?thesis
    by (auto simp: section_defs parked_task_def dest!: admit_head_waiting split: option.splits)
next
  case (Enqueue w c)
  with run a enq [OF Enqueue] show ?thesis
    by (auto simp: section_defs Let_def parked_task_def split: if_splits)
next
  case (Sweep as r swept)
  have "sum_list (map (parked_task b) (after_sweep swept)) = 0"
    by (subst sum_after_sweep) (simp add: parked_task_def)
  then show ?thesis
    using run a Sweep by (cases as) (auto simp: section_defs Let_def split: if_splits)
next
  case (Forget keys)
  with run show ?thesis
    by (cases keys) (auto simp: section_defs parked_task_def split: option.splits if_splits)
qed (use run a in \<open>auto simp: section_defs Let_def parked_task_def tsum_workers sum_list_zero
       dest: map_ok_lookup [OF m] split: if_splits option.splits sum.splits\<close>)

lemma parked_step:
  assumes ok: "parked_ok s" and run: "run_task E rec task s = Some (s', next, spawned)"
    and i: "i < length (sc_threads s)" "sc_threads s ! i = task # rest"
    and m: "map_ok s" "addrs_ok s"
  shows "parked_ok (s'\<lparr>sc_threads := (sc_threads s)[i := next @ rest] @ spawned\<rparr>)"
proof -
  have enq: "0 < ws_waiting (ws_at (sc_heap s) a)" if "task = Enqueue w a" for a w
    using tsum_ge [OF i, of "parked_task a"] ok that by (simp add: parked_ok_def parked_task_def)
  have "tsum (parked_task b) ((sc_threads s)[i := next @ rest] @ spawned)
      = ws_waiting (ws_at (sc_heap s') b)" for b
    using tsum_step_eq [OF i run_task_parked [OF run m(1) addrs_ok_head [OF m(2) i] enq]] ok
    by (simp add: parked_ok_def add.commute)
  then show ?thesis
    by (simp add: parked_ok_def)
qed

end
