(* ===== verification/Scheduler_Progress.thy ===== *)
theory Scheduler_Progress
  imports Scheduler_Safety
begin

text \<open>
  What the scheduler never loses: workspaces that are in use, workers that are counted, a queue whose
  head may run, and calls that a shutdown has to sweep.
\<close>

section \<open>Workspaces in use are mapped\<close>

definition mapped :: "'w scheduler \<Rightarrow> nat set" where
  "mapped s = snd ` set (sc_workspaces s)"

definition mapped_ok :: "'w scheduler \<Rightarrow> bool" where
  "mapped_ok s \<longleftrightarrow> (\<forall>b. \<not> ws_is_idle (ws_at (sc_heap s) b) \<longrightarrow> b \<in> mapped s)"

lemma set_btree_insert_new:
  "map_of m k = None \<Longrightarrow> set (btree_insert k v m) = insert (k, v) (set m)"
  by (rule set_btree_insert_fresh) (simp add: map_of_eq_None_iff)

lemma map_ok_map_of:
  assumes "map_ok s" "(k, a) \<in> set (sc_workspaces s)"
  shows "map_of (sc_workspaces s) k = Some a"
  using assms by (intro map_of_is_SomeI) (auto simp: map_ok_def strict_sorted_iff)

lemma mapped_mono:
  assumes run: "run_task E rec task s = Some (s', next, spawned)" and m: "map_ok s"
    and b: "b \<in> mapped s" and busy: "\<not> ws_is_idle (ws_at (sc_heap s) b)"
  shows "b \<in> mapped s'"
  using run_task_workspaces [OF run]
proof (elim disjE exE conjE)
  fix w key
  assume "map_of (sc_workspaces s) key = None"
    "sc_workspaces s' = btree_insert key (length (sc_heap s)) (sc_workspaces s)"
  with b show ?thesis
    by (auto simp: mapped_def set_btree_insert_new)
next
  fix key keys a
  assume k: "map_of (sc_workspaces s) key = Some a" "ws_is_idle (heap_state s a)"
    and s': "sc_workspaces s' = filter (\<lambda>e. fst e \<noteq> key) (sc_workspaces s)"
  from b obtain k' where k': "(k', b) \<in> set (sc_workspaces s)"
    by (auto simp: mapped_def)
  have "k' \<noteq> key"
  proof
    assume "k' = key"
    with k(1) map_ok_map_of [OF m k'] have "a = b"
      by simp
    with k(2) busy m k' show False
      by (auto simp: map_ok_def)
  qed
  with k' s' show ?thesis
    by (force simp: mapped_def)
qed (use b in \<open>simp add: mapped_def\<close>)

lemma idle_same [simp]:
  "ws_is_idle WorkspaceState_default"
  by (simp add: ws_is_idle_def)

lemma mapped_step:
  assumes ok: "mapped_ok s" and run: "run_task E rec task s = Some (s', next, spawned)"
    and m: "map_ok s" and a: "\<forall>a\<in>task_addrs task. a < length (sc_heap s)"
    and enq: "\<And>a w. task = Enqueue w a \<Longrightarrow> 0 < ws_waiting (ws_at (sc_heap s) a)"
    and reg: "\<And>a w. task = Register w a \<Longrightarrow> a \<in> mapped s"
  shows "mapped_ok s'"
  unfolding mapped_ok_def
proof (intro allI impI)
  fix b
  assume busy: "\<not> ws_is_idle (ws_at (sc_heap s') b)"
  show "b \<in> mapped s'"
  proof (cases "ws_is_idle (ws_at (sc_heap s) b)")
    case False
    with ok have "b \<in> mapped s"
      by (simp add: mapped_ok_def)
    with False show ?thesis
      by (intro mapped_mono [OF run m])
  next
    case True
    have "\<exists>w. task = Register w b"
    proof (cases task)
      case (Admit c ready)
      with run a True busy show ?thesis
        by (auto simp: section_defs ws_is_idle_def dest!: admit_head_Some split: option.splits if_splits)
    next
      case (Enqueue w c)
      with run a True busy enq [OF Enqueue] show ?thesis
        by (auto simp: section_defs Let_def ws_is_idle_def split: if_splits)
    next
      case (Sweep as r swept)
      with run a True busy show ?thesis
        by (cases as) (auto simp: section_defs Let_def ws_is_idle_def split: if_splits)
    next
      case (Forget keys)
      with run True busy show ?thesis
        by (cases keys) (auto simp: section_defs split: option.splits if_splits)
    qed (use run a True busy in \<open>auto simp: section_defs Let_def ws_is_idle_def
           split: option.splits if_splits sum.splits\<close>)
    then obtain w where t: "task = Register w b"
      by blast
    with reg [OF t] run show ?thesis
      by (auto simp: section_defs mapped_def split: if_splits)
  qed
qed

section \<open>Live workers\<close>

definition live_task :: "'w task \<Rightarrow> nat" where
  "live_task t =
     (case t of Admit a ready \<Rightarrow> length ready | Dispatch a ready \<Rightarrow> length ready | Leave \<Rightarrow> 1 | _ \<Rightarrow> 0)"

definition live_ok :: "'w scheduler \<Rightarrow> bool" where
  "live_ok s \<longleftrightarrow> tsum live_task (sc_threads s) = sc_live s"

lemma live_Sweep [simp]: "live_task (Sweep as r swept) = 0"
  by (simp add: live_task_def)

lemma run_task_live:
  assumes run: "run_task E rec task s = Some (s', next, spawned)"
    and pos: "task = Leave \<Longrightarrow> 0 < sc_live s"
  shows "sum_list (map live_task next) + tsum live_task spawned + sc_live s = live_task task + sc_live s'"
proof (cases task)
  case (Sweep as r swept)
  have "sum_list (map live_task (after_sweep swept)) = 0"
    by (subst sum_after_sweep) (simp add: live_task_def)
  then show ?thesis
    using run Sweep by (cases as) (auto simp: section_defs Let_def split: if_splits)
next
  case (Forget keys)
  with run show ?thesis
    by (cases keys) (auto simp: section_defs live_task_def split: option.splits if_splits)
next
  case (Dispatch a ready)
  have "sum_list (map (\<lambda>w. Suc 0) ready) = length ready" for ready :: "'b list"
    by (induction ready) auto
  with run Dispatch show ?thesis
    by (auto simp: section_defs live_task_def tsum_workers sum_list_triv)
qed (use run pos in \<open>auto simp: section_defs Let_def live_task_def tsum_workers sum_list_zero
       split: if_splits option.splits sum.splits\<close>)

lemma live_step:
  assumes ok: "live_ok s" and run: "run_task E rec task s = Some (s', next, spawned)"
    and i: "i < length (sc_threads s)" "sc_threads s ! i = task # rest"
  shows "live_ok (s'\<lparr>sc_threads := (sc_threads s)[i := next @ rest] @ spawned\<rparr>)"
proof -
  have pos: "0 < sc_live s" if "task = Leave"
    using tsum_ge [OF i, of live_task] ok that by (simp add: live_ok_def live_task_def)
  show ?thesis
    using tsum_step_eq [OF i run_task_live [OF run pos]] ok by (simp add: live_ok_def)
qed

text \<open>A worker leaves only after it has finished: on every thread, no \<open>Finish\<close> lacks its \<open>Leave\<close>.\<close>

fun leaves_after :: "'w task list \<Rightarrow> bool" where
  "leaves_after [] = True"
| "leaves_after (Finish a d # ts) = (Leave \<in> set ts \<and> leaves_after ts)"
| "leaves_after (_ # ts) = leaves_after ts"

lemma leaves_after_append:
  "(\<forall>t\<in>set new. \<forall>a d. t \<noteq> Finish a d) \<Longrightarrow> leaves_after rest \<Longrightarrow> leaves_after (new @ rest)"
  by (induction new rule: leaves_after.induct) auto

lemma leaves_after_tail: "leaves_after (t # ts) \<Longrightarrow> leaves_after ts"
  by (cases t) auto

lemma leaves_after_Finish: "leaves_after ts \<Longrightarrow> Finish a d \<in> set ts \<Longrightarrow> Leave \<in> set ts"
  by (induction ts rule: leaves_after.induct) auto

lemma run_task_no_finish:
  "run_task E rec task s = Some (s', next, spawned) \<Longrightarrow>
   (\<forall>t\<in>set next. \<forall>a d. t \<noteq> Finish a d) \<and> (\<forall>ts\<in>set spawned. leaves_after ts)"
  by (induction E rec task s rule: run_task.induct)
     (auto simp: section_defs Let_def after_sweep_def worker_def
       split: if_splits option.splits sum.splits)

definition leaves_ok :: "'w scheduler \<Rightarrow> bool" where
  "leaves_ok s \<longleftrightarrow> (\<forall>ts\<in>set (sc_threads s). leaves_after ts)"

lemma leaves_step:
  assumes ok: "leaves_ok s" and run: "run_task E rec task s = Some (s', next, spawned)"
    and i: "i < length (sc_threads s)" "sc_threads s ! i = task # rest"
  shows "leaves_ok (s'\<lparr>sc_threads := (sc_threads s)[i := next @ rest] @ spawned\<rparr>)"
proof -
  have "leaves_after (task # rest)"
    using ok i by (metis leaves_ok_def nth_mem)
  then have "leaves_after (next @ rest)"
    using run_task_no_finish [OF run] by (auto intro: leaves_after_append dest: leaves_after_tail)
  with run_task_no_finish [OF run] ok show ?thesis
    by (auto simp: leaves_ok_def dest!: subsetD [OF set_update_subset_insert])
qed

section \<open>A head that may run is about to be offered\<close>

definition can_admit :: "'w scheduler \<Rightarrow> nat \<Rightarrow> bool" where
  "can_admit s b \<longleftrightarrow>
     admit_head (sc_shutting_down s) (sc_processes s) (ws_at (sc_heap s) b) \<noteq> None"

text \<open>The sections after which the workspace at \<open>b\<close> is offered to the pool again.\<close>

definition offers :: "nat \<Rightarrow> 'w task \<Rightarrow> bool" where
  "offers b t =
     (case t of
        Pump a \<Rightarrow> a = b
      | Admit a ready \<Rightarrow> a = b
      | PumpInTurn a \<Rightarrow> True
      | Sweep as r swept \<Rightarrow> b \<in> fst ` set swept
      | _ \<Rightarrow> False)"

definition offered :: "'w scheduler \<Rightarrow> bool" where
  "offered s \<longleftrightarrow>
     (\<forall>b. can_admit s b \<longrightarrow> (\<exists>ts\<in>set (sc_threads s). \<exists>t\<in>set ts. offers b t))"

lemma admit_head_iff:
  "admit_head sd p ws \<noteq> None \<longleftrightarrow>
     (\<exists>w q. ws_queue ws = w # q \<and> \<not> sd
        \<and> (if mutates_state (wt_risk w) then ws_running ws = []
           else \<not> ws_mutating ws \<and> ws_reads ws < WORKSPACE_READ_CONCURRENCY)
        \<and> (wt_spawns_processes w \<longrightarrow> pl_in_use p < pl_capacity p))"
  by (auto simp: admit_head_def Let_def try_acquire_def not_le split: list.splits)

lemma admit_head_waiting_None [simp]:
  "(admit_head sd p (ws\<lparr>ws_waiting := n\<rparr>) = None) = (admit_head sd p ws = None)"
proof -
  have "(admit_head sd p (ws\<lparr>ws_waiting := n\<rparr>) \<noteq> None) = (admit_head sd p ws \<noteq> None)"
    unfolding admit_head_iff by (simp add: ws_mutating_def ws_reads_def)
  then show ?thesis
    by (simp del: not_None_eq)
qed

lemma admit_head_more_slots:
  "pl_in_use p \<le> pl_in_use p' \<Longrightarrow> pl_capacity p' = pl_capacity p \<Longrightarrow>
   admit_head sd p' ws \<noteq> None \<Longrightarrow> admit_head sd p ws \<noteq> None"
  unfolding admit_head_iff by auto

lemma admit_head_empty [simp]: "ws_queue ws = [] \<Longrightarrow> admit_head sd p ws = None"
  by (simp add: admit_head_def)

lemma admit_head_shutdown [simp]: "admit_head True p ws = None"
  by (auto simp: admit_head_def split: list.splits)

lemma can_admit_mapped: "mapped_ok s \<Longrightarrow> can_admit s b \<Longrightarrow> b \<in> mapped s"
  unfolding mapped_ok_def can_admit_def ws_is_idle_def admit_head_iff by auto

lemma offers_simps [simp]:
  "offers b (Pump a) = (a = b)"
  "offers b (Admit a ready) = (a = b)"
  "offers b (PumpInTurn a)"
  "offers b (Sweep as r swept) = (b \<in> fst ` set swept)"
  "\<not> offers b (Enqueue w a)" "\<not> offers b (Finish a d)" "\<not> offers b (Enter w k)"
  "\<not> offers b (Register w a)"
  "\<not> offers b (Dispatch a ready)" "\<not> offers b (Submit c)" "\<not> offers b (Claim c)"
  "\<not> offers b (Load c)" "\<not> offers b (Body x)" "\<not> offers b ForgetIdle" "\<not> offers b (Forget ks)"
  "\<not> offers b (ReleaseClaim i)" "\<not> offers b Leave" "\<not> offers b (ReportTo d)"
  "\<not> offers b StopCheck" "\<not> offers b (Stop r)" "\<not> offers b Shutdown"
  by (simp_all add: offers_def)

lemma fst_in: "(x, y) \<in> A \<Longrightarrow> x \<in> fst ` A" and snd_in: "(x, y) \<in> A \<Longrightarrow> y \<in> snd ` A"
  by force+

lemma offers_after_sweep: "b \<in> fst ` set swept \<Longrightarrow> \<exists>t\<in>set (after_sweep swept). offers b t"
  by (force simp: after_sweep_def)

lemma run_task_offers:
  assumes run: "run_task E rec task s = Some (s', next, spawned)" and m: "map_ok s"
    and a: "\<forall>a\<in>task_addrs task. a < length (sc_heap s)" and mapped: "mapped_ok s"
    and can: "can_admit s' b"
  shows "can_admit s b \<and> \<not> offers b task \<or> (\<exists>t\<in>set next. offers b t)"
proof (cases task)
  case (Admit c ready)
  show ?thesis
  proof (cases "admit_head (sc_shutting_down s) (sc_processes s) (ws_at (sc_heap s) c)")
    case None
    with run a Admit can show ?thesis
      by (auto simp: section_defs can_admit_def)
  next
    case (Some x)
    obtain p' ws' w where x: "x = (p', ws', w)"
      by (cases x)
    have "pl_in_use (sc_processes s) \<le> pl_in_use p'" "pl_capacity p' = pl_capacity (sc_processes s)"
      using admit_head_Some [OF Some [unfolded x]] by auto
    note slots = admit_head_more_slots [OF this, of "sc_shutting_down s" "ws_at (sc_heap s) b"]
    show ?thesis
    proof (cases "b = c")
      case False
      with run a Admit can Some x have "admit_head (sc_shutting_down s) p' (ws_at (sc_heap s) b) \<noteq> None"
        by (auto simp: section_defs can_admit_def)
      from slots [OF this] False Admit show ?thesis
        by (simp add: can_admit_def)
    qed (use run a Admit Some x in \<open>auto simp: section_defs\<close>)
  qed
next
  case (Register w c)
  with run a have "can_admit s' b = can_admit s b"
    by (auto simp: section_defs can_admit_def simp del: not_None_eq split: if_splits)
  with can Register show ?thesis
    by simp
next
  case (Enqueue w c)
  with run a can show ?thesis
    by (auto simp: section_defs Let_def can_admit_def split: if_splits)
next
  case (PumpInTurn c)
  with run can have "can_admit s b"
    by (auto simp: section_defs Let_def can_admit_def split: if_splits)
  define live where "live = map snd (sc_workspaces s)"
  from can_admit_mapped [OF mapped \<open>can_admit s b\<close>] have "b \<in> set live"
    by (simp add: mapped_def live_def)
  then have "Pump b \<in> set next"
    using run PumpInTurn by (auto simp: section_defs Let_def live_def [symmetric] split: if_splits)
  then show ?thesis
    by force
next
  case (Finish c d)
  with run a can show ?thesis
    by (auto simp: section_defs Let_def can_admit_def split: if_splits option.splits)
next
  case (Sweep as r swept)
  show ?thesis
  proof (cases as)
    case Nil
    with run Sweep can offers_after_sweep [of b swept] show ?thesis
      by auto
  next
    case (Cons c cs)
    with run a Sweep can show ?thesis
      by (auto simp: section_defs Let_def can_admit_def intro: fst_in split: if_splits)
  qed
next
  case (Forget keys)
  with run can show ?thesis
    by (cases keys) (auto simp: section_defs can_admit_def split: option.splits if_splits)
qed (use run a can in \<open>auto simp: section_defs Let_def can_admit_def
       split: if_splits option.splits sum.splits\<close>)

lemma step_threads_keep:
  assumes "i < length threads" "threads ! i = task # rest"
    and "ts \<in> set threads" "t \<in> set ts" "t \<noteq> task"
  shows "\<exists>ts\<in>set (threads[i := next @ rest] @ spawned). t \<in> set ts"
proof -
  from assms(3) obtain j where j: "j < length threads" "ts = threads ! j"
    by (auto simp: in_set_conv_nth)
  show ?thesis
  proof (cases "j = i")
    case True
    with assms j have "t \<in> set (next @ rest)" "next @ rest \<in> set (threads[i := next @ rest])"
      by (auto simp: set_update_memI)
    then show ?thesis
      by (intro bexI [of _ "next @ rest"]) auto
  next
    case False
    with j have "ts \<in> set (threads[i := next @ rest])"
      by (metis length_list_update nth_list_update_neq nth_mem)
    with assms(4) show ?thesis
      by auto
  qed
qed

lemma step_threads_next:
  assumes "i < length threads" "t \<in> set next"
  shows "\<exists>ts\<in>set (threads[i := next @ rest] @ spawned). t \<in> set ts"
  using assms set_update_memI [of i threads "next @ rest"]
  by (intro bexI [of _ "next @ rest"]) auto

lemma offered_step:
  assumes ok: "offered s" and run: "run_task E rec task s = Some (s', next, spawned)"
    and i: "i < length (sc_threads s)" "sc_threads s ! i = task # rest"
    and m: "map_ok s" "addrs_ok s" "mapped_ok s"
  shows "offered (s'\<lparr>sc_threads := (sc_threads s)[i := next @ rest] @ spawned\<rparr>)"
  unfolding offered_def
proof (intro allI impI)
  fix b
  let ?threads = "(sc_threads s)[i := next @ rest] @ spawned"
  assume "can_admit (s'\<lparr>sc_threads := ?threads\<rparr>) b"
  then have "can_admit s' b"
    by (simp add: can_admit_def)
  from run_task_offers [OF run m(1) addrs_ok_head [OF m(2) i] m(3) this]
  have "\<exists>ts\<in>set ?threads. \<exists>t\<in>set ts. offers b t"
  proof
    assume can: "can_admit s b \<and> \<not> offers b task"
    with ok obtain ts t where "ts \<in> set (sc_threads s)" "t \<in> set ts" "offers b t"
      unfolding offered_def by blast
    with can step_threads_keep [OF i, of ts t "next" spawned] show ?thesis
      by blast
  next
    assume "\<exists>t\<in>set next. offers b t"
    with step_threads_next [OF i(1), of _ "next" rest spawned] show ?thesis
      by blast
  qed
  then show "\<exists>ts\<in>set (sc_threads (s'\<lparr>sc_threads := ?threads\<rparr>)). \<exists>t\<in>set ts. offers b t"
    by simp
qed

section \<open>A shutdown sweeps every queue\<close>

definition sweeps :: "nat \<Rightarrow> 'w task \<Rightarrow> bool" where
  "sweeps b t =
     (case t of
        StopCheck \<Rightarrow> True
      | Stop r \<Rightarrow> r = None
      | Sweep as r swept \<Rightarrow> r = None \<and> b \<in> set as
      | _ \<Rightarrow> False)"

definition swept_ok :: "'w scheduler \<Rightarrow> bool" where
  "swept_ok s \<longleftrightarrow>
     (sc_shutting_down s \<longrightarrow>
        (\<forall>b. ws_queue (ws_at (sc_heap s) b) \<noteq> [] \<longrightarrow>
           (\<exists>ts\<in>set (sc_threads s). \<exists>t\<in>set ts. sweeps b t)))"

lemma sweeps_simps [simp]:
  "sweeps b StopCheck" "sweeps b (Stop r) = (r = None)"
  "sweeps b (Sweep as r swept) = (r = None \<and> b \<in> set as)"
  "\<not> sweeps b (Pump a)" "\<not> sweeps b (Admit a ready)" "\<not> sweeps b (PumpInTurn a)"
  "\<not> sweeps b (Enqueue w a)" "\<not> sweeps b (Finish a d)" "\<not> sweeps b (Enter w k)"
  "\<not> sweeps b (Register w a)"
  "\<not> sweeps b (Dispatch a ready)" "\<not> sweeps b (Submit c)" "\<not> sweeps b (Claim c)"
  "\<not> sweeps b (Load c)" "\<not> sweeps b (Body x)" "\<not> sweeps b ForgetIdle" "\<not> sweeps b (Forget ks)"
  "\<not> sweeps b (ReleaseClaim i)" "\<not> sweeps b Leave" "\<not> sweeps b (ReportTo d)"
  "\<not> sweeps b Shutdown"
  by (simp_all add: sweeps_def)

lemma run_matches_None [simp]: "run_matches None r"
  by (simp add: run_matches_def)

lemma run_task_sweeps:
  assumes run: "run_task E rec task s = Some (s', next, spawned)" and m: "map_ok s"
    and a: "\<forall>a\<in>task_addrs task. a < length (sc_heap s)" and mapped: "mapped_ok s"
    and q: "sc_shutting_down s'" "ws_queue (ws_at (sc_heap s') b) \<noteq> []"
  shows "sc_shutting_down s \<and> ws_queue (ws_at (sc_heap s) b) \<noteq> [] \<and> \<not> sweeps b task
         \<or> (\<exists>t\<in>set next. sweeps b t)"
proof (cases task)
  case (Admit c ready)
  with run a q show ?thesis
    by (auto simp: section_defs dest!: admit_head_Some split: option.splits if_splits)
next
  case (Register w c)
  with run a q show ?thesis
    by (auto simp: section_defs split: if_splits)
next
  case (Stop r)
  with run q have "ws_queue (ws_at (sc_heap s) b) \<noteq> []"
    by (auto simp: section_defs split: if_splits)
  with mapped have "b \<in> mapped s"
    by (auto simp: mapped_ok_def ws_is_idle_def)
  with run Stop q show ?thesis
    by (cases r) (auto simp: section_defs mapped_def intro: snd_in split: if_splits)
next
  case (Sweep as r swept)
  with run a q show ?thesis
    by (cases as; cases r) (auto simp: section_defs Let_def split: if_splits)
next
  case (Forget keys)
  with run q show ?thesis
    by (cases keys) (auto simp: section_defs split: option.splits if_splits)
qed (use run a q in \<open>auto simp: section_defs Let_def split: if_splits option.splits sum.splits\<close>)

lemma swept_step:
  assumes ok: "swept_ok s" and run: "run_task E rec task s = Some (s', next, spawned)"
    and i: "i < length (sc_threads s)" "sc_threads s ! i = task # rest"
    and m: "map_ok s" "addrs_ok s" "mapped_ok s"
  shows "swept_ok (s'\<lparr>sc_threads := (sc_threads s)[i := next @ rest] @ spawned\<rparr>)"
  unfolding swept_ok_def
proof (intro impI allI)
  fix b
  let ?threads = "(sc_threads s)[i := next @ rest] @ spawned"
  assume "sc_shutting_down (s'\<lparr>sc_threads := ?threads\<rparr>)"
    "ws_queue (ws_at (sc_heap (s'\<lparr>sc_threads := ?threads\<rparr>)) b) \<noteq> []"
  then have "sc_shutting_down s'" "ws_queue (ws_at (sc_heap s') b) \<noteq> []"
    by simp_all
  from run_task_sweeps [OF run m(1) addrs_ok_head [OF m(2) i] m(3) this]
  have "\<exists>ts\<in>set ?threads. \<exists>t\<in>set ts. sweeps b t"
  proof
    assume old: "sc_shutting_down s \<and> ws_queue (ws_at (sc_heap s) b) \<noteq> [] \<and> \<not> sweeps b task"
    with ok obtain ts t where "ts \<in> set (sc_threads s)" "t \<in> set ts" "sweeps b t"
      unfolding swept_ok_def by blast
    with old step_threads_keep [OF i, of ts t "next" spawned] show ?thesis
      by blast
  next
    assume "\<exists>t\<in>set next. sweeps b t"
    with step_threads_next [OF i(1), of _ "next" rest spawned] show ?thesis
      by blast
  qed
  then show "\<exists>ts\<in>set (sc_threads (s'\<lparr>sc_threads := ?threads\<rparr>)). \<exists>t\<in>set ts. sweeps b t"
    by simp
qed

section \<open>Every number drawn is accounted for\<close>

text \<open>
  A dispatch number is drawn by a submission. It is in the submission's hands until the call joins a
  queue, which issues its ticket, or the submission is refused; an issued ticket waits in a queue, in
  the hands of a worker or of a sweep, until its outcome is reported.
\<close>

definition submit_task :: "'w task \<Rightarrow> u64 multiset" where
  "submit_task t =
     (case t of
        Enter w k \<Rightarrow> {#wt_dispatch w#}
      | Register w a \<Rightarrow> {#wt_dispatch w#}
      | Enqueue w a \<Rightarrow> {#wt_dispatch w#}
      | _ \<Rightarrow> {#})"

definition report_task :: "'w task \<Rightarrow> u64 multiset" where
  "report_task t =
     (case t of
        Admit a ready \<Rightarrow> mset (map wt_dispatch ready)
      | Dispatch a ready \<Rightarrow> mset (map wt_dispatch ready)
      | ReportTo d \<Rightarrow> {#d#}
      | Sweep as r swept \<Rightarrow> sum_list (map (\<lambda>e. mset (map wt_dispatch (snd e))) swept)
      | _ \<Rightarrow> {#})"

definition report_ws :: "'w workspace_state \<Rightarrow> u64 multiset" where
  "report_ws ws = mset (map wt_dispatch (ws_queue ws))"

definition drawn_ok :: "'w scheduler \<Rightarrow> bool" where
  "drawn_ok s \<longleftrightarrow>
     (\<forall>d. count (tsum submit_task (sc_threads s) + mset (sc_tickets s) + mset (sc_refused s)) d
        = (if unat d < unat (sc_dispatched s) then 1 else 0))"

definition issued_ok :: "'w scheduler \<Rightarrow> bool" where
  "issued_ok s \<longleftrightarrow> mset (sc_tickets s) = held report_task report_ws s + mset (sc_reports s)"

lemma report_ws_simps [simp]:
  "report_ws (ws\<lparr>ws_waiting := n\<rparr>) = report_ws ws"
  "report_ws (ws\<lparr>ws_running := r\<rparr>) = report_ws ws"
  "report_ws (ws\<lparr>ws_waiting := n, ws_queue := ws_queue ws @ [w]\<rparr>)
     = add_mset (wt_dispatch w) (report_ws ws)"
  "report_ws WorkspaceState_default = {#}"
  by (simp_all add: report_ws_def)

lemma report_ws_admit:
  "admit_head sd p ws = Some (p', ws', w) \<Longrightarrow> report_ws ws = add_mset (wt_dispatch w) (report_ws ws')"
  by (auto dest!: admit_head_Some simp: report_ws_def)

lemma report_ws_sweep:
  "report_ws (ws\<lparr>ws_queue := filter (\<lambda>w. \<not> P w) (ws_queue ws)\<rparr>)
     + mset (map wt_dispatch (filter P (ws_queue ws))) = report_ws ws"
  using mset_filter_split [of wt_dispatch P "ws_queue ws"] by (simp add: report_ws_def ac_simps)

lemma run_task_drawn:
  assumes run: "run_task E rec task s = Some (s', next, spawned)"
  shows "sum_list (map submit_task next) + tsum submit_task spawned
      + (mset (sc_tickets s') + mset (sc_refused s'))
    = submit_task task + (mset (sc_tickets s) + mset (sc_refused s)
      + (if sc_dispatched s' = sc_dispatched s then {#} else {#sc_dispatched s#}))"
proof (cases task)
  case (Sweep as r swept)
  have "sum_list (map submit_task (after_sweep swept)) = {#}"
    by (subst sum_after_sweep) (simp add: submit_task_def)
  then show ?thesis
    using run Sweep
    by (cases as) (auto simp: section_defs Let_def submit_task_def split: if_splits)
next
  case (Forget keys)
  with run show ?thesis
    by (cases keys) (auto simp: section_defs submit_task_def split: option.splits if_splits)
qed (use run in \<open>auto simp: section_defs Let_def submit_task_def tsum_workers sum_list_zero
       split: if_splits option.splits sum.splits\<close>)

lemma run_task_issued:
  assumes run: "run_task E rec task s = Some (s', next, spawned)" and m: "map_ok s"
    and a: "\<forall>a\<in>task_addrs task. a < length (sc_heap s)"
  shows "hsum report_ws (sc_heap s')
     + (sum_list (map report_task next) + tsum report_task spawned
        + (mset (sc_reports s') + mset (sc_tickets s)))
   = hsum report_ws (sc_heap s) + (report_task task + (mset (sc_reports s) + mset (sc_tickets s')))"
proof (cases task)
  case (Sweep as r swept)
  show ?thesis
  proof (cases as)
    case (Cons b bs)
    let ?P = "\<lambda>w. run_matches r (wt_run w)"
    let ?q = "ws_queue (heap_state s b)"
    let ?ws = "heap_state s b\<lparr>ws_queue := filter (\<lambda>w. \<not> ?P w) ?q\<rparr>"
    have "hsum report_ws ((sc_heap s)[b := (sc_heap s ! b)\<lparr>wk_state := ?ws\<rparr>])
        + mset (map wt_dispatch (filter ?P ?q)) = hsum report_ws (sc_heap s) + {#}"
      using a Sweep Cons report_ws_sweep [of ?P "heap_state s b"] by (intro hsum_update_eq) auto
    then show ?thesis
      using run Sweep Cons
      by (auto simp: section_defs Let_def report_task_def simp del: ws_at_old split: if_splits)
  qed (use run Sweep in \<open>auto simp: report_task_def sum_after_sweep\<close>)
next
  case (Admit b ready)
  then have b: "b < length (sc_heap s)"
    using a by simp
  show ?thesis
    using run Admit b
    by (auto simp: section_defs report_task_def hsum_less dest!: report_ws_admit
        split: option.splits)
next
  case (Forget keys)
  with run show ?thesis
    by (cases keys) (auto simp: section_defs report_task_def split: option.splits if_splits)
qed (use run a in \<open>auto simp: section_defs Let_def report_task_def
       tsum_workers sum_list_zero hsum_same hsum_more
       dest: map_ok_lookup [OF m] split: if_splits option.splits sum.splits\<close>)

end
