(* ===== verification/Scheduler_Properties.thy ===== *)
theory Scheduler_Properties
  imports Scheduler_Progress Policy_Properties
begin

text \<open>
  The invariant of the scheduler over all interleavings, and the theorems it carries: mutual
  exclusion, bounds, claims, workers, offers, shutdown and tickets.
\<close>

section \<open>Who may be blocked\<close>

text \<open>The sections of a submission before it is queued; a thread that executes one has nothing else.\<close>

definition submitting :: "'w task \<Rightarrow> bool" where
  "submitting t =
     (case t of Submit c \<Rightarrow> True | Claim c \<Rightarrow> True | Load c \<Rightarrow> True | Enter w k \<Rightarrow> True
      | Register w a \<Rightarrow> True | Enqueue w a \<Rightarrow> True | _ \<Rightarrow> False)"

definition alone :: "'w task list \<Rightarrow> bool" where
  "alone ts \<longleftrightarrow> (\<forall>t\<in>set ts. submitting t \<longrightarrow> ts = [t])"

definition alone_ok :: "'w scheduler \<Rightarrow> bool" where
  "alone_ok s \<longleftrightarrow> (\<forall>ts\<in>set (sc_threads s). alone ts)"

lemma submitting_simps [simp]:
  "submitting (Submit c)" "submitting (Claim c)" "submitting (Load c)" "submitting (Enter w k)"
  "submitting (Register w a)" "submitting (Enqueue w a)"
  "\<not> submitting (Pump a)" "\<not> submitting (Admit a ready)" "\<not> submitting (PumpInTurn a)"
  "\<not> submitting (Finish a d)" "\<not> submitting (Dispatch a ready)" "\<not> submitting (Body x)"
  "\<not> submitting ForgetIdle" "\<not> submitting (Forget ks)" "\<not> submitting (ReleaseClaim i)"
  "\<not> submitting Leave" "\<not> submitting (ReportTo d)" "\<not> submitting Shutdown"
  "\<not> submitting StopCheck" "\<not> submitting (Stop r)" "\<not> submitting (Sweep as r swept)"
  by (simp_all add: submitting_def)

lemma run_task_alone:
  "run_task E rec task s = Some (s', next, spawned) \<Longrightarrow>
   (if submitting task then alone next else \<forall>t\<in>set next. \<not> submitting t)
   \<and> (\<forall>ts\<in>set spawned. alone ts)"
  by (induction E rec task s rule: run_task.induct)
     (auto simp: section_defs Let_def alone_def after_sweep_def worker_def
       split: if_splits option.splits sum.splits)

lemma alone_step:
  assumes ok: "alone_ok s" and run: "run_task E rec task s = Some (s', next, spawned)"
    and i: "i < length (sc_threads s)" "sc_threads s ! i = task # rest"
  shows "alone_ok (s'\<lparr>sc_threads := (sc_threads s)[i := next @ rest] @ spawned\<rparr>)"
proof -
  have a: "alone (task # rest)"
    using ok i by (metis alone_ok_def nth_mem)
  have "alone (next @ rest)"
  proof (cases "submitting task")
    case True
    with a have "rest = []"
      by (simp add: alone_def)
    with True run_task_alone [OF run] show ?thesis
      by simp
  next
    case False
    have "\<not> submitting t" if "t \<in> set rest" for t
      using a that False by (auto simp: alone_def)
    with False run_task_alone [OF run] show ?thesis
      by (auto simp: alone_def)
  qed
  with run_task_alone [OF run] ok show ?thesis
    by (auto simp: alone_ok_def dest!: subsetD [OF set_update_subset_insert])
qed

section \<open>Who holds a mutex\<close>

text \<open>A mutex that is held is held by the section some thread is about to execute.\<close>

definition heading :: "('w task \<Rightarrow> bool) \<Rightarrow> 'w task list list \<Rightarrow> bool" where
  "heading P threads \<longleftrightarrow> (\<exists>i<length threads. \<exists>t rest. threads ! i = t # rest \<and> P t)"

lemma heading_snoc: "heading P threads \<Longrightarrow> heading P (threads @ extra)"
  unfolding heading_def by (metis length_append nth_append trans_less_add1)

lemma heading_step:
  assumes i: "i < length threads" "threads ! i = task # rest"
    and "heading P threads \<and> \<not> P task \<or> (\<exists>t more. next = t # more \<and> P t)"
  shows "heading P (threads[i := next @ rest] @ spawned)"
  using assms(3)
proof
  assume old: "heading P threads \<and> \<not> P task"
  then obtain j t more where j: "j < length threads" "threads ! j = t # more" "P t"
    by (auto simp: heading_def)
  with old i have "threads[i := next @ rest] ! j = t # more"
    by (cases "j = i") auto
  with j show ?thesis
    by (intro heading_snoc) (auto simp: heading_def)
next
  assume "\<exists>t more. next = t # more \<and> P t"
  with i show ?thesis
    by (intro heading_snoc) (force simp: heading_def)
qed

text \<open>Whoever holds the mutex of a workspace is in the middle of an admission there.\<close>

definition lock_ok :: "'w scheduler \<Rightarrow> bool" where
  "lock_ok s \<longleftrightarrow>
     (\<forall>a\<in>sc_locked s. heading (\<lambda>t. \<exists>ready. t = Admit a ready) (sc_threads s))"

lemma run_task_lock:
  "run_task E rec task s = Some (s', next, spawned) \<Longrightarrow> a \<in> sc_locked s' \<Longrightarrow>
   a \<in> sc_locked s \<and> (\<forall>ready. task \<noteq> Admit a ready) \<or> (\<exists>ready more. next = Admit a ready # more)"
  by (induction E rec task s rule: run_task.induct)
     (auto simp: section_defs Let_def split: if_splits option.splits sum.splits)

lemma lock_step:
  assumes "lock_ok s" and run: "run_task E rec task s = Some (s', next, spawned)"
    and i: "i < length (sc_threads s)" "sc_threads s ! i = task # rest"
  shows "lock_ok (s'\<lparr>sc_threads := (sc_threads s)[i := next @ rest] @ spawned\<rparr>)"
  using assms(1) run_task_lock [OF run] by (fastforce simp: lock_ok_def intro!: heading_step [OF i])

text \<open>
  Whoever holds the mutex of the map is registering a submission or forgetting idle workspaces, and
  is the only one.
\<close>

definition map_task :: "'w task \<Rightarrow> nat" where
  "map_task t = (case t of Register w a \<Rightarrow> 1 | Forget keys \<Rightarrow> 1 | _ \<Rightarrow> 0)"

lemma map_task_simps [simp]:
  "map_task (Register w a) = 1" "map_task (Forget keys) = 1"
  "map_task (Submit c) = 0" "map_task (Claim c) = 0" "map_task (Load c) = 0"
  "map_task (Enter w k) = 0" "map_task (Enqueue w a) = 0" "map_task (Pump a) = 0"
  "map_task (Admit a ready) = 0" "map_task (Dispatch a ready) = 0" "map_task (Body x) = 0"
  "map_task (Finish a d) = 0" "map_task (PumpInTurn a) = 0" "map_task ForgetIdle = 0"
  "map_task (ReleaseClaim i) = 0" "map_task Leave = 0" "map_task (ReportTo d) = 0"
  "map_task StopCheck = 0" "map_task (Stop r) = 0" "map_task (Sweep as r swept) = 0"
  "map_task Shutdown = 0"
  by (simp_all add: map_task_def)

lemma map_task_after_sweep [simp]: "t \<in> set (after_sweep swept) \<Longrightarrow> map_task t = 0"
  by (auto simp: after_sweep_def)

definition map_lock_ok :: "'w scheduler \<Rightarrow> bool" where
  "map_lock_ok s \<longleftrightarrow> tsum map_task (sc_threads s) = (if sc_map_locked s then 1 else 0)
     \<and> (sc_map_locked s \<longrightarrow> heading (\<lambda>t. map_task t = 1) (sc_threads s))"

lemma run_task_map_lock:
  assumes run: "run_task E rec task s = Some (s', next, spawned)"
    and held: "0 < map_task task \<Longrightarrow> sc_map_locked s"
  shows "sum_list (map map_task next) + tsum map_task spawned + (if sc_map_locked s then 1 else 0)
       = map_task task + (if sc_map_locked s' then 1 else 0)"
    and "sc_map_locked s' \<Longrightarrow> sc_map_locked s \<and> map_task task \<noteq> 1
       \<or> (\<exists>t more. next = t # more \<and> map_task t = 1)"
proof -
  show "sum_list (map map_task next) + tsum map_task spawned + (if sc_map_locked s then 1 else 0)
       = map_task task + (if sc_map_locked s' then 1 else 0)"
    using run held
    by (induction E rec task s rule: run_task.induct)
       (auto simp: section_defs Let_def tsum_workers sum_list_zero
         split: if_splits option.splits sum.splits)
  show "sc_map_locked s' \<Longrightarrow> sc_map_locked s \<and> map_task task \<noteq> 1
       \<or> (\<exists>t more. next = t # more \<and> map_task t = 1)"
    using run held
    by (induction E rec task s rule: run_task.induct)
       (auto simp: section_defs Let_def split: if_splits option.splits sum.splits)
qed

lemma map_lock_step:
  assumes ok: "map_lock_ok s" and run: "run_task E rec task s = Some (s', next, spawned)"
    and i: "i < length (sc_threads s)" "sc_threads s ! i = task # rest"
  shows "map_lock_ok (s'\<lparr>sc_threads := (sc_threads s)[i := next @ rest] @ spawned\<rparr>)"
proof -
  have held: "sc_map_locked s" if "0 < map_task task"
    using tsum_ge [OF i, of map_task] ok that by (auto simp: map_lock_ok_def split: if_splits)
  note run_task_map_lock [OF run held]
  with tsum_step_eq [OF i, of map_task "next" spawned "if sc_map_locked s then 1 else 0"
      "if sc_map_locked s' then 1 else 0"] ok
  show ?thesis
    by (auto simp: map_lock_ok_def intro!: heading_step [OF i] split: if_splits)
qed

text \<open>While a submission registers, its workspace stays in the map.\<close>

definition registered_ok :: "'w scheduler \<Rightarrow> bool" where
  "registered_ok s \<longleftrightarrow>
     (\<forall>ts\<in>set (sc_threads s). \<forall>w a. Register w a \<in> set ts \<longrightarrow> a \<in> mapped s)"

lemma tsum_other:
  fixes f :: "'w task \<Rightarrow> nat"
  assumes i: "i < length threads" "threads ! i = task # rest"
    and t: "ts \<in> set (threads[i := rest])" "t \<in> set ts"
  shows "f task + f t \<le> tsum f threads"
proof -
  have "f t \<le> sum_list (map f ts)"
    using t(2) by (intro member_le_sum_list) auto
  also have "\<dots> \<le> tsum f (threads[i := rest])"
    unfolding tsum_def using t(1) by (intro member_le_sum_list) auto
  finally show ?thesis
    using tsum_update [OF i, of f "[]" "[]"] by simp
qed

lemma run_task_registers:
  "run_task E rec task s = Some (s', next, spawned) \<Longrightarrow>
   (\<forall>w a. Register w a \<in> set next \<longrightarrow> a \<in> mapped s')
   \<and> (\<forall>ts\<in>set spawned. \<forall>w a. Register w a \<notin> set ts)
   \<and> (mapped s \<subseteq> mapped s' \<or> (\<exists>keys. task = Forget keys))"
  by (induction E rec task s rule: run_task.induct)
     (auto simp: section_defs Let_def mapped_def after_sweep_def worker_def set_btree_insert_new
       dest!: map_of_SomeD split: if_splits option.splits sum.splits intro: snd_in)

lemma in_update_cases:
  assumes "x \<in> set (xs[i := u])"
  shows "x = u \<or> x \<in> set (xs[i := v])"
proof -
  from assms obtain j where "j < length xs" "x = xs[i := u] ! j"
    by (auto simp: in_set_conv_nth)
  then show ?thesis
    by (cases "j = i") (auto simp: in_set_conv_nth intro!: exI [of _ j])
qed

lemma registered_step:
  assumes ok: "registered_ok s" "map_lock_ok s"
    and run: "run_task E rec task s = Some (s', next, spawned)"
    and i: "i < length (sc_threads s)" "sc_threads s ! i = task # rest"
  shows "registered_ok (s'\<lparr>sc_threads := (sc_threads s)[i := next @ rest] @ spawned\<rparr>)"
proof -
  have old: "a \<in> mapped s'" if ts: "ts \<in> set ((sc_threads s)[i := rest])" "Register w a \<in> set ts" for ts w a
  proof -
    have "map_task task + map_task (Register w a) \<le> 1"
      using tsum_other [OF i ts, of map_task] ok(2) by (auto simp: map_lock_ok_def split: if_splits)
    then have "mapped s \<subseteq> mapped s'"
      using run_task_registers [OF run] by (auto simp: map_task_def)
    moreover have "task # rest \<in> set (sc_threads s)"
      using i by (metis nth_mem)
    then have "\<exists>us\<in>set (sc_threads s). Register w a \<in> set us"
      using ts set_update_subset_insert [of "sc_threads s" i rest]
      by (metis insertE list.set_intros(2) subsetD)
    ultimately show ?thesis
      using ok(1) unfolding registered_ok_def by blast
  qed
  have "a \<in> mapped s'"
    if "ts \<in> set ((sc_threads s)[i := next @ rest] @ spawned)" "Register w a \<in> set ts" for ts w a
  proof -
    from that(1) consider "ts \<in> set spawned" | "ts = next @ rest" | "ts \<in> set ((sc_threads s)[i := rest])"
      using in_update_cases [of ts "sc_threads s" i "next @ rest" rest] by auto
    then show ?thesis
    proof cases
      case 2
      have "rest \<in> set ((sc_threads s)[i := rest])"
        using i(1) by (rule set_update_memI)
      with 2 that(2) old run_task_registers [OF run] show ?thesis
        by auto
    qed (use that(2) old run_task_registers [OF run] in auto)
  qed
  then show ?thesis
    by (simp add: registered_ok_def mapped_def)
qed

section \<open>The invariant\<close>

definition sched_inv :: "'w scheduler \<Rightarrow> bool" where
  "sched_inv s \<longleftrightarrow> map_ok s \<and> addrs_ok s \<and> dispatch_ok s \<and> claims_ok s
     \<and> (\<forall>b. ws_ok (ws_at (sc_heap s) b)) \<and> slots_ok s \<and> workers_ok s \<and> parked_ok s \<and> mapped_ok s
     \<and> live_ok s \<and> leaves_ok s \<and> offered s \<and> swept_ok s \<and> drawn_ok s
     \<and> issued_ok s \<and> alone_ok s \<and> lock_ok s \<and> map_lock_ok s \<and> registered_ok s"

lemma drawn_step:
  assumes ok: "drawn_ok s" and run: "run_task E rec task s = Some (s', next, spawned)"
    and i: "i < length (sc_threads s)" "sc_threads s ! i = task # rest" and d: "sc_dispatched s \<noteq> - 1"
  shows "drawn_ok (s'\<lparr>sc_threads := (sc_threads s)[i := next @ rest] @ spawned\<rparr>)"
proof -
  let ?logs = "\<lambda>s. mset (sc_tickets s) + mset (sc_refused s)"
  let ?new = "if sc_dispatched s' = sc_dispatched s then {#} else {#sc_dispatched s#}"
  have eq: "tsum submit_task ((sc_threads s)[i := next @ rest] @ spawned) + ?logs s'
      = tsum submit_task (sc_threads s) + (?logs s + ?new)"
    by (rule tsum_step_eq [OF i run_task_drawn [OF run]])
  have "count (tsum submit_task ((sc_threads s)[i := next @ rest] @ spawned) + ?logs s') e
      = count (tsum submit_task (sc_threads s) + mset (sc_tickets s) + mset (sc_refused s)) e
        + count ?new e" for e
    unfolding eq by (simp only: count_union add.assoc)
  then have "count (tsum submit_task ((sc_threads s)[i := next @ rest] @ spawned) + ?logs s') e
      = (if unat e < unat (sc_dispatched s) then 1 else 0) + count ?new e" for e
    using ok unfolding drawn_ok_def by simp
  moreover have "(if unat e < unat (sc_dispatched s) then 1 else 0) + count ?new e
      = (if unat e < unat (sc_dispatched s') then 1 else 0)" for e
    using run_task_counter [OF run] unat_Suc [OF d]
    by (cases "e = sc_dispatched s") (auto simp: less_Suc_eq word_unat_eq_iff)
  ultimately have "count (tsum submit_task ((sc_threads s)[i := next @ rest] @ spawned) + ?logs s') e
      = (if unat e < unat (sc_dispatched s') then 1 else 0)" for e
    by (simp only:)
  then show ?thesis
    by (simp add: drawn_ok_def add.assoc)
qed

lemma issued_step:
  assumes ok: "issued_ok s" and run: "run_task E rec task s = Some (s', next, spawned)"
    and i: "i < length (sc_threads s)" "sc_threads s ! i = task # rest"
    and m: "map_ok s" "addrs_ok s"
  shows "issued_ok (s'\<lparr>sc_threads := (sc_threads s)[i := next @ rest] @ spawned\<rparr>)"
    (is "issued_ok ?s''")
proof -
  have "held report_task report_ws ?s'' + (mset (sc_reports s') + mset (sc_tickets s))
      = held report_task report_ws s + (mset (sc_reports s) + mset (sc_tickets s'))"
    by (rule held_step_eq [OF i run_task_issued [OF run m(1) addrs_ok_head [OF m(2) i]]])
  also have "\<dots> = mset (sc_tickets s) + mset (sc_tickets s')"
    using ok by (simp add: issued_ok_def ac_simps)
  finally show ?thesis
    by (simp add: issued_ok_def ac_simps)
qed

lemma addrs_step:
  assumes ok: "addrs_ok s" and run: "run_task E rec task s = Some (s', next, spawned)"
    and i: "i < length (sc_threads s)" "sc_threads s ! i = task # rest" and m: "map_ok s"
  shows "addrs_ok (s'\<lparr>sc_threads := (sc_threads s)[i := next @ rest] @ spawned\<rparr>)"
proof -
  have new: "a < length (sc_heap s')" if "t \<in> set next \<or> (\<exists>ts\<in>set spawned. t \<in> set ts)" "a \<in> task_addrs t" for t a
    using run_task_addrs [OF run m addrs_ok_head [OF ok i], of t a] that by auto
  have old: "a < length (sc_heap s')" if "ts \<in> set (sc_threads s)" "t \<in> set ts" "a \<in> task_addrs t" for ts t a
    using ok that run_task_heap_length [OF run] by (fastforce simp: addrs_ok_def)
  have "sc_threads s ! i \<in> set (sc_threads s)"
    using i(1) by (rule nth_mem)
  then have rest: "a < length (sc_heap s')" if "t \<in> set rest" "a \<in> task_addrs t" for t a
    using old that i(2) by (metis list.set_intros(2))
  have "a < length (sc_heap s')"
    if "ts \<in> set ((sc_threads s)[i := next @ rest] @ spawned)" "t \<in> set ts" "a \<in> task_addrs t" for ts t a
  proof -
    from that(1) have "ts = next @ rest \<or> ts \<in> set (sc_threads s) \<or> ts \<in> set spawned"
      using set_update_subset_insert [of "sc_threads s" i "next @ rest"] by auto
    with that(2,3) show ?thesis
      using new [of t a] rest [of t a] old [of ts t a] by auto
  qed
  then show ?thesis
    by (simp add: addrs_ok_def)
qed

lemma sched_inv_threads [simp]:
  "map_ok (s\<lparr>sc_threads := t\<rparr>) = map_ok s"
  "slots_ok (s\<lparr>sc_threads := t\<rparr>) = slots_ok s"
  "mapped_ok (s\<lparr>sc_threads := t\<rparr>) = mapped_ok s"
  by (simp_all add: map_ok_def slots_ok_def mapped_ok_def mapped_def)

lemma sched_inv_step:
  assumes inv: "sched_inv s" and run: "run_task E rec task s = Some (s', next, spawned)"
    and i: "i < length (sc_threads s)" "sc_threads s ! i = task # rest" and d: "sc_dispatched s \<noteq> - 1"
  shows "sched_inv (s'\<lparr>sc_threads := (sc_threads s)[i := next @ rest] @ spawned\<rparr>)"
proof -
  from inv have m: "map_ok s" and a: "addrs_ok s" and fresh: "fresh_at (ws_at (sc_heap s) b)" for b
    by (auto simp: sched_inv_def dispatch_ok_fresh)
  note here = addrs_ok_head [OF a i]
  have enq: "0 < ws_waiting (ws_at (sc_heap s) a)" if "task = Enqueue w a" for a w
    using tsum_ge [OF i, of "parked_task a"] inv that
    by (simp add: sched_inv_def parked_ok_def parked_task_def)
  have reg: "a \<in> mapped s" if "task = Register w a" for a w
    using inv i that by (metis list.set_intros(1) nth_mem registered_ok_def sched_inv_def)
  have "ws_ok (ws_at (sc_heap s') b)" for b
    using ws_move_ok [OF run_task_move [OF run m here, of b] fresh] inv by (simp add: sched_inv_def)
  then show ?thesis
    using inv addrs_step [OF a run i m] dispatch_step [OF _ run i m a d] claims_step [OF _ run i m a]
      run_task_map_ok [OF run m] run_task_slots [OF run m here fresh] workers_step [OF _ run i m a fresh]
      parked_step [OF _ run i m a] mapped_step [OF _ run m here enq reg] live_step [OF _ run i]
      leaves_step [OF _ run i] offered_step [OF _ run i m a] swept_step [OF _ run i m a]
      drawn_step [OF _ run i d] issued_step [OF _ run i m a] alone_step [OF _ run i]
      lock_step [OF _ run i] map_lock_step [OF _ run i] registered_step [OF _ _ run i]
    unfolding sched_inv_def by simp
qed

lemma sched_inv_initial: "sched_inv (Scheduler_with_process_limit n)"
  by (auto simp: sched_inv_def Scheduler_with_process_limit_def map_ok_def addrs_ok_def dispatch_ok_def
      dispatch_numbers_def held_def hsum_def claims_ok_def claims_def ws_at_def slots_ok_def
      ProcessLimit_new_def workers_ok_def parked_ok_def mapped_ok_def live_ok_def leaves_ok_def
      offered_def can_admit_def swept_ok_def drawn_ok_def issued_ok_def alone_ok_def lock_ok_def
      map_lock_ok_def registered_ok_def)

lemma sched_inv_enter:
  assumes "sched_inv s" "is_entry task"
  shows "sched_inv (s\<lparr>sc_threads := sc_threads s @ [[task]]\<rparr>)"
proof -
  have quiet: "task_addrs task = {}" "dispatch_task task = {#}" "claim_task task = {#}"
    "worker_task b task = {#}" "parked_task b task = 0" "live_task task = 0" "report_task task = {#}"
    "submit_task task = {#}" "map_task task = 0" "\<And>w a. task \<noteq> Register w a"
    "leaves_after [task]" "alone [task]" for b
    using assms(2) by (cases task; simp add: is_entry_def dispatch_task_def claim_task_def worker_task_def
        parked_task_def live_task_def report_task_def submit_task_def map_task_def alone_def)+
  moreover have "lock_ok (s\<lparr>sc_threads := sc_threads s @ [[task]]\<rparr>)"
    using assms(1) by (simp add: sched_inv_def lock_ok_def heading_snoc)
  moreover have "map_lock_ok (s\<lparr>sc_threads := sc_threads s @ [[task]]\<rparr>)"
    using assms(1) quiet(9) by (simp add: sched_inv_def map_lock_ok_def heading_snoc)
  moreover have "drawn_ok (s\<lparr>sc_threads := sc_threads s @ [[task]]\<rparr>)"
    using assms(1) quiet(8) by (simp add: sched_inv_def drawn_ok_def)
  moreover have "registered_ok (s\<lparr>sc_threads := sc_threads s @ [[task]]\<rparr>)"
    using assms(1) quiet(10) by (auto simp: sched_inv_def registered_ok_def mapped_def)
  ultimately show ?thesis
    using assms(1)
    unfolding sched_inv_def addrs_ok_def dispatch_ok_def dispatch_numbers_def claims_ok_def claims_def
      workers_ok_def parked_ok_def live_ok_def leaves_ok_def offered_def can_admit_def swept_ok_def
      issued_ok_def held_enter alone_ok_def
    by (auto simp del: count_add_mset)
qed

theorem sched_invariant: "sched_reachable E n s \<Longrightarrow> sched_inv s"
proof (induction rule: sched_reachable.induct)
  case sched_start
  show ?case
    by (rule sched_inv_initial)
next
  case (sched_next s s')
  from sched_next(2) sched_next.IH show ?case
    by cases (auto intro: sched_inv_step sched_inv_enter)
qed

end
