(* ===== verification/Scheduler_Theorems.thy ===== *)
theory Scheduler_Theorems
  imports Scheduler_Properties
begin

text \<open>The properties of the scheduler, each over every state that any interleaving reaches.\<close>

section \<open>Executing a schedule\<close>

text \<open>\<open>sched_exec E rec is s\<close> lets the threads numbered by \<open>is\<close> execute one section each.\<close>

fun sched_exec ::
  "('w, 'v) sched_env \<Rightarrow> string + loaded_call \<Rightarrow> nat list \<Rightarrow> 'w scheduler \<Rightarrow> 'w scheduler option" where
  "sched_exec E rec [] s = Some s"
| "sched_exec E rec (i # is) s =
     (if i < length (sc_threads s) \<and> sc_dispatched s \<noteq> - 1
      then case sc_threads s ! i of
             [] \<Rightarrow> None
           | task # rest \<Rightarrow>
               (case run_task E rec task s of
                  None \<Rightarrow> None
                | Some (s', next, spawned) \<Rightarrow>
                    sched_exec E rec is
                      (s'\<lparr>sc_threads := (sc_threads s)[i := next @ rest] @ spawned\<rparr>))
      else None)"

lemma sched_exec_reachable:
  "sched_exec E rec is s = Some s' \<Longrightarrow> sched_reachable E n s \<Longrightarrow> sched_reachable E n s'"
proof (induction "is" arbitrary: s)
  case (Cons i "is")
  then show ?case
    by (auto split: if_splits list.splits option.splits intro: sched_next step_run)
qed simp

definition entered :: "nat \<Rightarrow> 'w task list \<Rightarrow> 'w scheduler" where
  "entered n tasks = (Scheduler_with_process_limit n)\<lparr>sc_threads := map (\<lambda>t. [t]) tasks\<rparr>"

lemma entered_reachable: "list_all is_entry tasks \<Longrightarrow> sched_reachable E n (entered n tasks)"
proof (induction tasks rule: rev_induct)
  case Nil
  show ?case
    using sched_start [of E n] by (simp add: entered_def Scheduler_with_process_limit_def)
next
  case (snoc t tasks)
  then have "sched_reachable E n (entered n tasks)" "is_entry t"
    by simp_all
  from sched_next [OF this(1) step_enter [OF this(2)]] show ?case
    by (simp add: entered_def)
qed

definition sample_env :: "(nat, nat) sched_env" where
  "sample_env =
     \<lparr>se_registry_get = (\<lambda>_ _. Some (sample_descriptor WorkspaceWrite)),
      se_semver_parse = (\<lambda>_. Inr 1), se_has_build = (\<lambda>_. False)\<rparr>"

definition sample_load :: loaded_call where
  "sample_load = \<lparr>ld_run_id = RunId 7, ld_tool_id = ''git.push'', ld_tool_version = ''''\<rparr>"

definition sample_submit :: "128 word \<Rightarrow> nat task" where
  "sample_submit c =
     Submit (ScheduledCall_new (ToolCallId c) (WorkspaceKey (ProjectId 1) ''/w'') Observe 0)"

text \<open>One thread submits a call, which is admitted; a second one submits another behind it.\<close>

definition sample_running :: "nat scheduler" where
  "sample_running =
     the (sched_exec sample_env (Inr sample_load) (replicate 8 0 @ replicate 7 1)
       (entered 1 [sample_submit 5, sample_submit 6]))"

lemma sample_running_reachable: "sched_reachable sample_env 1 sample_running"
proof -
  have "sched_exec sample_env (Inr sample_load) (replicate 8 0 @ replicate 7 1)
      (entered 1 [sample_submit 5, sample_submit 6]) = Some sample_running"
    by code_simp
  moreover have "sched_reachable sample_env 1 (entered 1 [sample_submit 5, sample_submit 6])"
    by (rule entered_reachable) (simp add: sample_submit_def is_entry_def)
  ultimately show ?thesis
    by (rule sched_exec_reachable)
qed

text \<open>The same call followed to its end, and then a shutdown.\<close>

definition sample_done :: "nat scheduler" where
  "sample_done =
     the (sched_exec sample_env (Inr sample_load) (replicate 10 0 @ replicate 12 2 @ replicate 5 1)
       (entered 1 [sample_submit 5, Shutdown]))"

lemma sample_done_reachable: "sched_reachable sample_env 1 sample_done"
proof -
  have "sched_exec sample_env (Inr sample_load) (replicate 10 0 @ replicate 12 2 @ replicate 5 1)
      (entered 1 [sample_submit 5, Shutdown]) = Some sample_done"
    by code_simp
  moreover have "sched_reachable sample_env 1 (entered 1 [sample_submit 5, Shutdown])"
    by (rule entered_reachable) (simp add: sample_submit_def is_entry_def)
  ultimately show ?thesis
    by (rule sched_exec_reachable)
qed

section \<open>Helpers\<close>

lemma reachable_facts:
  assumes "sched_reachable E n s"
  shows "map_ok s" "mapped_ok s" "claims_ok s" "slots_ok s" "workers_ok s" "live_ok s" "leaves_ok s"
    "offered s" "swept_ok s" "drawn_ok s" "parked_ok s" "alone_ok s" "lock_ok s"
    "ws_ok (ws_at (sc_heap s) b)" "issued_ok s" "map_lock_ok s"
  using sched_invariant [OF assms] by (simp_all add: sched_inv_def)

lemma run_task_capacity:
  "run_task E rec task s = Some (s', next, spawned) \<Longrightarrow>
   pl_capacity (sc_processes s') = pl_capacity (sc_processes s)"
  by (induction E rec task s rule: run_task.induct)
     (auto simp: section_defs Let_def release_process_def dest!: admit_head_Some
       split: if_splits option.splits sum.splits)

lemma reachable_capacity:
  "sched_reachable E n s \<Longrightarrow> pl_capacity (sc_processes s) = max n 1"
proof (induction rule: sched_reachable.induct)
  case sched_start
  then show ?case
    by (simp add: Scheduler_with_process_limit_def ProcessLimit_new_def)
next
  case (sched_next s s')
  from sched_next(2) sched_next.IH show ?case
    by cases (auto dest: run_task_capacity)
qed

lemma busy_same_key:
  assumes "sched_reachable E n s" "a < length (sc_heap s)" "b < length (sc_heap s)"
    and "wk_key (sc_heap s ! a) = wk_key (sc_heap s ! b)"
    and "\<not> ws_is_idle (heap_state s a)" "\<not> ws_is_idle (heap_state s b)"
  shows "a = b"
proof -
  note inv = reachable_facts [OF assms(1)]
  from assms inv(2) have "a \<in> mapped s" "b \<in> mapped s"
    by (auto simp: mapped_ok_def)
  then obtain k l where kl: "(k, a) \<in> set (sc_workspaces s)" "(l, b) \<in> set (sc_workspaces s)"
    by (auto simp: mapped_def)
  have "wk_key (sc_heap s ! a) = k" "wk_key (sc_heap s ! b) = l"
    using inv(1) kl by (auto simp: map_ok_def)
  with assms(4) have "k = l"
    by simp
  with map_ok_map_of [OF inv(1) kl(1)] map_ok_map_of [OF inv(1) kl(2)] show ?thesis
    by simp
qed

lemma distinct_of_count:
  assumes "\<And>x. count (mset xs) x \<le> 1"
  shows "distinct xs"
  unfolding distinct_count_atmost_1
proof
  fix x
  show "count (mset xs) x = (if x \<in> set xs then 1 else 0)"
  proof (cases "x \<in> set xs")
    case True
    then have "0 < count (mset xs) x"
      by simp
    with assms [of x] have "count (mset xs) x = 1"
      by linarith
    with True show ?thesis
      by (simp only: if_True)
  qed (simp add: not_in_iff [symmetric])
qed

lemma reachable_tickets:
  assumes "sched_reachable E n s"
  shows "count (mset (sc_tickets s)) d \<le> 1"
proof -
  have "count (tsum submit_task (sc_threads s) + mset (sc_tickets s) + mset (sc_refused s)) d \<le> 1"
    using reachable_facts(10) [OF assms] unfolding drawn_ok_def by simp
  then show ?thesis
    by (simp only: count_union)
qed

lemma reachable_reports:
  "sched_reachable E n s \<Longrightarrow> mset (sc_tickets s) = held report_task report_ws s + mset (sc_reports s)"
  using reachable_facts(15) [of E n s] by (simp add: issued_ok_def)

lemma no_live_worker:
  assumes "sched_reachable E n s" "sc_live s = 0" "ts \<in> set (sc_threads s)" "t \<in> set ts"
  shows "worker_task b t = {#}"
proof -
  have "tsum live_task (sc_threads s) = 0"
    using reachable_facts(6) [OF assms(1)] assms(2) by (simp add: live_ok_def)
  then have live: "live_task u = 0" if "u \<in> set ts" for u
    using assms(3) that by (auto simp: tsum_def)
  have "leaves_after ts"
    using reachable_facts(7) [OF assms(1)] assms(3) by (simp add: leaves_ok_def)
  then have "t \<noteq> Finish a d" for a d
    using leaves_after_Finish [of ts a d] live [of Leave] assms(4) by (auto simp: live_task_def)
  with live [OF assms(4)] show ?thesis
    by (cases t) (auto simp: worker_task_def live_task_def)
qed

section \<open>Properties\<close>

text \<open>
  C4: A mutation runs alone. Whatever objects stand for one workspace (an evicted object and its
  successor among them), while a mutating call runs there no other call runs there.
\<close>

theorem mutation_runs_alone:
  assumes "sched_reachable E n s"
    and "a < length (sc_heap s)" "b < length (sc_heap s)"
    and "wk_key (sc_heap s ! a) = wk_key (sc_heap s ! b)"
    and "(d, r) \<in> set (ws_running (heap_state s a))" "rn_mutating r"
    and "(e, q) \<in> set (ws_running (heap_state s b))"
  shows "a = b \<and> (e, q) = (d, r)"
proof -
  have "\<not> ws_is_idle (heap_state s a)" "\<not> ws_is_idle (heap_state s b)"
    using assms(5,7) by (auto simp: ws_is_idle_def)
  with busy_same_key [OF assms(1-4)] have "a = b"
    by blast
  moreover have "ws_mutating (heap_state s a)"
    using assms(5,6) by (force simp: ws_mutating_def list_ex_iff)
  then have "length (ws_running (heap_state s a)) = 1"
    using reachable_facts(14) [OF assms(1), of a] assms(2) by (simp add: ws_ok_def)
  ultimately show ?thesis
    using assms(5,7) by (auto simp: length_Suc_conv)
qed

lemma mutation_runs_alone_witness:
  "0 = (0 :: nat)
   \<and> (fst (last (ws_running (heap_state sample_running 0))),
      snd (last (ws_running (heap_state sample_running 0))))
     = (fst (hd (ws_running (heap_state sample_running 0))),
        snd (hd (ws_running (heap_state sample_running 0))))"
proof (rule mutation_runs_alone [OF sample_running_reachable _ _ refl])
  have "0 < length (sc_heap sample_running)" "ws_running (heap_state sample_running 0) \<noteq> []"
    "rn_mutating (snd (hd (ws_running (heap_state sample_running 0))))"
    by code_simp+
  then show "0 < length (sc_heap sample_running)" "0 < length (sc_heap sample_running)"
    "(fst (hd (ws_running (heap_state sample_running 0))),
      snd (hd (ws_running (heap_state sample_running 0)))) \<in> set (ws_running (heap_state sample_running 0))"
    "(fst (last (ws_running (heap_state sample_running 0))),
      snd (last (ws_running (heap_state sample_running 0)))) \<in> set (ws_running (heap_state sample_running 0))"
    "rn_mutating (snd (hd (ws_running (heap_state sample_running 0))))"
    by (simp_all only: prod.collapse hd_in_set last_in_set not_False_eq_True)
qed

text \<open>
  C22: The bounds hold in every reachable state: each workspace queues at most 64 calls and runs at
  most 4 reads; the process pool counts exactly the running calls that hold a slot, and never more
  than its capacity, which is the limit it was made with or 1.
\<close>

theorem scheduler_bounds:
  assumes "sched_reachable E n s"
  shows "(\<forall>k\<in>set (sc_heap s). length (ws_queue (wk_state k)) \<le> 64
            \<and> length (filter (\<lambda>e. \<not> rn_mutating (snd e)) (ws_running (wk_state k))) \<le> 4)
     \<and> pl_in_use (sc_processes s)
       = (\<Sum>k\<leftarrow>sc_heap s. length (filter (\<lambda>e. rn_holds_process (snd e)) (ws_running (wk_state k))))
     \<and> pl_in_use (sc_processes s) \<le> max n 1"
proof -
  have "ws_ok (wk_state k)" if "k \<in> set (sc_heap s)" for k
  proof -
    from that obtain i where "i < length (sc_heap s)" "sc_heap s ! i = k"
      by (auto simp: in_set_conv_nth)
    with reachable_facts(14) [OF assms, of i] show ?thesis
      by (simp add: ws_at_def)
  qed
  with reachable_facts(4) [OF assms] reachable_capacity [OF assms] show ?thesis
    by (auto simp: slots_ok_def hsum_def process_ws_def ws_ok_def ws_reads_def
        WORKSPACE_QUEUE_CAPACITY_def WORKSPACE_READ_CONCURRENCY_def)
qed

lemma scheduler_bounds_witness:
  "pl_in_use (sc_processes sample_running) = 1 \<and> pl_in_use (sc_processes sample_running) \<le> max 1 1"
proof -
  have "pl_in_use (sc_processes sample_running) = 1"
    by code_simp
  with scheduler_bounds [OF sample_running_reachable] show ?thesis
    by blast
qed

text \<open>
  One claim per call. A call identity is in \<open>claimed\<close> exactly while one submission carries it,
  and never two: in particular no call is queued twice, in one workspace or in two.
\<close>

theorem one_claim_per_call:
  assumes "sched_reachable E n s"
  shows "(\<forall>c. count (claims s) c = (if c \<in> sc_claimed s then 1 else 0))
     \<and> (\<forall>k\<in>set (sc_heap s). distinct (map wt_call (ws_queue (wk_state k))))"
proof -
  have c: "count (claims s) c = (if c \<in> sc_claimed s then 1 else 0)" for c
    using reachable_facts(3) [OF assms] by (simp add: claims_ok_def)
  have "distinct (map wt_call (ws_queue (wk_state k)))" if "k \<in> set (sc_heap s)" for k
  proof -
    from that obtain i where i: "i < length (sc_heap s)" "sc_heap s ! i = k"
      by (auto simp: in_set_conv_nth)
    have "mset (map wt_call (ws_queue (wk_state k))) \<subseteq># claims s"
      using hsum_subset [OF i(1), of claim_ws] i(2)
      by (simp add: claims_def held_def claim_ws_def subset_mset.add_increasing)
    then have "count (mset (map wt_call (ws_queue (wk_state k)))) x \<le> 1" for x
      using mset_subset_eq_count [of _ "claims s" x] c [of x] by (metis le_trans le_refl zero_le_one)
    then show ?thesis
      by (rule distinct_of_count)
  qed
  with c show ?thesis
    by blast
qed

lemma one_claim_per_call_witness:
  "sc_claimed sample_running = {ToolCallId 5, ToolCallId 6} \<and> count (claims sample_running) (ToolCallId 5) = 1"
proof -
  have "sc_claimed sample_running = {ToolCallId 5, ToolCallId 6}"
    by code_simp
  with one_claim_per_call [OF sample_running_reachable] show ?thesis
    by simp
qed

text \<open>
  No running call is orphaned: every entry of a workspace's running set is matched by exactly
  one worker, which has not finished it yet and will give its slots back. When no worker is live,
  nothing runs and no process slot is taken.
\<close>

theorem running_calls_have_workers:
  assumes "sched_reachable E n s"
  shows "(\<forall>b<length (sc_heap s).
            tsum (worker_task b) (sc_threads s) = mset (map fst (ws_running (heap_state s b))))
     \<and> (sc_live s = 0 \<longrightarrow>
          (\<forall>k\<in>set (sc_heap s). ws_running (wk_state k) = []) \<and> pl_in_use (sc_processes s) = 0)"
proof -
  have w: "tsum (worker_task b) (sc_threads s) = mset (map fst (ws_running (ws_at (sc_heap s) b)))" for b
    using reachable_facts(5) [OF assms] by (simp add: workers_ok_def running_keys_def)
  have idle: "ws_running (wk_state k) = []" if "sc_live s = 0" "k \<in> set (sc_heap s)" for k
  proof -
    from that(2) obtain b where b: "b < length (sc_heap s)" "sc_heap s ! b = k"
      by (auto simp: in_set_conv_nth)
    have "worker_task b t = {#}" if t: "ts \<in> set (sc_threads s)" "t \<in> set ts" for ts t
      by (rule no_live_worker [OF assms \<open>sc_live s = 0\<close> t])
    then have "tsum (worker_task b) (sc_threads s) = {#}"
      unfolding tsum_def by (intro sum_list_zero) auto
    with w [of b] b show ?thesis
      by (simp add: ws_at_def)
  qed
  moreover have "pl_in_use (sc_processes s) = 0" if "sc_live s = 0"
  proof -
    have "hsum process_ws (sc_heap s) = 0"
      unfolding hsum_def using idle [OF that] by (intro sum_list_zero) (simp add: process_ws_def)
    with reachable_facts(4) [OF assms] show ?thesis
      by (simp add: slots_ok_def)
  qed
  moreover have "tsum (worker_task b) (sc_threads s) = mset (map fst (ws_running (heap_state s b)))"
    if "b < length (sc_heap s)" for b
    using w [of b] that by (simp only: ws_at_old)
  ultimately show ?thesis
    by blast
qed

lemma running_calls_have_workers_witness:
  "sc_live sample_done = 0 \<and> pl_in_use (sc_processes sample_done) = 0"
proof -
  have "sc_live sample_done = 0"
    by code_simp
  with running_calls_have_workers [OF sample_done_reachable] show ?thesis
    by blast
qed

text \<open>
  C20: No runnable head is forgotten: when the head of a queue could be admitted right now, some
  thread is already about to offer its workspace (pumping it, admitting in it, offering a freed slot
  to every workspace, or sweeping it). No interleaving of submissions, completions, cancellations
  and evictions loses that wake-up.
\<close>

theorem no_runnable_head_is_forgotten:
  assumes "sched_reachable E n s" "b < length (sc_heap s)"
    and "admit_head (sc_shutting_down s) (sc_processes s) (heap_state s b) \<noteq> None"
  shows "\<exists>ts\<in>set (sc_threads s). \<exists>t\<in>set ts.
           t = Pump b \<or> (\<exists>ready. t = Admit b ready) \<or> (\<exists>a. t = PumpInTurn a)
           \<or> (\<exists>as r swept. t = Sweep as r swept \<and> b \<in> fst ` set swept)"
proof -
  have "can_admit s b"
    unfolding can_admit_def using assms(2,3) by (simp only: ws_at_old not_False_eq_True)
  then obtain ts t where "ts \<in> set (sc_threads s)" "t \<in> set ts" "offers b t"
    using reachable_facts(8) [OF assms(1)] unfolding offered_def by blast
  then show ?thesis
    by (intro bexI [of _ ts] bexI [of _ t]) (cases t; simp)+
qed

definition sample_queued :: "nat scheduler" where
  "sample_queued =
     the (sched_exec sample_env (Inr sample_load) (replicate 6 0) (entered 1 [sample_submit 5]))"

lemma sample_queued_reachable: "sched_reachable sample_env 1 sample_queued"
proof -
  have "sched_exec sample_env (Inr sample_load) (replicate 6 0) (entered 1 [sample_submit 5])
      = Some sample_queued"
    by code_simp
  moreover have "sched_reachable sample_env 1 (entered 1 [sample_submit 5])"
    by (rule entered_reachable) (simp add: sample_submit_def is_entry_def)
  ultimately show ?thesis
    by (rule sched_exec_reachable)
qed

lemma no_runnable_head_is_forgotten_witness:
  "\<exists>ts\<in>set (sc_threads sample_queued). \<exists>t\<in>set ts.
     t = Pump 0 \<or> (\<exists>ready. t = Admit 0 ready) \<or> (\<exists>a. t = PumpInTurn a)
     \<or> (\<exists>as r swept. t = Sweep as r swept \<and> 0 \<in> fst ` set swept)"
proof (rule no_runnable_head_is_forgotten [OF sample_queued_reachable])
  show "0 < length (sc_heap sample_queued)"
    by code_simp
  have "(case admit_head (sc_shutting_down sample_queued) (sc_processes sample_queued)
      (heap_state sample_queued 0) of None \<Rightarrow> False | Some _ \<Rightarrow> True)"
    by code_simp
  then show "admit_head (sc_shutting_down sample_queued) (sc_processes sample_queued)
      (heap_state sample_queued 0) \<noteq> None"
    by (auto split: option.splits)
qed

lemma quiescent_running:
  assumes "sched_reachable E n s" "\<forall>ts\<in>set (sc_threads s). \<forall>t\<in>set ts. submitting t"
  shows "ws_running (ws_at (sc_heap s) b) = []"
proof -
  have "worker_task b t = {#}" if "ts \<in> set (sc_threads s)" "t \<in> set ts" for ts t
  proof -
    from assms(2) that have "submitting t"
      by blast
    then show ?thesis
      by (cases t) (auto simp: worker_task_def)
  qed
  then have "tsum (worker_task b) (sc_threads s) = {#}"
    unfolding tsum_def by (intro sum_list_zero) auto
  then show ?thesis
    using reachable_facts(5) [OF assms(1)] by (simp add: workers_ok_def running_keys_def)
qed

lemma quiescent_slots:
  assumes "sched_reachable E n s" "\<forall>ts\<in>set (sc_threads s). \<forall>t\<in>set ts. submitting t"
  shows "pl_in_use (sc_processes s) = 0"
proof -
  have "hsum process_ws (sc_heap s) = 0"
    unfolding hsum_def
  proof (rule sum_list_zero)
    fix k
    assume "k \<in> set (sc_heap s)"
    then obtain b where "b < length (sc_heap s)" "sc_heap s ! b = k"
      by (auto simp: in_set_conv_nth)
    with quiescent_running [OF assms, of b] show "process_ws (wk_state k) = 0"
      by (simp add: ws_at_def process_ws_def)
  qed
  with reachable_facts(4) [OF assms(1)] show ?thesis
    by (simp add: slots_ok_def)
qed

lemma quiescent_queue:
  assumes "sched_reachable E n s" "\<forall>ts\<in>set (sc_threads s). \<forall>t\<in>set ts. submitting t"
  shows "ws_queue (ws_at (sc_heap s) b) = []"
proof (rule ccontr)
  assume q: "ws_queue (ws_at (sc_heap s) b) \<noteq> []"
  have no: "\<not> offers b t \<and> \<not> sweeps b t" if "ts \<in> set (sc_threads s)" "t \<in> set ts" for ts t
  proof -
    from assms(2) that have "submitting t"
      by blast
    then show ?thesis
      by (cases t) auto
  qed
  show False
  proof (cases "sc_shutting_down s")
    case True
    with reachable_facts(9) [OF assms(1)] q no show False
      unfolding swept_ok_def by blast
  next
    case False
    obtain w rest where "ws_queue (ws_at (sc_heap s) b) = w # rest"
      using q by (cases "ws_queue (ws_at (sc_heap s) b)") auto
    with False quiescent_running [OF assms, of b] quiescent_slots [OF assms]
      reachable_capacity [OF assms(1)] have "can_admit s b"
      unfolding can_admit_def admit_head_iff
      by (auto simp: ws_mutating_def ws_reads_def WORKSPACE_READ_CONCURRENCY_def max_def)
    with reachable_facts(8) [OF assms(1)] no show False
      unfolding offered_def by blast
  qed
qed

text \<open>
  C21: When every thread has come to its end, shut down or not, nothing is left behind: every queue
  is empty, nothing runs, every process slot, every claim and every mutex is back, no worker is
  counted, and every ticket that a submission returned was reported exactly once. Of the dispatch
  numbers ever drawn each one is such a ticket or was refused by a shutdown, and none is both.
\<close>

theorem nothing_left_behind:
  assumes "sched_reachable E n s" "\<forall>ts\<in>set (sc_threads s). ts = []"
  shows "(\<forall>k\<in>set (sc_heap s). ws_is_idle (wk_state k)) \<and> pl_in_use (sc_processes s) = 0
     \<and> sc_claimed s = {} \<and> sc_live s = 0 \<and> sc_locked s = {} \<and> \<not> sc_map_locked s
     \<and> distinct (sc_reports s) \<and> set (sc_reports s) = set (sc_tickets s)
     \<and> set (sc_tickets s) \<union> set (sc_refused s) = {d. unat d < unat (sc_dispatched s)}
     \<and> set (sc_tickets s) \<inter> set (sc_refused s) = {}"
proof -
  have quiet: "\<forall>ts\<in>set (sc_threads s). \<forall>t\<in>set ts. submitting t"
    using assms(2) by auto
  have none: "tsum f (sc_threads s) = 0" for f :: "'a task \<Rightarrow> 'm::comm_monoid_add"
    unfolding tsum_def using assms(2) by (intro sum_list_zero) auto
  have idle: "ws_queue (wk_state k) = [] \<and> ws_running (wk_state k) = [] \<and> ws_waiting (wk_state k) = 0"
    if "k \<in> set (sc_heap s)" for k
  proof -
    from that obtain b where b: "b < length (sc_heap s)" "sc_heap s ! b = k"
      by (auto simp: in_set_conv_nth)
    have "tsum (parked_task b) (sc_threads s) = ws_waiting (ws_at (sc_heap s) b)"
      using reachable_facts(11) [OF assms(1)] by (simp add: parked_ok_def)
    with b quiescent_queue [OF assms(1) quiet, of b] quiescent_running [OF assms(1) quiet, of b]
    show ?thesis
      by (simp add: ws_at_def none)
  qed
  have "claims s = {#}"
    unfolding claims_def held_def none hsum_def using idle
    by (simp add: sum_list_zero claim_ws_def)
  then have "sc_claimed s = {}"
    using reachable_facts(3) [OF assms(1)] by (auto simp: claims_ok_def split: if_splits)
  moreover have t: "mset (sc_reports s) = mset (sc_tickets s)"
    unfolding reachable_reports [OF assms(1)] held_def none hsum_def using idle
    by (simp add: sum_list_zero report_ws_def)
  moreover have "distinct (sc_reports s)"
    by (rule distinct_of_count) (simp only: t reachable_tickets [OF assms(1)])
  moreover have "count (mset (sc_tickets s)) d + count (mset (sc_refused s)) d
      = (if unat d < unat (sc_dispatched s) then 1 else 0)" for d
    using reachable_facts(10) [OF assms(1)] by (simp add: drawn_ok_def none)
  note drawn = this
  have "d \<in> set (sc_tickets s) \<union> set (sc_refused s) \<longleftrightarrow> unat d < unat (sc_dispatched s)"
    "\<not> (d \<in> set (sc_tickets s) \<and> d \<in> set (sc_refused s))" for d
    using drawn [of d] count_greater_zero_iff [of "mset (sc_tickets s)" d]
      count_greater_zero_iff [of "mset (sc_refused s)" d]
    by (auto simp del: count_greater_zero_iff count_mset_gt_0 split: if_splits)
  moreover have "set (sc_reports s) = set (sc_tickets s)"
    using t by (metis set_mset_mset)
  moreover have "\<not> sc_map_locked s"
    using reachable_facts(16) [OF assms(1)] by (auto simp: map_lock_ok_def none)
  moreover have "sc_live s = 0"
    using reachable_facts(6) [OF assms(1)] by (simp add: live_ok_def none)
  moreover have "sc_locked s = {}"
    using reachable_facts(13) [OF assms(1)] assms(2) unfolding lock_ok_def heading_def
    by (metis all_not_in_conv list.distinct(1) nth_mem)
  ultimately show ?thesis
    using idle quiescent_slots [OF assms(1) quiet] by (auto simp: ws_is_idle_def)
qed

lemma nothing_left_behind_witness:
  "sc_tickets sample_done = [0] \<and> set (sc_reports sample_done) = {0} \<and> sc_claimed sample_done = {}
   \<and> list_all (\<lambda>k. ws_is_idle (wk_state k)) (sc_heap sample_done)"
proof -
  have "list_all (\<lambda>ts. ts = []) (sc_threads sample_done)" "sc_tickets sample_done = [0]"
    by code_simp+
  with nothing_left_behind [OF sample_done_reachable] show ?thesis
    by (simp add: list_all_iff)
qed

lemma run_task_blocked:
  "run_task E rec task s = None \<Longrightarrow> sc_locked s = {} \<Longrightarrow> \<not> sc_map_locked s \<Longrightarrow>
   \<exists>w a. task = Enqueue w a \<and> \<not> sc_shutting_down s
     \<and> WORKSPACE_QUEUE_CAPACITY \<le> length (ws_queue (heap_state s a))"
  by (induction E rec task s rule: run_task.induct)
     (auto simp: section_defs Let_def split: if_splits option.splits sum.splits)

lemma reachable_addrs: "sched_reachable E n s \<Longrightarrow> addrs_ok s"
  using sched_invariant [of E n s] by (simp add: sched_inv_def)

definition stuck :: "('w, 'v) sched_env \<Rightarrow> string + loaded_call \<Rightarrow> 'w scheduler \<Rightarrow> bool" where
  "stuck E rec s \<longleftrightarrow>
     (\<forall>task rest. task # rest \<in> set (sc_threads s) \<longrightarrow> run_task E rec task s = None)"

lemma stuck_heading:
  assumes "stuck E rec s" "heading P (sc_threads s)"
  shows "\<exists>task. P task \<and> run_task E rec task s = None"
  using assms unfolding stuck_def heading_def by (metis nth_mem)

lemma stuck_unlocked:
  assumes "sched_reachable E n s" "stuck E rec s"
  shows "sc_locked s = {}" "\<not> sc_map_locked s"
proof -
  show free: "sc_locked s = {}"
  proof (rule ccontr)
    assume "sc_locked s \<noteq> {}"
    then obtain a where "heading (\<lambda>t. \<exists>ready. t = Admit a ready) (sc_threads s)"
      using reachable_facts(13) [OF assms(1)] unfolding lock_ok_def by blast
    from stuck_heading [OF assms(2) this] obtain ready where
      "run_task E rec (Admit a ready) s = None"
      by blast
    then show False
      by (auto simp: section_defs split: option.splits)
  qed
  show "\<not> sc_map_locked s"
  proof
    assume "sc_map_locked s"
    then have "heading (\<lambda>t. map_task t = 1) (sc_threads s)"
      using reachable_facts(16) [OF assms(1)] by (simp add: map_lock_ok_def)
    from stuck_heading [OF assms(2) this] obtain task where
      "map_task task = 1" "run_task E rec task s = None"
      by blast
    with free show False
      by (induction E rec task s rule: run_task.induct)
         (auto simp: section_defs split: option.splits if_splits)
  qed
qed

lemma stuck_thread:
  assumes "sched_reachable E n s" "stuck E rec s" "us \<in> set (sc_threads s)" "us \<noteq> []"
  shows "\<exists>w a. us = [Enqueue w a] \<and> a < length (sc_heap s)
     \<and> WORKSPACE_QUEUE_CAPACITY \<le> length (ws_queue (heap_state s a))"
proof -
  obtain task rest where t: "us = task # rest"
    using assms(4) by (cases us) auto
  with assms(2,3) have "run_task E rec task s = None"
    unfolding stuck_def by blast
  from run_task_blocked [OF this stuck_unlocked [OF assms(1,2)]] obtain w a where
    w: "task = Enqueue w a" "WORKSPACE_QUEUE_CAPACITY \<le> length (ws_queue (heap_state s a))"
    by blast
  have "alone us"
    using reachable_facts(12) [OF assms(1)] assms(3) by (simp add: alone_ok_def)
  with t w(1) have "us = [Enqueue w a]"
    by (simp add: alone_def)
  moreover have "a < length (sc_heap s)"
    using reachable_addrs [OF assms(1)] assms(3) t w(1) by (auto simp: addrs_ok_def)
  ultimately show ?thesis
    using w by blast
qed

text \<open>
  C7: The scheduler cannot deadlock: as long as one thread has anything left to do, some thread can
  execute its next section, whatever the store answers. The mutex of a workspace is held only by a
  thread that can go on; the mutex of the map is held by a sweep that never blocks or by a submission
  that waits for the mutex of one workspace, whose holder does not need the map; and a submitter
  parked on a full queue waits for calls that somebody is about to admit or finish.
\<close>

theorem deadlock_free:
  assumes "sched_reachable E n s" "ts \<in> set (sc_threads s)" "ts \<noteq> []"
  shows "\<exists>task rest. task # rest \<in> set (sc_threads s) \<and> run_task E rec task s \<noteq> None"
proof (rule ccontr)
  assume "\<not> ?thesis"
  then have stuck: "stuck E rec s"
    unfolding stuck_def by blast
  have "\<forall>us\<in>set (sc_threads s). \<forall>t\<in>set us. submitting t"
  proof (intro ballI)
    fix us t
    assume "us \<in> set (sc_threads s)" "t \<in> set us"
    with stuck_thread [OF assms(1) stuck, of us] show "submitting t"
      by (cases "us = []") auto
  qed
  note empty = quiescent_queue [OF assms(1) this]
  from stuck_thread [OF assms(1) stuck assms(2,3)] obtain a where
    "WORKSPACE_QUEUE_CAPACITY \<le> length (ws_queue (heap_state s a))" "a < length (sc_heap s)"
    by blast
  with empty [of a] show False
    by (simp add: WORKSPACE_QUEUE_CAPACITY_def)
qed

lemma deadlock_free_witness:
  "\<exists>task rest. task # rest \<in> set (sc_threads sample_queued)
     \<and> run_task sample_env (Inl ''gone'') task sample_queued \<noteq> None"
proof -
  have t: "hd (sc_threads sample_queued) \<noteq> []" "sc_threads sample_queued \<noteq> []"
    by code_simp+
  show ?thesis
    by (rule deadlock_free [OF sample_queued_reachable list.set_sel(1) [OF t(2)] t(1)])
qed

lemma held_not_reported:
  assumes "sched_reachable E n s" "d \<in># held report_task report_ws s"
  shows "d \<notin> set (sc_reports s)"
proof
  assume "d \<in> set (sc_reports s)"
  then have "0 < count (mset (sc_reports s)) d"
    by (simp add: count_greater_zero_iff)
  moreover from assms(2) have "0 < count (held report_task report_ws s) d"
    by (simp add: count_greater_zero_iff)
  moreover have "count (held report_task report_ws s + mset (sc_reports s)) d \<le> 1"
    unfolding reachable_reports [OF assms(1), symmetric] by (rule reachable_tickets [OF assms(1)])
  ultimately show False
    unfolding count_union by linarith
qed

lemma report_in_thread:
  assumes "ts \<in> set (sc_threads s)" "ReportTo d \<in> set ts"
  shows "d \<in># held report_task report_ws s"
proof -
  have "d \<in># sum_list (map report_task us)" if "ReportTo d \<in> set us" for us :: "'a task list"
    using that by (induction us) (auto simp: report_task_def)
  then have "{#d#} \<subseteq># sum_list (map report_task ts)"
    using assms(2) by simp
  also obtain i where i: "i < length (sc_threads s)" "sc_threads s ! i = ts"
    using assms(1) by (auto simp: in_set_conv_nth)
  have "sum_list (map report_task ts) \<subseteq># tsum report_task (sc_threads s)"
    unfolding tsum_def using sum_list_subset [OF i(1), of "\<lambda>us. sum_list (map report_task us)"] i(2)
    by simp
  finally have "d \<in># tsum report_task (sc_threads s)"
    by simp
  then show ?thesis
    by (simp add: held_def)
qed

lemma report_in_queue:
  assumes "k \<in> set (sc_heap s)" "w \<in> set (ws_queue (wk_state k))"
  shows "wt_dispatch w \<in># held report_task report_ws s"
proof -
  from assms(1) obtain i where i: "i < length (sc_heap s)" "sc_heap s ! i = k"
    by (auto simp: in_set_conv_nth)
  have "wt_dispatch w \<in># report_ws (wk_state k)"
    using assms(2) by (simp add: report_ws_def)
  with hsum_subset [OF i(1), of report_ws] i(2) show ?thesis
    unfolding held_def by (metis mset_subset_eqD union_iff)
qed

text \<open>
  Every ticket is resolved at most once: no outcome is reported twice, and a call that is still
  queued, or whose worker or sweep has yet to report it, has not been reported.
\<close>

theorem tickets_resolve_once:
  assumes "sched_reachable E n s"
  shows "distinct (sc_reports s)
     \<and> (\<forall>k\<in>set (sc_heap s). \<forall>w\<in>set (ws_queue (wk_state k)). wt_dispatch w \<notin> set (sc_reports s))
     \<and> (\<forall>ts\<in>set (sc_threads s). \<forall>d. ReportTo d \<in> set ts \<longrightarrow> d \<notin> set (sc_reports s))"
proof -
  have "count (mset (sc_reports s)) d \<le> 1" for d
    using reachable_tickets [OF assms, of d] unfolding reachable_reports [OF assms] by simp
  then have "distinct (sc_reports s)"
    by (rule distinct_of_count)
  then show ?thesis
    using held_not_reported [OF assms] report_in_queue [of _ s] report_in_thread [of _ s] by blast
qed

lemma tickets_resolve_once_witness:
  "sc_reports sample_done = [0] \<and> distinct (sc_reports sample_done)"
proof -
  have "sc_reports sample_done = [0]"
    by code_simp
  with tickets_resolve_once [OF sample_done_reachable] show ?thesis
    by blast
qed

section \<open>Admission, submission and cancellation\<close>

lemma admit_unfold:
  "admit sd p ws =
     (case admit_head sd p ws of
        None \<Rightarrow> (p, ws, [])
      | Some (p', ws', w) \<Rightarrow>
          (case admit sd p' ws' of (p'', ws'', ready) \<Rightarrow> (p'', ws'', w # ready)))"
  by (simp add: admit.simps)

lemma admit_head_keys:
  "admit_head sd p ws = Some (p', ws', w) \<Longrightarrow>
   fst ` set (ws_running ws') = insert (wt_dispatch w) (fst ` set (ws_running ws))
   \<and> pl_capacity p' = pl_capacity p
   \<and> pl_in_use p' = pl_in_use p + (if wt_spawns_processes w then 1 else 0) \<and> \<not> sd"
  by (drule admit_head_Some) (simp add: set_fst_btree_insert)

lemma admit_prefix:
  "admit sd p ws = (p', ws', ready) \<Longrightarrow>
   ws_queue ws = ready @ ws_queue ws' \<and> admit_head sd p' ws' = None
   \<and> fst ` set (ws_running ws') = fst ` set (ws_running ws) \<union> wt_dispatch ` set ready
   \<and> pl_capacity p' = pl_capacity p
   \<and> pl_in_use p' = pl_in_use p + length (filter wt_spawns_processes ready)
   \<and> (sd \<longrightarrow> ready = [])"
proof (induction sd p ws arbitrary: p' ws' ready rule: admit.induct)
  case (1 sd p ws)
  show ?case
  proof (cases "admit_head sd p ws")
    case None
    with 1(2) show ?thesis
      by (simp add: admit_unfold [of sd p ws])
  next
    case (Some x)
    obtain p1 ws1 v where x: "x = (p1, ws1, v)"
      by (cases x)
    obtain p2 ws2 more where rec: "admit sd p1 ws1 = (p2, ws2, more)"
      by (cases "admit sd p1 ws1")
    have "p' = p2" "ws' = ws2" "ready = v # more"
      using 1(2) Some x rec by (simp_all add: admit_unfold [of sd p ws])
    with 1(1) [OF Some [unfolded x] refl refl rec] admit_head_queue [OF Some [unfolded x]]
      admit_head_keys [OF Some [unfolded x]]
    show ?thesis
      by auto
  qed
qed

lemma admit_blocked:
  "ws_mutating ws \<or> (\<forall>w. hd (ws_queue ws) = w \<longrightarrow> mutates_state (wt_risk w)) \<and> ws_running ws \<noteq> [] \<Longrightarrow>
   ws_running ws \<noteq> [] \<Longrightarrow> admit_head sd p ws = None"
  by (auto simp: admit_head_def Let_def split: list.splits)

lemma admit_mutating:
  "admit sd p ws = (p', ws', ready) \<Longrightarrow> w \<in> set ready \<Longrightarrow> mutates_state (wt_risk w) \<Longrightarrow>
   ready = [w] \<and> ws_running ws = []"
proof (induction sd p ws arbitrary: p' ws' ready rule: admit.induct)
  case (1 sd p ws)
  show ?case
  proof (cases "admit_head sd p ws")
    case None
    with 1 show ?thesis
      by (simp add: admit_unfold [of sd p ws])
  next
    case (Some x)
    obtain p1 ws1 v where x: "x = (p1, ws1, v)"
      by (cases x)
    obtain p2 ws2 more where rec: "admit sd p1 ws1 = (p2, ws2, more)"
      by (cases "admit sd p1 ws1")
    have ready: "ready = v # more"
      using 1(2) Some x rec by (simp add: admit_unfold [of sd p ws])
    note head = admit_head_Some [OF Some [unfolded x]]
    have busy: "ws_running ws1 \<noteq> []"
      using head by (cases "ws_running ws") (auto split: if_splits prod.splits)
    show ?thesis
    proof (cases "w \<in> set more")
      case True
      with 1(1) [OF Some [unfolded x] refl refl rec] 1(4) busy show ?thesis
        by blast
    next
      case False
      with ready 1(3,4) have "mutates_state (wt_risk v)" "w = v"
        by auto
      with head have "ws_running ws = []" "ws_mutating ws1"
        by (auto simp: ws_mutating_def)
      moreover from this busy have "admit sd p1 ws1 = (p1, ws1, [])"
        by (simp add: admit_unfold [of sd p1 ws1] admit_blocked)
      ultimately show ?thesis
        using ready rec \<open>w = v\<close> by simp
    qed
  qed
qed

text \<open>
  C36: Admission is first in, first out, and greedy: it takes exactly a prefix of the queue, adds
  exactly its calls to those that run and takes one process slot for each that needs one; it stops
  only at an empty queue, at a shutdown, or at a head that may not run: a mutation while anything
  runs, a read beside a mutation or beside four reads, or a call for whose process there is no slot.
  A mutation it admits is admitted alone, on a workspace where nothing ran; during a shutdown
  nothing is admitted.
\<close>

theorem admission_is_fifo:
  "case admit sd p ws of (p', ws', ready) \<Rightarrow>
     ws_queue ws = ready @ ws_queue ws'
     \<and> fst ` set (ws_running ws') = fst ` set (ws_running ws) \<union> wt_dispatch ` set ready
     \<and> pl_in_use p' = pl_in_use p + length (filter wt_spawns_processes ready)
     \<and> (case ws_queue ws' of
           [] \<Rightarrow> True
         | w # _ \<Rightarrow>
             sd
             \<or> (if mutates_state (wt_risk w) then ws_running ws' \<noteq> []
                else list_ex (\<lambda>e. rn_mutating (snd e)) (ws_running ws')
                  \<or> 4 \<le> length (filter (\<lambda>e. \<not> rn_mutating (snd e)) (ws_running ws')))
             \<or> wt_spawns_processes w \<and> pl_capacity p \<le> pl_in_use p')
     \<and> list_all (\<lambda>w. if mutates_state (wt_risk w) then ready = [w] \<and> ws_running ws = [] else True) ready
     \<and> (if sd then ready = [] else True)"
proof -
  obtain p' ws' ready where adm: "admit sd p ws = (p', ws', ready)"
    by (cases "admit sd p ws")
  note facts = admit_prefix [OF adm]
  then have "\<not> admit_head sd p' ws' \<noteq> None"
    by simp
  then show ?thesis
    using facts admit_mutating [OF adm] unfolding admit_head_iff adm
    by (auto simp: list_all_iff ws_mutating_def ws_reads_def WORKSPACE_READ_CONCURRENCY_def
        split: list.splits)
qed

lemma heap_same: "heap[a := (heap ! a)\<lparr>wk_state := wk_state (heap ! a)\<rparr>] = heap"
  by simp

text \<open>
  The sections a thread executes while it holds a workspace's mutex implement the loop of
  \<open>Inner::admit\<close>: undisturbed, they admit the same calls in the same order, reach the same
  workspace and pool, count the same workers, release the mutex and go on to dispatch the calls.
\<close>

theorem admission_sections_refine_admit:
  assumes "admit (sc_shutting_down s) (sc_processes s) (heap_state s a) = (p', ws', ready)"
    and "i < length (sc_threads s)" "sc_threads s ! i = Admit a before # rest"
    and "a < length (sc_heap s)" "sc_dispatched s \<noteq> - 1"
  shows "sched_exec E rec (replicate (Suc (length ready)) i) s =
     Some (s\<lparr>sc_heap := (sc_heap s)[a := (sc_heap s ! a)\<lparr>wk_state := ws'\<rparr>], sc_processes := p',
             sc_live := sc_live s + length ready, sc_locked := sc_locked s - {a},
             sc_threads := (sc_threads s)[i := Dispatch a (before @ ready) # rest]\<rparr>)"
  using assms
proof (induction ready arbitrary: s before)
  case Nil
  then have "admit_head (sc_shutting_down s) (sc_processes s) (heap_state s a) = None"
    "ws' = heap_state s a" "p' = sc_processes s"
    by (subst (asm) (1) admit_unfold, auto split: option.splits prod.splits)+
  with Nil(2-) show ?case
    by (simp add: section_defs heap_same del: ws_at_old)
next
  case (Cons w ready)
  from Cons(2) obtain p1 ws1 where head:
    "admit_head (sc_shutting_down s) (sc_processes s) (heap_state s a) = Some (p1, ws1, w)"
    and more: "admit (sc_shutting_down s) p1 ws1 = (p', ws', ready)"
    by (subst (asm) admit_unfold) (auto split: option.splits prod.splits)
  let ?s = "(set_state a ws1 s)\<lparr>sc_processes := p1, sc_live := sc_live s + 1,
    sc_threads := (sc_threads s)[i := Admit a (before @ [w]) # rest]\<rparr>"
  have "sched_exec E rec (i # is) s = sched_exec E rec is ?s" for "is"
    using Cons(3-) head by (simp add: section_defs set_state_def)
  then have "sched_exec E rec (replicate (Suc (length (w # ready))) i) s
      = sched_exec E rec (replicate (Suc (length ready)) i) ?s"
    by (simp only: list.size replicate_Suc add_Suc_right add_0_right)
  also have "\<dots> = Some (?s\<lparr>sc_heap := (sc_heap ?s)[a := (sc_heap ?s ! a)\<lparr>wk_state := ws'\<rparr>],
      sc_processes := p', sc_live := sc_live ?s + length ready, sc_locked := sc_locked ?s - {a},
      sc_threads := (sc_threads ?s)[i := Dispatch a ((before @ [w]) @ ready) # rest]\<rparr>)"
    using Cons(3-) more by (intro Cons.IH) (simp_all del: ws_at_old)
  also have "\<dots> = Some (s\<lparr>sc_heap := (sc_heap s)[a := (sc_heap s ! a)\<lparr>wk_state := ws'\<rparr>],
      sc_processes := p', sc_live := sc_live s + length (w # ready), sc_locked := sc_locked s - {a},
      sc_threads := (sc_threads s)[i := Dispatch a (before @ w # ready) # rest]\<rparr>)"
    using Cons(5) by (simp add: set_state_def)
  finally show ?case .
qed

lemma admission_sections_refine_admit_witness:
  "sched_exec sample_env (Inr sample_load) [0, 0] sample_queued \<noteq> None"
proof -
  obtain p' ws' ready where adm: "admit (sc_shutting_down sample_queued) (sc_processes sample_queued)
      (heap_state sample_queued 0) = (p', ws', ready)"
    by (cases "admit (sc_shutting_down sample_queued) (sc_processes sample_queued)
      (heap_state sample_queued 0)")
  have r: "length (snd (snd (admit (sc_shutting_down sample_queued) (sc_processes sample_queued)
      (heap_state sample_queued 0)))) = 1"
    by code_simp
  have i: "0 < length (sc_threads sample_queued)" "0 < length (sc_heap sample_queued)"
    "sc_threads sample_queued ! 0 = Admit 0 [] # [StopCheck]" "sc_dispatched sample_queued = 1"
    by code_simp+
  then have d: "sc_dispatched sample_queued \<noteq> - 1"
    by simp
  have "replicate (Suc (length ready)) 0 = [0, 0 :: nat]"
    using r adm by (simp add: numeral_2_eq_2)
  with admission_sections_refine_admit [OF adm i(1,3,2) d, of sample_env "Inr sample_load"]
  show ?thesis
    by (simp del: sched_exec.simps)
qed

text \<open>
  A submission never understates a call: the risk a queued call is scheduled under is at least
  what the submitter classified and at least what the registered tool declares, and whether it
  needs a process slot is the tool's declaration alone.
\<close>

theorem submission_never_understates:
  "sd_risk c \<le> wt_risk (new_waiting E d record c)
   \<and> dc_risk (Inner_declared E (ld_tool_id record) (ld_tool_version record))
       \<le> wt_risk (new_waiting E d record c)
   \<and> wt_spawns_processes (new_waiting E d record c)
       = dc_spawns_processes (Inner_declared E (ld_tool_id record) (ld_tool_version record))
   \<and> wt_run (new_waiting E d record c) = ld_run_id record"
  by (simp add: new_waiting_def Let_def)

end
