(* ===== verification/Git_Diff.thy ===== *)
theory Git_Diff
  imports Prelude
begin

text \<open>
  The structured diff model: files, hunks and lines, the whitespace setting they were computed
  under, and the content budget of one response.

  Source: \<open>harkness-git/src/diff.rs\<close>, the change kinds of \<open>status.rs\<close> and the refusals of
  \<open>lib.rs\<close> that the hunk operations report. Line contents are byte strings. What libgit2 computes
  (the deltas and their patches) is input.
\<close>

section \<open>Lines, hunks and files\<close>

datatype diff_line_kind =
    Context | Addition | Deletion | BothEofNoNewline | OldEofNoNewline | NewEofNoNewline

record intra_line_range =
  range_start :: nat
  range_end :: nat

record diff_line =
  dl_kind :: diff_line_kind
  dl_old_line_number :: "u32 option"
  dl_new_line_number :: "u32 option"
  dl_content :: string
  dl_paired_line_index :: "nat option"
  dl_intra_line_ranges :: "intra_line_range list option"

datatype intra_line_degradation = LineTooLong nat | PairingTooLarge nat

record hunk =
  h_old_start :: u32
  h_old_lines :: u32
  h_new_start :: u32
  h_new_lines :: u32
  h_header :: string
  h_intra_line_degradation :: "intra_line_degradation option"
  h_lines :: "diff_line list"

datatype whitespace_mode = Exact | IgnoreEol | IgnoreChange | IgnoreAll

primrec WhitespaceMode_name :: "whitespace_mode \<Rightarrow> string" where
  "WhitespaceMode_name Exact = ''exact''"
| "WhitespaceMode_name IgnoreEol = ''ignore_eol''"
| "WhitespaceMode_name IgnoreChange = ''ignore_change''"
| "WhitespaceMode_name IgnoreAll = ''ignore_all''"

record whitespace =
  ws_mode :: whitespace_mode
  ws_ignore_blank_lines :: bool

definition Whitespace_EXACT :: whitespace where
  "Whitespace_EXACT = \<lparr>ws_mode = Exact, ws_ignore_blank_lines = False\<rparr>"

definition Whitespace_new :: "whitespace_mode \<Rightarrow> whitespace" where
  "Whitespace_new mode = \<lparr>ws_mode = mode, ws_ignore_blank_lines = False\<rparr>"

definition Whitespace_is_exact :: "whitespace \<Rightarrow> bool" where
  "Whitespace_is_exact w \<longleftrightarrow> ws_mode w = Exact \<and> \<not> ws_ignore_blank_lines w"

definition Whitespace_fmt :: "whitespace \<Rightarrow> string" where
  "Whitespace_fmt w =
     WhitespaceMode_name (ws_mode w)
     @ (if ws_ignore_blank_lines w then '' with blank lines ignored'' else '''')"

datatype diff_target =
    Staged
  | Unstaged
  | DiffCommit string "string option"
  | Revisions string string
  | RevisionAgainstWorktree string
  | BranchAgainstBase string string

datatype file_change =
    Added | Modified | Deleted | Renamed | Copied | TypeChanged | Untracked | Unmerged

datatype diff_omission =
    FileTooLarge u64
  | OmittedUnmerged
  | ContentBudgetExhausted u64
  | FileBudgetExhausted u64
  | Unrepresentable string

record file_diff =
  fd_target :: diff_target
  fd_change :: file_change
  fd_old_path :: "string option"
  fd_new_path :: "string option"
  fd_old_blob_id :: string
  fd_new_blob_id :: string
  fd_old_mode :: u32
  fd_new_mode :: u32
  fd_context_lines :: u32
  fd_whitespace :: whitespace
  fd_old_size :: u64
  fd_new_size :: u64
  fd_binary :: bool
  fd_omission :: "diff_omission option"
  fd_hunks :: "hunk list"

text \<open>\<open>ExactFileDiff\<close> is a file diff that \<open>FileDiff::exact\<close> let through.\<close>

definition FileDiff_exact :: "file_diff \<Rightarrow> file_diff option" where
  "FileDiff_exact file = (if Whitespace_is_exact (fd_whitespace file) then Some file else None)"

section \<open>Options and the content budget\<close>

record diff_options =
  do_max_file_size :: u64
  do_max_total_bytes :: u64
  do_max_files :: u64
  do_context_lines :: u32
  do_whitespace :: whitespace
  do_include_intra_line_ranges :: bool
  do_paths :: "string list"

definition DEFAULT_MAX_DIFF_FILE_SIZE :: u64 where
  "DEFAULT_MAX_DIFF_FILE_SIZE = 1024 * 1024"

definition DEFAULT_MAX_DIFF_TOTAL_BYTES :: u64 where
  "DEFAULT_MAX_DIFF_TOTAL_BYTES = 8 * 1024 * 1024"

definition DEFAULT_MAX_DIFF_FILES :: u64 where
  "DEFAULT_MAX_DIFF_FILES = 5000"

definition DEFAULT_DIFF_CONTEXT_LINES :: u32 where
  "DEFAULT_DIFF_CONTEXT_LINES = 3"

definition DiffOptions_default :: diff_options where
  "DiffOptions_default =
     \<lparr>do_max_file_size = DEFAULT_MAX_DIFF_FILE_SIZE,
      do_max_total_bytes = DEFAULT_MAX_DIFF_TOTAL_BYTES,
      do_max_files = DEFAULT_MAX_DIFF_FILES,
      do_context_lines = DEFAULT_DIFF_CONTEXT_LINES,
      do_whitespace = Whitespace_EXACT,
      do_include_intra_line_ranges = False,
      do_paths = []\<rparr>"

definition DiffOptions_unbounded :: diff_options where
  "DiffOptions_unbounded =
     DiffOptions_default\<lparr>do_max_file_size := - 1, do_max_total_bytes := - 1, do_max_files := - 1\<rparr>"

definition DiffOptions_with_context_lines :: "u32 \<Rightarrow> diff_options \<Rightarrow> diff_options" where
  "DiffOptions_with_context_lines n opts = opts\<lparr>do_context_lines := n\<rparr>"

definition DiffOptions_with_paths :: "string list \<Rightarrow> diff_options \<Rightarrow> diff_options" where
  "DiffOptions_with_paths paths opts = opts\<lparr>do_paths := paths\<rparr>"

record budget =
  bg_remaining_files :: u64
  bg_remaining_bytes :: u64
  bg_max_files :: u64
  bg_max_total_bytes :: u64

definition Budget_new :: "diff_options \<Rightarrow> budget" where
  "Budget_new opts =
     \<lparr>bg_remaining_files = do_max_files opts, bg_remaining_bytes = do_max_total_bytes opts,
      bg_max_files = do_max_files opts, bg_max_total_bytes = do_max_total_bytes opts\<rparr>"

definition Budget_exhausted :: "budget \<Rightarrow> diff_omission option" where
  "Budget_exhausted b =
     (if bg_remaining_files b = 0 then Some (FileBudgetExhausted (bg_max_files b))
      else if bg_remaining_bytes b = 0 then Some (ContentBudgetExhausted (bg_max_total_bytes b))
      else None)"

definition Budget_spend :: "u64 \<Rightarrow> budget \<Rightarrow> budget" where
  "Budget_spend bytes b =
     b\<lparr>bg_remaining_files := saturating_sub (bg_remaining_files b) 1,
       bg_remaining_bytes := saturating_sub (bg_remaining_bytes b) bytes\<rparr>"

section \<open>Refusals\<close>

datatype git_error =
    Cancelled
  | UntrackedDiscardRequiresDelete string
  | UnmergedDiscard string
  | StaleHunkSelection string
  | WhitespaceInsensitiveSelection string whitespace
  | HiddenWhitespaceChanges string
  | BinaryHunkSelection string
  | RenameOnlyHunkSelection string string
  | MetadataOnlyHunkSelection string u32 u32
  | UnsupportedHunkChange string file_change
  | FilteredHunkSelection string string
  | OverlappingHunkSelection string
  | HunkNotFound string u32 u32 u32 u32
  | LineNotFound string "u32 option" "u32 option"
  | UnrepresentableLineSelection string
  | OtherGitError string

primrec GitError_kind :: "git_error \<Rightarrow> string" where
  "GitError_kind Cancelled = ''cancelled''"
| "GitError_kind (UntrackedDiscardRequiresDelete p) = ''untracked_discard_requires_delete''"
| "GitError_kind (UnmergedDiscard p) = ''unmerged_discard''"
| "GitError_kind (StaleHunkSelection p) = ''stale_hunk_selection''"
| "GitError_kind (WhitespaceInsensitiveSelection p w) = ''whitespace_insensitive_selection''"
| "GitError_kind (HiddenWhitespaceChanges p) = ''hidden_whitespace_changes''"
| "GitError_kind (BinaryHunkSelection p) = ''binary_hunk_selection''"
| "GitError_kind (RenameOnlyHunkSelection p q) = ''rename_only_hunk_selection''"
| "GitError_kind (MetadataOnlyHunkSelection p m n) = ''metadata_only_hunk_selection''"
| "GitError_kind (UnsupportedHunkChange p c) = ''unsupported_hunk_change''"
| "GitError_kind (FilteredHunkSelection p d) = ''filtered_hunk_selection''"
| "GitError_kind (OverlappingHunkSelection p) = ''overlapping_hunk_selection''"
| "GitError_kind (HunkNotFound p a b c d) = ''hunk_not_found''"
| "GitError_kind (LineNotFound p a b) = ''line_not_found''"
| "GitError_kind (UnrepresentableLineSelection p) = ''unrepresentable_line_selection''"
| "GitError_kind (OtherGitError d) = d"

end
