(* ===== verification/Git_Patch.thy ===== *)
theory Git_Patch
  imports Git_Diff
begin

text \<open>
  From prepared hunks to the bytes of a patch.

  Source: \<open>harkness-git/src/hunk.rs\<close>, \<open>render_patch\<close> and everything below it. A patch is a byte
  string built by appending. The running \<open>drift\<close> of a file is an integer; the code keeps it in an
  \<open>i64\<close>, which the sum of fewer than \<open>2 ^ 31\<close> differences of line counts cannot leave.
\<close>

section \<open>Prepared hunks\<close>

datatype direction = Forward | Reverse

record line_coordinates =
  lc_old :: "u32 option"
  lc_new :: "u32 option"

record prepared_hunk =
  ph_hunk :: hunk
  ph_selected_lines :: "line_coordinates list option"

record prepared_file =
  pf_file :: file_diff
  pf_hunks :: "prepared_hunk list"

definition display_path :: "string option \<Rightarrow> string option \<Rightarrow> string" where
  "display_path preferred fallback =
     (case preferred of Some p \<Rightarrow> p | None \<Rightarrow> (case fallback of Some p \<Rightarrow> p | None \<Rightarrow> []))"

definition PreparedFile_path :: "prepared_file \<Rightarrow> string" where
  "PreparedFile_path p = display_path (fd_new_path (pf_file p)) (fd_old_path (pf_file p))"

section \<open>Line groups\<close>

record line_group =
  lg_kind :: diff_line_kind
  lg_lines :: "diff_line list"

record render_line_group =
  rg_original_kind :: diff_line_kind
  rg_kind :: diff_line_kind
  rg_lines :: "diff_line list"

definition is_eof_marker :: "diff_line_kind \<Rightarrow> bool" where
  "is_eof_marker kind \<longleftrightarrow>
     kind = BothEofNoNewline \<or> kind = OldEofNoNewline \<or> kind = NewEofNoNewline"

fun reversed_kind :: "diff_line_kind \<Rightarrow> direction \<Rightarrow> diff_line_kind" where
  "reversed_kind Addition Reverse = Deletion"
| "reversed_kind Deletion Reverse = Addition"
| "reversed_kind OldEofNoNewline Reverse = NewEofNoNewline"
| "reversed_kind NewEofNoNewline Reverse = OldEofNoNewline"
| "reversed_kind kind direction = kind"

text \<open>The markers that directly follow a line belong to its group.\<close>

function line_groups :: "diff_line list \<Rightarrow> line_group list" where
  "line_groups [] = []"
| "line_groups (line # lines) =
     \<lparr>lg_kind = dl_kind line,
      lg_lines = line # takeWhile (\<lambda>l. is_eof_marker (dl_kind l)) lines\<rparr>
     # line_groups (dropWhile (\<lambda>l. is_eof_marker (dl_kind l)) lines)"
  by pat_completeness auto

termination
  by (relation "measure length") (auto simp: le_imp_less_Suc length_dropWhile_le)

definition unchanged_group :: "line_group \<Rightarrow> render_line_group" where
  "unchanged_group g =
     \<lparr>rg_original_kind = lg_kind g, rg_kind = lg_kind g, rg_lines = lg_lines g\<rparr>"

text \<open>What a changed line of a partly selected run becomes; \<open>None\<close> drops it.\<close>

fun selected_kind :: "direction \<Rightarrow> diff_line_kind \<Rightarrow> bool \<Rightarrow> diff_line_kind option" where
  "selected_kind direction Addition True = Some Addition"
| "selected_kind direction Deletion True = Some Deletion"
| "selected_kind Forward Addition False = None"
| "selected_kind Reverse Deletion False = None"
| "selected_kind Forward Deletion False = Some Context"
| "selected_kind Reverse Addition False = Some Context"
| "selected_kind direction kind selected = Some kind"

definition line_selected :: "line_coordinates list \<Rightarrow> diff_line \<Rightarrow> bool" where
  "line_selected selected line \<longleftrightarrow>
     \<lparr>lc_old = dl_old_line_number line, lc_new = dl_new_line_number line\<rparr> \<in> set selected"

definition selected_group ::
  "line_coordinates list \<Rightarrow> direction \<Rightarrow> line_group \<Rightarrow> render_line_group list" where
  "selected_group selected direction g =
     (case selected_kind direction (lg_kind g) (line_selected selected (hd (lg_lines g))) of
        Some kind \<Rightarrow> [\<lparr>rg_original_kind = lg_kind g, rg_kind = kind, rg_lines = lg_lines g\<rparr>]
      | None \<Rightarrow> [])"

text \<open>\<open>slice.get(index)\<close>, flattened.\<close>

definition get_at :: "'a list \<Rightarrow> nat \<Rightarrow> 'a list" where
  "get_at xs i = (if i < length xs then [xs ! i] else [])"

definition push_selected_change_run ::
  "render_line_group list \<Rightarrow> line_group list \<Rightarrow> line_coordinates list \<Rightarrow> direction \<Rightarrow>
   render_line_group list" where
  "push_selected_change_run rendered run selected direction =
     (let deletions = filter (\<lambda>g. lg_kind g = Deletion) run;
          additions = filter (\<lambda>g. lg_kind g = Addition) run
      in rendered
         @ concat (map (\<lambda>i. concat (map (selected_group selected direction)
                                     (get_at deletions i @ get_at additions i)))
                     [0..<max (length deletions) (length additions)]))"

fun resolve_loop ::
  "line_coordinates list \<Rightarrow> direction \<Rightarrow> render_line_group list \<Rightarrow> line_group list \<Rightarrow>
   line_group list \<Rightarrow> render_line_group list" where
  "resolve_loop selected direction rendered run [] =
     push_selected_change_run rendered run selected direction"
| "resolve_loop selected direction rendered run (g # gs) =
     (if lg_kind g = Context
      then resolve_loop selected direction
             (push_selected_change_run rendered run selected direction @ [unchanged_group g]) [] gs
      else resolve_loop selected direction rendered (run @ [g]) gs)"

definition resolve_render_groups ::
  "hunk \<Rightarrow> line_coordinates list option \<Rightarrow> direction \<Rightarrow> render_line_group list" where
  "resolve_render_groups hunk selected_lines direction =
     (let groups = line_groups (h_lines hunk)
      in case selected_lines of
           None \<Rightarrow> map unchanged_group groups
         | Some selected \<Rightarrow> resolve_loop selected direction [] [] groups)"

definition drain_reversed_run ::
  "render_line_group list \<Rightarrow> render_line_group list \<Rightarrow> render_line_group list" where
  "drain_reversed_run ordered run =
     ordered @ filter (\<lambda>g. rg_kind g = Addition) run @ filter (\<lambda>g. rg_kind g \<noteq> Addition) run"

fun reverse_loop ::
  "render_line_group list \<Rightarrow> render_line_group list \<Rightarrow> render_line_group list \<Rightarrow>
   render_line_group list" where
  "reverse_loop ordered run [] = drain_reversed_run ordered run"
| "reverse_loop ordered run (g # gs) =
     (if rg_kind g = Context then reverse_loop (drain_reversed_run ordered run @ [g]) [] gs
      else reverse_loop ordered (run @ [g]) gs)"

definition ordered_render_groups ::
  "hunk \<Rightarrow> line_coordinates list option \<Rightarrow> direction \<Rightarrow> render_line_group list" where
  "ordered_render_groups hunk selected_lines direction =
     (let resolved = resolve_render_groups hunk selected_lines direction
      in case direction of Forward \<Rightarrow> resolved | Reverse \<Rightarrow> reverse_loop [] [] resolved)"

section \<open>Planning one hunk\<close>

record rendered_hunk =
  rh_source_start :: u32
  rh_source_lines :: u32
  rh_result_lines :: u32
  rh_groups :: "render_line_group list"

definition count_group :: "direction \<Rightarrow> render_line_group \<Rightarrow> u32 \<times> u32 \<Rightarrow> u32 \<times> u32" where
  "count_group direction g counts =
     (case reversed_kind (rg_kind g) direction of
        Context \<Rightarrow> (saturating_add (fst counts) 1, saturating_add (snd counts) 1)
      | Addition \<Rightarrow> (fst counts, saturating_add (snd counts) 1)
      | Deletion \<Rightarrow> (saturating_add (fst counts) 1, snd counts)
      | _ \<Rightarrow> counts)"

definition plan_hunk :: "prepared_hunk \<Rightarrow> direction \<Rightarrow> rendered_hunk" where
  "plan_hunk prepared direction =
     (let hunk = ph_hunk prepared;
          groups = ordered_render_groups hunk (ph_selected_lines prepared) direction;
          counts = fold (count_group direction) groups (0, 0)
      in \<lparr>rh_source_start =
            (case direction of Forward \<Rightarrow> h_old_start hunk | Reverse \<Rightarrow> h_new_start hunk),
          rh_source_lines = fst counts, rh_result_lines = snd counts, rh_groups = groups\<rparr>)"

section \<open>Stranded end-of-file markers\<close>

definition emitted_line_kind :: "render_line_group \<Rightarrow> nat \<Rightarrow> diff_line \<Rightarrow> diff_line_kind" where
  "emitted_line_kind g index line =
     (if index = 0 then rg_kind g
      else if rg_kind g = Context \<and> rg_original_kind g \<noteq> Context \<and> is_eof_marker (dl_kind line)
      then BothEofNoNewline
      else dl_kind line)"

definition occupied_sides :: "render_line_group \<Rightarrow> direction \<Rightarrow> bool \<times> bool" where
  "occupied_sides g direction =
     (case reversed_kind (rg_kind g) direction of
        Context \<Rightarrow> (True, True)
      | Addition \<Rightarrow> (False, True)
      | Deletion \<Rightarrow> (True, False)
      | _ \<Rightarrow> (False, False))"

definition marker_sides :: "diff_line_kind \<Rightarrow> bool \<times> bool" where
  "marker_sides kind =
     (case kind of
        OldEofNoNewline \<Rightarrow> (True, False)
      | NewEofNoNewline \<Rightarrow> (False, True)
      | _ \<Rightarrow> (True, True))"

definition strands ::
  "direction \<Rightarrow> render_line_group \<Rightarrow> render_line_group list \<Rightarrow> bool" where
  "strands direction g later \<longleftrightarrow>
     list_ex (\<lambda>(index, line).
       let kind = reversed_kind (emitted_line_kind g index line) direction;
           (source, result) = marker_sides kind
       in is_eof_marker kind
          \<and> list_ex (\<lambda>l. let (later_source, later_result) = occupied_sides l direction
                          in source \<and> later_source \<or> result \<and> later_result) later)
       (enumerate 0 (rg_lines g))"

fun any_stranded :: "direction \<Rightarrow> render_line_group list \<Rightarrow> bool" where
  "any_stranded direction [] = False"
| "any_stranded direction (g # later) = (strands direction g later \<or> any_stranded direction later)"

definition refuse_stranded_eof_markers ::
  "prepared_file \<Rightarrow> rendered_hunk list \<Rightarrow> direction \<Rightarrow> git_error + unit" where
  "refuse_stranded_eof_markers prepared rendered direction =
     (if any_stranded direction (concat (map rh_groups rendered))
      then Inl (UnrepresentableLineSelection (PreparedFile_path prepared)) else Inr ())"

section \<open>Rendering\<close>

fun show_octal :: "nat \<Rightarrow> string" where
  "show_octal n =
     (if n < 8 then [char_of (48 + n)] else show_octal (n div 8) @ [char_of (48 + n mod 8)])"

declare show_octal.simps [simp del]

definition octal_byte :: "char \<Rightarrow> string" where
  "octal_byte c =
     (let n = of_char c :: nat
      in [char_of (48 + n div 64), char_of (48 + n div 8 mod 8), char_of (48 + n mod 8)])"

definition quote_byte :: "char \<Rightarrow> string" where
  "quote_byte c =
     (if c = CHR 0x5C then [CHR 0x5C, CHR 0x5C]
      else if c = CHR 0x22 then [CHR 0x5C, CHR 0x22]
      else if c = CHR 0x0A then [CHR 0x5C, CHR ''n'']
      else if c = CHR 0x0D then [CHR 0x5C, CHR ''r'']
      else if c = CHR 0x09 then [CHR 0x5C, CHR ''t'']
      else if CHR 0x20 \<le> c \<and> c \<le> CHR 0x7E then [c]
      else CHR 0x5C # octal_byte c)"

definition push_quoted_path :: "string \<Rightarrow> string \<Rightarrow> string \<Rightarrow> string" where
  "push_quoted_path output prefix path =
     output @ [CHR 0x22] @ concat (map quote_byte (prefix @ path)) @ [CHR 0x22]"

definition push_line_as ::
  "string \<Rightarrow> diff_line \<Rightarrow> diff_line_kind \<Rightarrow> direction \<Rightarrow> string" where
  "push_line_as patch line kind direction =
     (case reversed_kind kind direction of
        Context \<Rightarrow> patch @ '' ''
      | Addition \<Rightarrow> patch @ ''+''
      | Deletion \<Rightarrow> patch @ ''-''
      | _ \<Rightarrow> patch) @ dl_content line"

definition push_render_group :: "string \<Rightarrow> render_line_group \<Rightarrow> direction \<Rightarrow> string" where
  "push_render_group patch g direction =
     fold (\<lambda>(index, line) patch. push_line_as patch line (emitted_line_kind g index line) direction)
       (enumerate 0 (rg_lines g)) patch"

definition result_start :: "rendered_hunk \<Rightarrow> int \<Rightarrow> u32" where
  "result_start rendered drift =
     (if rh_result_lines rendered = 0 then 0
      else let start = max (uint (rh_source_start rendered) + drift) 1
           in if start < 2 ^ 32 then word_of_int start else - 1)"

definition next_drift :: "rendered_hunk \<Rightarrow> int \<Rightarrow> int" where
  "next_drift rendered drift =
     drift + (uint (rh_result_lines rendered) - uint (rh_source_lines rendered))"

definition newline :: string where
  "newline = [CHR 0x0A]"

definition show_u32 :: "u32 \<Rightarrow> string" where
  "show_u32 w = show_nat (unat w)"

definition render_hunk ::
  "string \<Rightarrow> rendered_hunk \<Rightarrow> direction \<Rightarrow> int \<Rightarrow> string \<times> int" where
  "render_hunk patch rendered direction drift =
     (fold (\<lambda>g patch. push_render_group patch g direction) (rh_groups rendered)
        (patch @ ''@@ -'' @ show_u32 (rh_source_start rendered) @ '',''
         @ show_u32 (rh_source_lines rendered) @ '' +'' @ show_u32 (result_start rendered drift)
         @ '','' @ show_u32 (rh_result_lines rendered) @ '' @@'' @ newline),
      next_drift rendered drift)"

definition show_mode :: "u32 \<Rightarrow> string" where
  "show_mode mode = show_octal (unat mode)"

record file_sides =
  fs_old_path :: "string option"
  fs_new_path :: "string option"
  fs_old_id :: string
  fs_new_id :: string
  fs_old_mode :: u32
  fs_new_mode :: u32

definition patch_sides :: "file_diff \<Rightarrow> rendered_hunk list \<Rightarrow> direction \<Rightarrow> file_sides" where
  "patch_sides file rendered direction =
     (let s = (case direction of
                 Forward \<Rightarrow>
                   \<lparr>fs_old_path = fd_old_path file, fs_new_path = fd_new_path file,
                    fs_old_id = fd_old_blob_id file, fs_new_id = fd_new_blob_id file,
                    fs_old_mode = fd_old_mode file, fs_new_mode = fd_new_mode file\<rparr>
               | Reverse \<Rightarrow>
                   \<lparr>fs_old_path = fd_new_path file, fs_new_path = fd_old_path file,
                    fs_old_id = fd_new_blob_id file, fs_new_id = fd_old_blob_id file,
                    fs_old_mode = fd_new_mode file, fs_new_mode = fd_old_mode file\<rparr>)
      in if fs_new_path s = None \<and> 0 < sum_list (map rh_result_lines rendered)
         then s\<lparr>fs_new_path := fs_old_path s, fs_new_id := fs_old_id s, fs_new_mode := fs_old_mode s\<rparr>
         else s)"

definition mode_header :: "file_sides \<Rightarrow> string" where
  "mode_header s =
     (case (fs_old_path s, fs_new_path s) of
        (None, Some _) \<Rightarrow>
          if fs_new_mode s \<noteq> 0 then ''new file mode '' @ show_mode (fs_new_mode s) @ newline else []
      | (Some _, None) \<Rightarrow>
          if fs_old_mode s \<noteq> 0 then ''deleted file mode '' @ show_mode (fs_old_mode s) @ newline else []
      | (Some _, Some _) \<Rightarrow>
          if fs_old_mode s \<noteq> fs_new_mode s
          then ''old mode '' @ show_mode (fs_old_mode s) @ newline @ ''new mode ''
               @ show_mode (fs_new_mode s) @ newline
          else []
      | (None, None) \<Rightarrow> [])"

definition rename_header :: "file_sides \<Rightarrow> string" where
  "rename_header s =
     (case (fs_old_path s, fs_new_path s) of
        (Some old_path, Some new_path) \<Rightarrow>
          if old_path \<noteq> new_path
          then push_quoted_path
                 (push_quoted_path (''similarity index 100%'' @ newline @ ''rename from '') [] old_path
                  @ newline @ ''rename to '') [] new_path @ newline
          else []
      | _ \<Rightarrow> [])"

definition side_header :: "string \<Rightarrow> string \<Rightarrow> string option \<Rightarrow> string" where
  "side_header lead prefix path =
     (case path of
        Some p \<Rightarrow> push_quoted_path lead prefix p
      | None \<Rightarrow> lead @ ''/dev/null'') @ newline"

definition render_file ::
  "string \<Rightarrow> file_diff \<Rightarrow> rendered_hunk list \<Rightarrow> direction \<Rightarrow> string" where
  "render_file patch file rendered direction =
     (let s = patch_sides file rendered direction;
          display_old = display_path (fs_old_path s) (fs_new_path s);
          display_new = display_path (fs_new_path s) (fs_old_path s);
          patch = push_quoted_path (patch @ ''diff --git '') ''a/'' display_old;
          patch = push_quoted_path (patch @ '' '') ''b/'' display_new @ newline;
          patch = patch @ mode_header s @ rename_header s;
          patch = patch @ ''index '' @ fs_old_id s @ ''..'' @ fs_new_id s;
          patch = patch @ (if fs_old_mode s \<noteq> 0 \<and> fs_old_mode s = fs_new_mode s
                           then '' '' @ show_mode (fs_old_mode s) else []) @ newline;
          patch = patch @ side_header ''--- '' ''a/'' (fs_old_path s);
          patch = patch @ side_header ''+++ '' ''b/'' (fs_new_path s)
      in fst (fold (\<lambda>hunk (patch, drift). render_hunk patch hunk direction drift) rendered
                (patch, 0)))"

definition hunk_order :: "direction \<Rightarrow> prepared_hunk \<Rightarrow> nat \<times> nat" where
  "hunk_order direction p =
     (case direction of
        Forward \<Rightarrow> (unat (h_old_start (ph_hunk p)), unat (h_new_start (ph_hunk p)))
      | Reverse \<Rightarrow> (unat (h_new_start (ph_hunk p)), unat (h_old_start (ph_hunk p))))"

text \<open>\<open>sort_by_key\<close> is stable; tuples compare lexicographically.\<close>

definition sort_hunks :: "direction \<Rightarrow> prepared_hunk list \<Rightarrow> prepared_hunk list" where
  "sort_hunks direction hunks =
     sort_key (fst \<circ> hunk_order direction) (sort_key (snd \<circ> hunk_order direction) hunks)"

definition plan_file :: "prepared_file \<Rightarrow> direction \<Rightarrow> rendered_hunk list" where
  "plan_file prepared direction =
     map (\<lambda>hunk. plan_hunk hunk direction) (sort_hunks direction (pf_hunks prepared))"

fun render_patch_from ::
  "string \<Rightarrow> prepared_file list \<Rightarrow> direction \<Rightarrow> git_error + string" where
  "render_patch_from patch [] direction = Inr patch"
| "render_patch_from patch (prepared # files) direction =
     (let rendered = plan_file prepared direction
      in res_bind (refuse_stranded_eof_markers prepared rendered direction)
           (\<lambda>_. render_patch_from (render_file patch (pf_file prepared) rendered direction)
                  files direction))"

definition render_patch :: "prepared_file list \<Rightarrow> direction \<Rightarrow> git_error + string" where
  "render_patch files direction = render_patch_from [] files direction"

end
