(* ===== verification/Git_Hunk.thy ===== *)
theory Git_Hunk
  imports Git_Patch
begin

text \<open>
  Staging, unstaging and discarding hunks and lines: selections, their revalidation against a
  freshly computed diff, and the mutation that applies the rendered patch.

  Source: \<open>harkness-git/src/hunk.rs\<close>. libgit2 and the git executable are the record \<open>git_env\<close>: the
  fresh diff of a target, path validation, the worktree lock, the \<open>filter\<close> attribute of a path, and
  parsing, checking and applying a patch, over an abstract repository state. \<open>cancelled\<close> answers
  the n-th poll of the cancellation token.
\<close>

section \<open>Selections\<close>

text \<open>
  The two selection structs share their file and hunk fields; the trait \<open>Selection\<close> reads only
  those.
\<close>

record hunk_selection =
  hs_old_path :: "string option"
  hs_new_path :: "string option"
  hs_old_blob_id :: string
  hs_new_blob_id :: string
  hs_context_lines :: u32
  hs_whitespace :: whitespace
  hs_old_start :: u32
  hs_old_lines :: u32
  hs_new_start :: u32
  hs_new_lines :: u32

record line_selection = hunk_selection +
  ls_old_line_number :: "u32 option"
  ls_new_line_number :: "u32 option"

definition HunkSelection_new :: "file_diff \<Rightarrow> hunk \<Rightarrow> hunk_selection" where
  "HunkSelection_new file hunk =
     \<lparr>hs_old_path = fd_old_path file, hs_new_path = fd_new_path file,
      hs_old_blob_id = fd_old_blob_id file, hs_new_blob_id = fd_new_blob_id file,
      hs_context_lines = fd_context_lines file, hs_whitespace = fd_whitespace file,
      hs_old_start = h_old_start hunk, hs_old_lines = h_old_lines hunk,
      hs_new_start = h_new_start hunk, hs_new_lines = h_new_lines hunk\<rparr>"

definition HunkSelection_from_parts ::
  "string option \<Rightarrow> string option \<Rightarrow> string \<Rightarrow> string \<Rightarrow> u32 \<Rightarrow> whitespace \<Rightarrow> u32 \<times> u32 \<Rightarrow> u32 \<times> u32 \<Rightarrow>
   hunk_selection" where
  "HunkSelection_from_parts old_path new_path old_id new_id context ws old_range new_range =
     \<lparr>hs_old_path = old_path, hs_new_path = new_path, hs_old_blob_id = old_id,
      hs_new_blob_id = new_id, hs_context_lines = context, hs_whitespace = ws,
      hs_old_start = fst old_range, hs_old_lines = snd old_range,
      hs_new_start = fst new_range, hs_new_lines = snd new_range\<rparr>"

definition LineSelection_new :: "file_diff \<Rightarrow> hunk \<Rightarrow> diff_line \<Rightarrow> line_selection" where
  "LineSelection_new file hunk line =
     \<lparr>hs_old_path = fd_old_path file, hs_new_path = fd_new_path file,
      hs_old_blob_id = fd_old_blob_id file, hs_new_blob_id = fd_new_blob_id file,
      hs_context_lines = fd_context_lines file, hs_whitespace = fd_whitespace file,
      hs_old_start = h_old_start hunk, hs_old_lines = h_old_lines hunk,
      hs_new_start = h_new_start hunk, hs_new_lines = h_new_lines hunk,
      ls_old_line_number = dl_old_line_number line,
      ls_new_line_number = dl_new_line_number line\<rparr>"

definition LineSelection_from_parts ::
  "string option \<Rightarrow> string option \<Rightarrow> string \<Rightarrow> string \<Rightarrow> u32 \<Rightarrow> whitespace \<Rightarrow> u32 \<times> u32 \<Rightarrow> u32 \<times> u32 \<Rightarrow>
   u32 option \<Rightarrow> u32 option \<Rightarrow> line_selection" where
  "LineSelection_from_parts old_path new_path old_id new_id context ws old_range new_range old_n new_n =
     \<lparr>hs_old_path = old_path, hs_new_path = new_path, hs_old_blob_id = old_id,
      hs_new_blob_id = new_id, hs_context_lines = context, hs_whitespace = ws,
      hs_old_start = fst old_range, hs_old_lines = snd old_range,
      hs_new_start = fst new_range, hs_new_lines = snd new_range,
      ls_old_line_number = old_n, ls_new_line_number = new_n\<rparr>"

definition Selection_sides :: "'a hunk_selection_scheme \<Rightarrow> string option list" where
  "Selection_sides s = [hs_old_path s, hs_new_path s]"

definition Selection_hunk_coordinates :: "'a hunk_selection_scheme \<Rightarrow> u32 \<times> u32 \<times> u32 \<times> u32" where
  "Selection_hunk_coordinates s = (hs_old_start s, hs_old_lines s, hs_new_start s, hs_new_lines s)"

definition Selection_display_path :: "'a hunk_selection_scheme \<Rightarrow> string" where
  "Selection_display_path s = display_path (hs_new_path s) (hs_old_path s)"

text \<open>
  Rust compares paths by components, each kind of component before the next: the root, \<open>.\<close>
  (only in front), \<open>..\<close>, and names by their bytes. Paths here are normal (no repeated or trailing
  separator, no inner \<open>.\<close>), so equal paths are equal strings.
\<close>

definition component_key :: "string \<Rightarrow> string" where
  "component_key c =
     (if c = [] then [CHR 0x01] else if c = ''.'' then [CHR 0x02]
      else if c = ''..'' then [CHR 0x03] else CHR 0x04 # c)"

definition path_key :: "string \<Rightarrow> string list" where
  "path_key path = (if path = [] then [] else map component_key (split_on CHR ''/'' path))"

definition selection_paths :: "'a hunk_selection_scheme list \<Rightarrow> string list" where
  "selection_paths selections =
     remdups_adj (sort_key path_key
       (concat (map (\<lambda>s. List.map_filter id (Selection_sides s)) selections)))"

fun refuse_whitespace_insensitive :: "'a hunk_selection_scheme list \<Rightarrow> git_error + unit" where
  "refuse_whitespace_insensitive [] = Inr ()"
| "refuse_whitespace_insensitive (s # selections) =
     (if \<not> Whitespace_is_exact (hs_whitespace s)
      then Inl (WhitespaceInsensitiveSelection (Selection_display_path s) (hs_whitespace s))
      else refuse_whitespace_insensitive selections)"

definition coordinates_match :: "'a hunk_selection_scheme \<Rightarrow> hunk \<Rightarrow> bool" where
  "coordinates_match s hunk \<longleftrightarrow>
     Selection_hunk_coordinates s
     = (h_old_start hunk, h_old_lines hunk, h_new_start hunk, h_new_lines hunk)"

definition line_coordinates_match :: "line_selection \<Rightarrow> diff_line \<Rightarrow> bool" where
  "line_coordinates_match s line \<longleftrightarrow>
     (dl_kind line = Addition \<or> dl_kind line = Deletion)
     \<and> ls_old_line_number s = dl_old_line_number line
     \<and> ls_new_line_number s = dl_new_line_number line"

section \<open>Remapping a whitespace-insensitive view\<close>

type_synonym changed_line = "diff_line_kind \<times> u32 option \<times> u32 option \<times> string"

definition changed_lines :: "hunk \<Rightarrow> changed_line list" where
  "changed_lines hunk =
     map (\<lambda>l. (dl_kind l, dl_old_line_number l, dl_new_line_number l, dl_content l))
       (filter (\<lambda>l. dl_kind l = Addition \<or> dl_kind l = Deletion) (h_lines hunk))"

definition covered_side :: "u32 \<Rightarrow> u32 \<Rightarrow> u32 \<times> u32" where
  "covered_side start lines =
     (let start = max start 1 in (start, saturating_add start (max lines 1)))"

definition sides_intersect :: "u32 \<times> u32 \<Rightarrow> u32 \<times> u32 \<Rightarrow> bool" where
  "sides_intersect first second \<longleftrightarrow> fst first < snd second \<and> fst second < snd first"

definition overlaps :: "hunk \<Rightarrow> hunk \<Rightarrow> bool" where
  "overlaps left right \<longleftrightarrow>
     sides_intersect (covered_side (h_old_start left) (h_old_lines left))
       (covered_side (h_old_start right) (h_old_lines right))
     \<or> sides_intersect (covered_side (h_new_start left) (h_new_lines left))
       (covered_side (h_new_start right) (h_new_lines right))"

definition remap_to_exact ::
  "file_diff \<Rightarrow> hunk \<Rightarrow> file_diff \<Rightarrow> git_error + hunk_selection list" where
  "remap_to_exact view view_hunk exact =
     (let path = display_path (fd_new_path view) (fd_old_path view)
      in if fd_old_blob_id view \<noteq> fd_old_blob_id exact \<or> fd_new_blob_id view \<noteq> fd_new_blob_id exact
         then Inl (StaleHunkSelection path)
         else let wanted = changed_lines view_hunk;
                  candidates = filter (overlaps view_hunk) (fd_hunks exact);
                  found = concat (map changed_lines candidates)
              in if card (set wanted) \<noteq> length wanted \<or> card (set found) \<noteq> length found
                    \<or> set wanted \<noteq> set found
                 then Inl (HiddenWhitespaceChanges path)
                 else Inr (map (HunkSelection_new exact) candidates))"

section \<open>Revalidation\<close>

datatype apply_target = Index | Worktree

datatype mutation_mode = Stage | Unstage | Discard

primrec MutationMode_diff_target :: "mutation_mode \<Rightarrow> diff_target" where
  "MutationMode_diff_target Stage = Unstaged"
| "MutationMode_diff_target Unstage = Staged"
| "MutationMode_diff_target Discard = Unstaged"

primrec MutationMode_direction :: "mutation_mode \<Rightarrow> direction" where
  "MutationMode_direction Stage = Forward"
| "MutationMode_direction Unstage = Reverse"
| "MutationMode_direction Discard = Reverse"

primrec MutationMode_apply_target :: "mutation_mode \<Rightarrow> apply_target" where
  "MutationMode_apply_target Stage = Index"
| "MutationMode_apply_target Unstage = Index"
| "MutationMode_apply_target Discard = Worktree"

definition refuse_unsupported :: "file_diff \<Rightarrow> apply_target \<Rightarrow> git_error + unit" where
  "refuse_unsupported file apply_target =
     (let path = display_path (fd_new_path file) (fd_old_path file)
      in if apply_target = Worktree \<and> fd_change file = Unmerged then Inl (UnmergedDiscard path)
         else if apply_target = Worktree \<and> fd_change file = Untracked
         then Inl (UntrackedDiscardRequiresDelete path)
         else if fd_change file \<notin> set [Added, Modified, Deleted, Renamed, Untracked]
         then Inl (UnsupportedHunkChange path (fd_change file))
         else if fd_binary file then Inl (BinaryHunkSelection path)
         else if fd_hunks file \<noteq> [] then Inr ()
         else if fd_change file = Renamed
         then Inl (RenameOnlyHunkSelection
                     (case fd_old_path file of Some p \<Rightarrow> p | None \<Rightarrow> [])
                     (case fd_new_path file of Some p \<Rightarrow> p | None \<Rightarrow> []))
         else Inl (MetadataOnlyHunkSelection path (fd_old_mode file) (fd_new_mode file)))"

definition ranges_intersect :: "u32 \<Rightarrow> u32 \<Rightarrow> u32 \<Rightarrow> u32 \<Rightarrow> bool" where
  "ranges_intersect start lines other_start other_lines \<longleftrightarrow>
     start < saturating_add other_start (max other_lines 1)
     \<and> other_start < saturating_add start (max lines 1)"

definition hunks_collide :: "hunk \<Rightarrow> hunk \<Rightarrow> bool" where
  "hunks_collide hunk other \<longleftrightarrow>
     ranges_intersect (h_old_start hunk) (h_old_lines hunk) (h_old_start other) (h_old_lines other)
     \<or> ranges_intersect (h_new_start hunk) (h_new_lines hunk) (h_new_start other) (h_new_lines other)"

fun any_collision :: "prepared_hunk list \<Rightarrow> bool" where
  "any_collision [] = False"
| "any_collision (p # ps) =
     (list_ex (\<lambda>q. hunks_collide (ph_hunk p) (ph_hunk q)) ps \<or> any_collision ps)"

fun refuse_overlaps :: "prepared_file list \<Rightarrow> git_error + unit" where
  "refuse_overlaps [] = Inr ()"
| "refuse_overlaps (entry # prepared) =
     (if any_collision (pf_hunks entry)
      then Inl (OverlappingHunkSelection (PreparedFile_path entry))
      else refuse_overlaps prepared)"

definition context_settings :: "'a hunk_selection_scheme list \<Rightarrow> u32 list" where
  "context_settings selections = remdups_adj (sort (map hs_context_lines selections))"

fun compute_contexts ::
  "(diff_options \<Rightarrow> git_error + file_diff list) \<Rightarrow> (nat \<Rightarrow> bool) \<Rightarrow> nat \<Rightarrow> string list \<Rightarrow> u32 list \<Rightarrow>
   git_error + (u32 \<times> file_diff list) list" where
  "compute_contexts compute cancelled n paths [] = Inr []"
| "compute_contexts compute cancelled n paths (context # contexts) =
     (if cancelled n then Inl Cancelled
      else res_bind (compute (DiffOptions_with_paths paths
                                (DiffOptions_with_context_lines context DiffOptions_unbounded)))
             (\<lambda>files. res_bind (compute_contexts compute cancelled (Suc n) paths contexts)
                        (\<lambda>current. Inr ((context, files) # current))))"

definition find_file ::
  "(u32 \<times> file_diff list) list \<Rightarrow> 'a hunk_selection_scheme \<Rightarrow> file_diff option" where
  "find_file current s =
     Option.bind (find (\<lambda>(context, _). context = hs_context_lines s) current)
       (\<lambda>(_, files). find (\<lambda>f. fd_old_path f = hs_old_path s \<and> fd_new_path f = hs_new_path s) files)"

definition revalidate ::
  "(u32 \<times> file_diff list) list \<Rightarrow> apply_target \<Rightarrow> 'a hunk_selection_scheme \<Rightarrow>
   git_error + file_diff \<times> hunk" where
  "revalidate current apply_target s =
     (let path = Selection_display_path s
      in case find_file current s of
           None \<Rightarrow> Inl (StaleHunkSelection path)
         | Some file \<Rightarrow>
             if fd_old_blob_id file \<noteq> hs_old_blob_id s \<or> fd_new_blob_id file \<noteq> hs_new_blob_id s
             then Inl (StaleHunkSelection path)
             else res_bind (refuse_unsupported file apply_target) (\<lambda>_.
               case find (coordinates_match s) (fd_hunks file) of
                 None \<Rightarrow> Inl (HunkNotFound path (hs_old_start s) (hs_old_lines s) (hs_new_start s)
                                (hs_new_lines s))
               | Some hunk \<Rightarrow> Inr (file, hunk)))"

definition same_file :: "file_diff \<Rightarrow> file_diff \<Rightarrow> bool" where
  "same_file a b \<longleftrightarrow>
     fd_old_path a = fd_old_path b \<and> fd_new_path a = fd_new_path b
     \<and> fd_old_blob_id a = fd_old_blob_id b \<and> fd_new_blob_id a = fd_new_blob_id b"

fun upsert_file ::
  "file_diff \<Rightarrow> (prepared_hunk list \<Rightarrow> prepared_hunk list) \<Rightarrow> prepared_file list \<Rightarrow>
   prepared_file list" where
  "upsert_file file push [] = [\<lparr>pf_file = file, pf_hunks = push []\<rparr>]"
| "upsert_file file push (p # prepared) =
     (if same_file (pf_file p) file then p\<lparr>pf_hunks := push (pf_hunks p)\<rparr> # prepared
      else p # upsert_file file push prepared)"

definition push_whole :: "hunk \<Rightarrow> prepared_hunk list \<Rightarrow> prepared_hunk list" where
  "push_whole hunk hunks =
     (if list_ex (\<lambda>p. ph_hunk p = hunk) hunks then hunks
      else hunks @ [\<lparr>ph_hunk = hunk, ph_selected_lines = None\<rparr>])"

fun push_line :: "hunk \<Rightarrow> line_coordinates \<Rightarrow> prepared_hunk list \<Rightarrow> prepared_hunk list" where
  "push_line hunk coordinates [] = [\<lparr>ph_hunk = hunk, ph_selected_lines = Some [coordinates]\<rparr>]"
| "push_line hunk coordinates (p # hunks) =
     (if ph_hunk p = hunk
      then p\<lparr>ph_selected_lines :=
               Some (let selected = (case ph_selected_lines p of Some s \<Rightarrow> s | None \<Rightarrow> [])
                     in if coordinates \<in> set selected then selected
                        else selected @ [coordinates])\<rparr> # hunks
      else p # push_line hunk coordinates hunks)"

fun prepare_selections ::
  "(u32 \<times> file_diff list) list \<Rightarrow> apply_target \<Rightarrow> (nat \<Rightarrow> bool) \<Rightarrow> nat \<Rightarrow> hunk_selection list \<Rightarrow>
   prepared_file list \<Rightarrow> git_error + prepared_file list" where
  "prepare_selections current apply_target cancelled n [] prepared = Inr prepared"
| "prepare_selections current apply_target cancelled n (s # selections) prepared =
     (if cancelled n then Inl Cancelled
      else res_bind (revalidate current apply_target s) (\<lambda>(file, hunk).
             prepare_selections current apply_target cancelled (Suc n) selections
               (upsert_file file (push_whole hunk) prepared)))"

definition prepare ::
  "(diff_options \<Rightarrow> git_error + file_diff list) \<Rightarrow> (nat \<Rightarrow> bool) \<Rightarrow> hunk_selection list \<Rightarrow>
   string list \<Rightarrow> apply_target \<Rightarrow> git_error + prepared_file list" where
  "prepare compute cancelled selections paths apply_target =
     (let contexts = context_settings selections
      in res_bind (compute_contexts compute cancelled 0 paths contexts) (\<lambda>current.
         res_bind (prepare_selections current apply_target cancelled (length contexts) selections [])
           (\<lambda>prepared. res_bind (refuse_overlaps prepared) (\<lambda>_. Inr prepared))))"

fun prepare_line_selections ::
  "(u32 \<times> file_diff list) list \<Rightarrow> apply_target \<Rightarrow> (nat \<Rightarrow> bool) \<Rightarrow> nat \<Rightarrow> line_selection list \<Rightarrow>
   prepared_file list \<Rightarrow> git_error + prepared_file list" where
  "prepare_line_selections current apply_target cancelled n [] prepared = Inr prepared"
| "prepare_line_selections current apply_target cancelled n (s # selections) prepared =
     (if cancelled n then Inl Cancelled
      else res_bind (revalidate current apply_target s) (\<lambda>(file, hunk).
             case find (line_coordinates_match s) (h_lines hunk) of
               None \<Rightarrow> Inl (LineNotFound (Selection_display_path s) (ls_old_line_number s)
                              (ls_new_line_number s))
             | Some line \<Rightarrow>
                 prepare_line_selections current apply_target cancelled (Suc n) selections
                   (upsert_file file
                      (push_line hunk \<lparr>lc_old = dl_old_line_number line,
                                       lc_new = dl_new_line_number line\<rparr>) prepared)))"

definition prepare_lines ::
  "(diff_options \<Rightarrow> git_error + file_diff list) \<Rightarrow> (nat \<Rightarrow> bool) \<Rightarrow> line_selection list \<Rightarrow>
   string list \<Rightarrow> apply_target \<Rightarrow> git_error + prepared_file list" where
  "prepare_lines compute cancelled selections paths apply_target =
     (let contexts = context_settings selections
      in res_bind (compute_contexts compute cancelled 0 paths contexts) (\<lambda>current.
         res_bind (prepare_line_selections current apply_target cancelled (length contexts) selections [])
           (\<lambda>prepared. res_bind (refuse_overlaps prepared) (\<lambda>_. Inr prepared))))"

section \<open>Mutation\<close>

datatype filter_attribute = FilterDriver string | FilterTrue | FilterUnset

record 's git_env =
  ge_validate_paths :: "string list \<Rightarrow> git_error + unit"
  ge_open :: "git_error + unit"
  ge_refuse_locked :: "git_error + unit"
  ge_filter :: "string \<Rightarrow> git_error + filter_attribute"
  ge_compute :: "diff_target \<Rightarrow> diff_options \<Rightarrow> git_error + file_diff list"
  ge_parse :: "string \<Rightarrow> git_error + unit"
  ge_check :: "apply_target \<Rightarrow> string \<Rightarrow> 's \<Rightarrow> git_error + unit"
  ge_apply :: "apply_target \<Rightarrow> string \<Rightarrow> 's \<Rightarrow> (git_error + unit) \<times> 's"

fun refuse_filtered_paths ::
  "(string \<Rightarrow> git_error + filter_attribute) \<Rightarrow> string list \<Rightarrow> git_error + unit" where
  "refuse_filtered_paths attr [] = Inr ()"
| "refuse_filtered_paths attr (path # paths) =
     res_bind (attr path) (\<lambda>value.
       case value of
         FilterDriver driver \<Rightarrow> Inl (FilteredHunkSelection path driver)
       | FilterTrue \<Rightarrow> Inl (FilteredHunkSelection path ''unnamed'')
       | FilterUnset \<Rightarrow> refuse_filtered_paths attr paths)"

definition apply_patch ::
  "'s git_env \<Rightarrow> prepared_file list \<Rightarrow> mutation_mode \<Rightarrow> 's \<Rightarrow> (git_error + unit) \<times> 's" where
  "apply_patch env prepared mode repo =
     (let target = MutationMode_apply_target mode
      in case render_patch prepared (MutationMode_direction mode) of
           Inl e \<Rightarrow> (Inl e, repo)
         | Inr patch \<Rightarrow>
             (case res_bind (ge_parse env patch) (\<lambda>_. ge_check env target patch repo) of
                Inl e \<Rightarrow> (Inl e, repo)
              | Inr _ \<Rightarrow> ge_apply env target patch repo))"

definition refusals_first ::
  "'s git_env \<Rightarrow> 'a hunk_selection_scheme list \<Rightarrow> git_error + unit" where
  "refusals_first env selections =
     (let paths = selection_paths selections
      in res_bind (ge_validate_paths env paths) (\<lambda>_.
         res_bind (ge_open env) (\<lambda>_. ge_refuse_locked env)))"

definition mutate ::
  "'s git_env \<Rightarrow> (nat \<Rightarrow> bool) \<Rightarrow> hunk_selection list \<Rightarrow> mutation_mode \<Rightarrow> 's \<Rightarrow>
   (git_error + nat) \<times> 's" where
  "mutate env cancelled selections mode repo =
     (let paths = selection_paths selections
      in case refusals_first env selections of
           Inl e \<Rightarrow> (Inl e, repo)
         | Inr _ \<Rightarrow>
             if selections = [] then (Inr 0, repo)
             else (case res_bind (refuse_filtered_paths (ge_filter env) paths) (\<lambda>_.
                          prepare (ge_compute env (MutationMode_diff_target mode)) cancelled
                            selections paths (MutationMode_apply_target mode)) of
                     Inl e \<Rightarrow> (Inl e, repo)
                   | Inr prepared \<Rightarrow>
                       (case apply_patch env prepared mode repo of
                          (Inl e, repo') \<Rightarrow> (Inl e, repo')
                        | (Inr _, repo') \<Rightarrow>
                            (Inr (sum_list (map (length \<circ> pf_hunks) prepared)), repo'))))"

definition selected_count :: "prepared_file list \<Rightarrow> nat" where
  "selected_count prepared =
     sum_list (map (\<lambda>h. case ph_selected_lines h of Some s \<Rightarrow> length s | None \<Rightarrow> 0)
                 (concat (map pf_hunks prepared)))"

definition mutate_lines ::
  "'s git_env \<Rightarrow> (nat \<Rightarrow> bool) \<Rightarrow> line_selection list \<Rightarrow> mutation_mode \<Rightarrow> 's \<Rightarrow>
   (git_error + nat \<times> nat) \<times> 's" where
  "mutate_lines env cancelled selections mode repo =
     (let paths = selection_paths selections
      in case refusals_first env selections of
           Inl e \<Rightarrow> (Inl e, repo)
         | Inr _ \<Rightarrow>
             if selections = [] then (Inr (0, 0), repo)
             else (case res_bind (refuse_filtered_paths (ge_filter env) paths) (\<lambda>_.
                          prepare_lines (ge_compute env (MutationMode_diff_target mode)) cancelled
                            selections paths (MutationMode_apply_target mode)) of
                     Inl e \<Rightarrow> (Inl e, repo)
                   | Inr prepared \<Rightarrow>
                       (case apply_patch env prepared mode repo of
                          (Inl e, repo') \<Rightarrow> (Inl e, repo')
                        | (Inr _, repo') \<Rightarrow>
                            (Inr (selected_count prepared,
                                  sum_list (map (length \<circ> pf_hunks) prepared)), repo'))))"

text \<open>
  The service's entry points: the whitespace refusal comes before the repository lock, whose
  acquisition is \<open>lock\<close>.
\<close>

definition stage_hunks ::
  "'s git_env \<Rightarrow> git_error + unit \<Rightarrow> (nat \<Rightarrow> bool) \<Rightarrow> hunk_selection list \<Rightarrow> 's \<Rightarrow>
   (git_error + nat) \<times> 's" where
  "stage_hunks env lock cancelled selections repo =
     (case res_bind (refuse_whitespace_insensitive selections) (\<lambda>_. lock) of
        Inl e \<Rightarrow> (Inl e, repo)
      | Inr _ \<Rightarrow> mutate env cancelled selections Stage repo)"

definition unstage_hunks ::
  "'s git_env \<Rightarrow> git_error + unit \<Rightarrow> (nat \<Rightarrow> bool) \<Rightarrow> hunk_selection list \<Rightarrow> 's \<Rightarrow>
   (git_error + nat) \<times> 's" where
  "unstage_hunks env lock cancelled selections repo =
     (case res_bind (refuse_whitespace_insensitive selections) (\<lambda>_. lock) of
        Inl e \<Rightarrow> (Inl e, repo)
      | Inr _ \<Rightarrow> mutate env cancelled selections Unstage repo)"

definition stage_lines ::
  "'s git_env \<Rightarrow> git_error + unit \<Rightarrow> (nat \<Rightarrow> bool) \<Rightarrow> line_selection list \<Rightarrow> 's \<Rightarrow>
   (git_error + nat \<times> nat) \<times> 's" where
  "stage_lines env lock cancelled selections repo =
     (case res_bind (refuse_whitespace_insensitive selections) (\<lambda>_. lock) of
        Inl e \<Rightarrow> (Inl e, repo)
      | Inr _ \<Rightarrow> mutate_lines env cancelled selections Stage repo)"

definition unstage_lines ::
  "'s git_env \<Rightarrow> git_error + unit \<Rightarrow> (nat \<Rightarrow> bool) \<Rightarrow> line_selection list \<Rightarrow> 's \<Rightarrow>
   (git_error + nat \<times> nat) \<times> 's" where
  "unstage_lines env lock cancelled selections repo =
     (case res_bind (refuse_whitespace_insensitive selections) (\<lambda>_. lock) of
        Inl e \<Rightarrow> (Inl e, repo)
      | Inr _ \<Rightarrow> mutate_lines env cancelled selections Unstage repo)"

end
