(* ===== verification/Git_Patch_Properties.thy ===== *)
theory Git_Patch_Properties
  imports Git_Hunk
begin

text \<open>
  What a rendered hunk does: its source side is the side of the diff it is applied to, its result
  side keeps exactly the chosen changes, staging some lines meets unstaging the others, accepted
  end-of-file markers end a side, and the hunks of one file apply one after the other.
\<close>

section \<open>Weaving a run\<close>

fun weave :: "'a list \<Rightarrow> 'a list \<Rightarrow> 'a list" where
  "weave [] bs = bs"
| "weave (a # as) [] = a # as"
| "weave (a # as) (b # bs) = a # b # weave as bs"

lemma weave_Nil [simp]: "weave as [] = as"
  by (cases as) simp_all

lemma get_at_Nil [simp]: "get_at [] i = []"
  by (simp add: get_at_def)

lemma get_at_Cons_Suc [simp]: "get_at (x # xs) (Suc i) = get_at xs i"
  by (simp add: get_at_def)

lemma get_at_Cons_0 [simp]: "get_at (x # xs) 0 = [x]"
  by (simp add: get_at_def)

lemma concat_get_at: "concat (map (get_at xs) [0..<length xs]) = xs"
proof -
  have "concat (map (get_at xs) [0..<length xs]) = concat (map (\<lambda>i. [xs ! i]) [0..<length xs])"
    by (intro arg_cong [of _ _ concat] map_cong) (simp_all add: get_at_def)
  then show ?thesis
    by (simp add: concat_map_singleton map_nth)
qed

lemma upt_0_Suc: "[0..<Suc n] = 0 # map Suc [0..<n]"
  by (simp add: upt_conv_Cons map_Suc_upt del: upt_Suc)

lemma weave_get_at:
  "concat (map (\<lambda>i. get_at as i @ get_at bs i) [0..<max (length as) (length bs)]) = weave as bs"
proof (induction as bs rule: weave.induct)
  case (3 a as b bs)
  then show ?case
    by (simp add: upt_0_Suc comp_def del: upt_Suc)
next
  case (2 a as)
  then show ?case
    using concat_get_at [of "a # as"] by (simp del: upt_Suc)
qed (simp add: concat_get_at)

lemma set_weave [simp]: "set (weave as bs) = set as \<union> set bs"
  by (induction as bs rule: weave.induct) auto

lemma filter_weave_left: "\<forall>b\<in>set bs. \<not> P b \<Longrightarrow> filter P (weave as bs) = filter P as"
  by (induction as bs rule: weave.induct) auto

lemma filter_weave_right: "\<forall>a\<in>set as. \<not> P a \<Longrightarrow> filter P (weave as bs) = filter P bs"
  by (induction as bs rule: weave.induct) auto

lemma concat_map_concat:
  "concat (map (\<lambda>i. concat (map f (g i))) is) = concat (map f (concat (map g is)))"
  by (induction "is") simp_all

lemma concat_map_get_at:
  "concat (map (\<lambda>i. concat (map f (get_at as i @ get_at bs i))) [0..<max (length as) (length bs)])
   = concat (map f (weave as bs))"
  unfolding concat_map_concat weave_get_at ..

section \<open>Groups and sides\<close>

text \<open>The two sides of a diff hunk, and of a list of rendered groups as the patch reads.\<close>

definition old_side :: "diff_line list \<Rightarrow> diff_line list" where
  "old_side lines = filter (\<lambda>l. dl_kind l = Context \<or> dl_kind l = Deletion) lines"

definition new_side :: "diff_line list \<Rightarrow> diff_line list" where
  "new_side lines = filter (\<lambda>l. dl_kind l = Context \<or> dl_kind l = Addition) lines"

definition side_of :: "direction \<Rightarrow> diff_line list \<Rightarrow> diff_line list" where
  "side_of direction = (case direction of Forward \<Rightarrow> old_side | Reverse \<Rightarrow> new_side)"

definition on_source :: "direction \<Rightarrow> render_line_group \<Rightarrow> bool" where
  "on_source direction g = fst (occupied_sides g direction)"

definition on_result :: "direction \<Rightarrow> render_line_group \<Rightarrow> bool" where
  "on_result direction g = snd (occupied_sides g direction)"

definition head_line :: "render_line_group \<Rightarrow> diff_line" where
  "head_line g = hd (rg_lines g)"

definition source_lines :: "direction \<Rightarrow> render_line_group list \<Rightarrow> diff_line list" where
  "source_lines direction gs = map head_line (filter (on_source direction) gs)"

definition result_lines :: "direction \<Rightarrow> render_line_group list \<Rightarrow> diff_line list" where
  "result_lines direction gs = map head_line (filter (on_result direction) gs)"

text \<open>A hunk whose first line is not an end-of-file marker.\<close>

definition hunk_wf :: "diff_line list \<Rightarrow> bool" where
  "hunk_wf lines \<longleftrightarrow> lines = [] \<or> \<not> is_eof_marker (dl_kind (hd lines))"

definition group_wf :: "line_group \<Rightarrow> bool" where
  "group_wf g \<longleftrightarrow>
     lg_lines g \<noteq> [] \<and> dl_kind (hd (lg_lines g)) = lg_kind g
     \<and> (lg_kind g = Context \<or> lg_kind g = Addition \<or> lg_kind g = Deletion)"

lemma hunk_wf_dropWhile: "hunk_wf (dropWhile (\<lambda>l. is_eof_marker (dl_kind l)) lines)"
  using hd_dropWhile [of "\<lambda>l. is_eof_marker (dl_kind l)" lines] by (auto simp: hunk_wf_def)

lemma line_groups_wf: "hunk_wf lines \<Longrightarrow> list_all group_wf (line_groups lines)"
proof (induction lines rule: line_groups.induct)
  case (2 line lines)
  have "list_all group_wf (line_groups (dropWhile (\<lambda>l. is_eof_marker (dl_kind l)) lines))"
    by (rule 2(1) [OF hunk_wf_dropWhile])
  moreover have "dl_kind line = Context \<or> dl_kind line = Addition \<or> dl_kind line = Deletion"
    using 2(2) by (cases "dl_kind line") (simp_all add: hunk_wf_def is_eof_marker_def)
  ultimately show ?case
    by (simp add: list_all_iff group_wf_def)
qed simp

lemma filter_dropWhile: "\<forall>x. P x \<longrightarrow> \<not> Q x \<Longrightarrow> filter Q (dropWhile P xs) = filter Q xs"
  by (induction xs) auto

lemma line_groups_heads:
  assumes "\<forall>l. is_eof_marker (dl_kind l) \<longrightarrow> \<not> Q l"
  shows "filter Q (map (hd \<circ> lg_lines) (line_groups lines)) = filter Q lines"
proof (induction lines rule: line_groups.induct)
  case (2 line lines)
  then show ?case
    using filter_dropWhile [of "\<lambda>l. is_eof_marker (dl_kind l)" Q lines] assms by simp
qed simp

text \<open>What becomes of one group, and which lines the result keeps.\<close>

definition resolved_group ::
  "line_coordinates list \<Rightarrow> direction \<Rightarrow> line_group \<Rightarrow> render_line_group list" where
  "resolved_group selected direction g =
     (if lg_kind g = Context then [unchanged_group g] else selected_group selected direction g)"

definition kept :: "direction \<Rightarrow> (diff_line \<Rightarrow> bool) \<Rightarrow> diff_line \<Rightarrow> bool" where
  "kept direction chosen l \<longleftrightarrow>
     (case dl_kind l of
        Context \<Rightarrow> True
      | Addition \<Rightarrow> chosen l \<longleftrightarrow> direction = Forward
      | Deletion \<Rightarrow> chosen l \<longleftrightarrow> direction = Reverse
      | _ \<Rightarrow> False)"

lemma push_selected_change_run_eq:
  "push_selected_change_run rendered run selected direction =
     rendered @ concat (map (selected_group selected direction)
       (weave (filter (\<lambda>g. lg_kind g = Deletion) run) (filter (\<lambda>g. lg_kind g = Addition) run)))"
  by (simp add: push_selected_change_run_def Let_def concat_map_get_at del: map_append)

lemma filter_concat_map: "filter Q (concat (map f xs)) = concat (map (filter Q \<circ> f) xs)"
  by (induction xs) simp_all

lemma concat_map_filter:
  "\<forall>x\<in>set xs. \<not> P x \<longrightarrow> f x = [] \<Longrightarrow> concat (map f (filter P xs)) = concat (map f xs)"
  by (induction xs) auto

lemma concat_map_weave:
  assumes "(\<forall>a\<in>set as. f a = []) \<or> (\<forall>b\<in>set bs. f b = [])"
  shows "concat (map f (weave as bs)) = concat (map f as) @ concat (map f bs)"
  using assms
proof
  assume a: "\<forall>a\<in>set as. f a = []"
  then have "concat (map f (weave as bs)) = concat (map f bs)"
    by (induction as bs rule: weave.induct) auto
  with a show ?thesis by (simp add: concat_eq_Nil_conv)
next
  assume b: "\<forall>b\<in>set bs. f b = []"
  then have "concat (map f (weave as bs)) = concat (map f as)"
    by (induction as bs rule: weave.induct) auto
  with b show ?thesis by (simp add: concat_eq_Nil_conv)
qed

text \<open>
  A view of the resolved groups that sees nothing of one kind of change sees the rest in the
  order of the diff.
\<close>

lemma push_run_filter:
  assumes run: "\<forall>g\<in>set run. lg_kind g = Addition \<or> lg_kind g = Deletion"
    and blind: "\<And>g. lg_kind g = K \<Longrightarrow> filter Q (selected_group selected direction g) = []"
    and K: "K = Addition \<or> K = Deletion"
  shows "filter Q (push_selected_change_run rendered run selected direction) =
    filter Q rendered @ concat (map (\<lambda>g. filter Q (resolved_group selected direction g)) run)"
proof -
  let ?f = "filter Q \<circ> selected_group selected direction"
  let ?ds = "filter (\<lambda>g. lg_kind g = Deletion) run" and ?as = "filter (\<lambda>g. lg_kind g = Addition) run"
  have "concat (map ?f (weave ?ds ?as)) = concat (map ?f ?ds) @ concat (map ?f ?as)"
    using blind K by (intro concat_map_weave) auto
  also have "\<dots> = concat (map ?f run)"
    using K
  proof
    assume "K = Addition"
    then have "concat (map ?f ?as) = []" "concat (map ?f ?ds) = concat (map ?f run)"
      using blind run by (auto simp: concat_eq_Nil_conv intro!: concat_map_filter)
    then show ?thesis by simp
  next
    assume "K = Deletion"
    then have "concat (map ?f ?ds) = []" "concat (map ?f ?as) = concat (map ?f run)"
      using blind run by (auto simp: concat_eq_Nil_conv intro!: concat_map_filter)
    then show ?thesis by simp
  qed
  also have "\<dots> = concat (map (\<lambda>g. filter Q (resolved_group selected direction g)) run)"
    using run by (intro arg_cong [of _ _ concat] map_cong) (auto simp: resolved_group_def)
  finally show ?thesis
    by (simp add: push_selected_change_run_eq filter_concat_map)
qed

lemma resolve_loop_filter:
  assumes "list_all group_wf gs" "\<forall>g\<in>set run. lg_kind g = Addition \<or> lg_kind g = Deletion"
    and blind: "\<And>g. lg_kind g = K \<Longrightarrow> filter Q (selected_group selected direction g) = []"
    and K: "K = Addition \<or> K = Deletion"
  shows "filter Q (resolve_loop selected direction rendered run gs) =
    filter Q rendered @ concat (map (\<lambda>g. filter Q (resolved_group selected direction g)) (run @ gs))"
  using assms(1,2)
proof (induction gs arbitrary: rendered run)
  case Nil
  then show ?case
    by (simp add: push_run_filter [OF _ blind K])
next
  case (Cons g gs)
  show ?case
  proof (cases "lg_kind g = Context")
    case True
    with Cons.IH [of "[]"] Cons.prems show ?thesis
      by (simp add: push_run_filter [OF _ blind K] resolved_group_def [of _ _ g])
  next
    case False
    with Cons.prems have "lg_kind g = Addition \<or> lg_kind g = Deletion"
      by (simp add: group_wf_def)
    with False Cons.IH [of "run @ [g]" rendered] Cons.prems show ?thesis
      by (simp add: ball_Un)
  qed
qed

text \<open>Reordering a reversed run keeps every view that sees one kind of change only.\<close>

lemma filter_drain:
  assumes "(\<forall>g\<in>set run. Q g \<longrightarrow> rg_kind g = Addition) \<or> (\<forall>g\<in>set run. Q g \<longrightarrow> rg_kind g \<noteq> Addition)"
  shows "filter Q (drain_reversed_run ordered run) = filter Q ordered @ filter Q run"
  using assms
proof
  assume "\<forall>g\<in>set run. Q g \<longrightarrow> rg_kind g = Addition"
  then have "filter Q (filter (\<lambda>g. rg_kind g = Addition) run) = filter Q run"
    "filter Q (filter (\<lambda>g. rg_kind g \<noteq> Addition) run) = []"
    by (induction run) auto
  then show ?thesis
    by (simp add: drain_reversed_run_def)
next
  assume "\<forall>g\<in>set run. Q g \<longrightarrow> rg_kind g \<noteq> Addition"
  then have "filter Q (filter (\<lambda>g. rg_kind g \<noteq> Addition) run) = filter Q run"
    "filter Q (filter (\<lambda>g. rg_kind g = Addition) run) = []"
    by (induction run) auto
  then show ?thesis
    by (simp add: drain_reversed_run_def)
qed

lemma reverse_loop_filter:
  assumes "(\<forall>g\<in>set (run @ gs). Q g \<longrightarrow> rg_kind g = Addition \<or> rg_kind g = Context)
      \<or> (\<forall>g\<in>set (run @ gs). Q g \<longrightarrow> rg_kind g \<noteq> Addition)"
    and "\<forall>g\<in>set run. rg_kind g \<noteq> Context"
  shows "filter Q (reverse_loop ordered run gs) = filter Q ordered @ filter Q run @ filter Q gs"
  using assms
proof (induction gs arbitrary: ordered run)
  case Nil
  then show ?case
    by (auto simp: filter_drain)
next
  case (Cons g gs)
  show ?case
  proof (cases "rg_kind g = Context")
    case True
    have "filter Q (drain_reversed_run ordered run) = filter Q ordered @ filter Q run"
      using Cons.prems by (intro filter_drain) auto
    with True Cons.IH [of "[]" "drain_reversed_run ordered run @ [g]"] Cons.prems show ?thesis
      by auto
  next
    case False
    with Cons.IH [of "run @ [g]" ordered] Cons.prems show ?thesis
      by auto
  qed
qed

section \<open>The two sides of a planned hunk\<close>

definition chosen :: "line_coordinates list option \<Rightarrow> diff_line \<Rightarrow> bool" where
  "chosen selected_lines l = (case selected_lines of None \<Rightarrow> True | Some s \<Rightarrow> line_selected s l)"

definition chosen_group ::
  "line_coordinates list option \<Rightarrow> direction \<Rightarrow> line_group \<Rightarrow> render_line_group list" where
  "chosen_group selected_lines direction g =
     (case selected_lines of
        None \<Rightarrow> [unchanged_group g]
      | Some s \<Rightarrow> resolved_group s direction g)"

lemma resolve_render_groups_filter:
  assumes "hunk_wf (h_lines h)" "K = Addition \<or> K = Deletion"
    and "\<And>s g. lg_kind g = K \<Longrightarrow> filter Q (selected_group s direction g) = []"
  shows "filter Q (resolve_render_groups h selected_lines direction)
    = concat (map (\<lambda>g. filter Q (chosen_group selected_lines direction g)) (line_groups (h_lines h)))"
proof (cases selected_lines)
  case None
  have "filter Q (map unchanged_group gs) = concat (map (\<lambda>g. filter Q [unchanged_group g]) gs)" for gs
    by (induction gs) auto
  with None show ?thesis
    by (simp add: resolve_render_groups_def chosen_group_def)
next
  case (Some s)
  have "filter Q (resolve_loop s direction [] [] (line_groups (h_lines h)))
      = concat (map (\<lambda>g. filter Q (resolved_group s direction g)) (line_groups (h_lines h)))"
    using resolve_loop_filter [OF line_groups_wf [OF assms(1)] _ assms(3) assms(2), of "[]" s "[]"] by simp
  with Some show ?thesis
    by (simp add: resolve_render_groups_def chosen_group_def)
qed

lemma ordered_render_groups_filter:
  assumes "hunk_wf (h_lines h)" "K = Addition \<or> K = Deletion"
    and "\<And>s g. lg_kind g = K \<Longrightarrow> filter Q (selected_group s direction g) = []"
    and "direction = Reverse \<Longrightarrow> (\<forall>g. Q g \<longrightarrow> rg_kind g = Addition \<or> rg_kind g = Context)
      \<or> (\<forall>g. Q g \<longrightarrow> rg_kind g \<noteq> Addition)"
  shows "filter Q (ordered_render_groups h selected_lines direction)
    = concat (map (\<lambda>g. filter Q (chosen_group selected_lines direction g)) (line_groups (h_lines h)))"
proof (cases direction)
  case Forward
  then show ?thesis
    using resolve_render_groups_filter [OF assms(1-3)] by (simp add: ordered_render_groups_def)
next
  case Reverse
  have "filter Q (reverse_loop [] [] gs) = filter Q gs" for gs
    using reverse_loop_filter [of "[]" gs Q "[]"] assms(4) [OF Reverse] by auto
  then show ?thesis
    using resolve_render_groups_filter [OF assms(1-3)] Reverse by (simp add: ordered_render_groups_def)
qed

lemma group_wf_cases:
  assumes "group_wf g"
  obtains (context_line) "lg_kind g = Context" "dl_kind (hd (lg_lines g)) = Context"
  | (addition) "lg_kind g = Addition" "dl_kind (hd (lg_lines g)) = Addition"
  | (deletion) "lg_kind g = Deletion" "dl_kind (hd (lg_lines g)) = Deletion"
  using assms by (auto simp: group_wf_def)

lemma selected_kind_if:
  "selected_kind d Addition b =
     (if b then Some Addition else if d = Forward then None else Some Context)"
  "selected_kind d Deletion b =
     (if b then Some Deletion else if d = Forward then Some Context else None)"
  by (cases d; cases b; simp)+

lemma occupied_sides_simps [simp]:
  "rg_kind g = Context \<Longrightarrow> occupied_sides g d = (True, True)"
  "rg_kind g = Addition \<Longrightarrow> occupied_sides g d = (d = Reverse, d = Forward)"
  "rg_kind g = Deletion \<Longrightarrow> occupied_sides g d = (d = Forward, d = Reverse)"
  by (cases d; simp add: occupied_sides_def)+

lemma on_source_kinds: "on_source d g \<Longrightarrow> rg_kind g = Context \<or> rg_kind g = (if d = Forward then Deletion else Addition)"
  by (cases d; cases "rg_kind g"; simp add: on_source_def occupied_sides_def)

lemma on_result_kinds: "on_result d g \<Longrightarrow> rg_kind g = Context \<or> rg_kind g = (if d = Forward then Addition else Deletion)"
  by (cases d; cases "rg_kind g"; simp add: on_result_def occupied_sides_def)

lemmas side_defs = on_source_def on_result_def head_line_def unchanged_group_def
  chosen_group_def resolved_group_def selected_group_def chosen_def kept_def selected_kind_if

lemma view_lines:
  assumes "hunk_wf (h_lines h)" "K = Addition \<or> K = Deletion"
    and "\<And>s g. lg_kind g = K \<Longrightarrow> filter Q (selected_group s d g) = []"
    and "d = Reverse \<Longrightarrow> (\<forall>g. Q g \<longrightarrow> rg_kind g = Addition \<or> rg_kind g = Context)
      \<or> (\<forall>g. Q g \<longrightarrow> rg_kind g \<noteq> Addition)"
    and heads: "\<And>g. group_wf g \<Longrightarrow> map head_line (filter Q (chosen_group selected_lines d g))
      = (if P (hd (lg_lines g)) then [hd (lg_lines g)] else [])"
    and markers: "\<And>l. is_eof_marker (dl_kind l) \<Longrightarrow> \<not> P l"
  shows "map head_line (filter Q (ordered_render_groups h selected_lines d)) = filter P (h_lines h)"
proof -
  have "map head_line (concat (map (\<lambda>g. filter Q (chosen_group selected_lines d g)) gs))
      = filter P (map (hd \<circ> lg_lines) gs)" if "list_all group_wf gs" for gs
    using that by (induction gs) (auto simp: heads)
  then show ?thesis
    using ordered_render_groups_filter [OF assms(1-4)] line_groups_wf [OF assms(1)]
      line_groups_heads [of P "h_lines h"] markers by simp
qed

lemma source_lines_plan:
  assumes "hunk_wf (h_lines h)"
  shows "source_lines d (ordered_render_groups h selected_lines d) = side_of d (h_lines h)"
proof -
  let ?K = "if d = Forward then Addition else Deletion"
  let ?P = "\<lambda>l. dl_kind l = Context \<or> dl_kind l = (if d = Forward then Deletion else Addition)"
  have "map head_line (filter (on_source d) (ordered_render_groups h selected_lines d)) = filter ?P (h_lines h)"
  proof (rule view_lines [OF assms, of ?K])
    show "map head_line (filter (on_source d) (chosen_group selected_lines d g))
        = (if ?P (hd (lg_lines g)) then [hd (lg_lines g)] else [])" if "group_wf g" for g
      using that by (cases g rule: group_wf_cases; cases d; cases selected_lines) (auto simp: side_defs)
    show "filter (on_source d) (selected_group s d g) = []" if "lg_kind g = ?K" for s g
      using that by (cases d) (auto simp: side_defs)
  qed (auto dest: on_source_kinds simp: is_eof_marker_def split: if_splits)
  then show ?thesis
    by (cases d) (simp_all add: source_lines_def side_of_def old_side_def new_side_def)
qed

lemma result_lines_old:
  assumes "hunk_wf (h_lines h)"
  shows "map head_line (filter (\<lambda>g. on_result d g \<and> rg_original_kind g \<noteq> Addition)
      (ordered_render_groups h selected_lines d))
    = filter (kept d (chosen selected_lines)) (old_side (h_lines h))"
proof -
  let ?Q = "\<lambda>g. on_result d g \<and> rg_original_kind g \<noteq> Addition"
  let ?P = "\<lambda>l. (dl_kind l = Context \<or> dl_kind l = Deletion) \<and> kept d (chosen selected_lines) l"
  have "map head_line (filter ?Q (ordered_render_groups h selected_lines d)) = filter ?P (h_lines h)"
  proof (rule view_lines [OF assms, of Addition])
    show "map head_line (filter ?Q (chosen_group selected_lines d g))
        = (if ?P (hd (lg_lines g)) then [hd (lg_lines g)] else [])" if "group_wf g" for g
      using that by (cases g rule: group_wf_cases; cases d; cases selected_lines) (auto simp: side_defs)
    show "filter ?Q (selected_group s d g) = []" if "lg_kind g = Addition" for s g
      using that by (auto simp: side_defs)
  qed (auto dest: on_result_kinds simp: is_eof_marker_def kept_def)
  then show ?thesis
    by (simp add: old_side_def conj_commute)
qed

lemma result_lines_new:
  assumes "hunk_wf (h_lines h)"
  shows "map head_line (filter (\<lambda>g. on_result d g \<and> rg_original_kind g \<noteq> Deletion)
      (ordered_render_groups h selected_lines d))
    = filter (kept d (chosen selected_lines)) (new_side (h_lines h))"
proof -
  let ?Q = "\<lambda>g. on_result d g \<and> rg_original_kind g \<noteq> Deletion"
  let ?P = "\<lambda>l. (dl_kind l = Context \<or> dl_kind l = Addition) \<and> kept d (chosen selected_lines) l"
  have "map head_line (filter ?Q (ordered_render_groups h selected_lines d)) = filter ?P (h_lines h)"
  proof (rule view_lines [OF assms, of Deletion])
    show "map head_line (filter ?Q (chosen_group selected_lines d g))
        = (if ?P (hd (lg_lines g)) then [hd (lg_lines g)] else [])" if "group_wf g" for g
      using that by (cases g rule: group_wf_cases; cases d; cases selected_lines) (auto simp: side_defs)
    show "filter ?Q (selected_group s d g) = []" if "lg_kind g = Deletion" for s g
      using that by (auto simp: side_defs)
  qed (auto dest: on_result_kinds simp: is_eof_marker_def kept_def)
  then show ?thesis
    by (simp add: new_side_def conj_commute)
qed

section \<open>Staging meets unstaging\<close>

text \<open>The result of a partial selection depends only on which changed lines it keeps.\<close>

definition run_lines :: "(diff_line \<Rightarrow> bool) \<Rightarrow> line_group list \<Rightarrow> diff_line list" where
  "run_lines P run =
     filter P (map (hd \<circ> lg_lines)
       (weave (filter (\<lambda>g. lg_kind g = Deletion) run) (filter (\<lambda>g. lg_kind g = Addition) run)))"

fun mixed_lines :: "(diff_line \<Rightarrow> bool) \<Rightarrow> line_group list \<Rightarrow> line_group list \<Rightarrow> diff_line list" where
  "mixed_lines P run [] = run_lines P run"
| "mixed_lines P run (g # gs) =
     (if lg_kind g = Context then run_lines P run @ hd (lg_lines g) # mixed_lines P [] gs
      else mixed_lines P (run @ [g]) gs)"

lemma result_of_groups:
  assumes "\<forall>g\<in>set gs. dl_kind (hd (lg_lines g)) = lg_kind g \<and> (lg_kind g = Addition \<or> lg_kind g = Deletion)"
  shows "map head_line (filter (on_result d) (concat (map (selected_group s d) gs)))
    = filter (kept d (line_selected s)) (map (hd \<circ> lg_lines) gs)"
  using assms by (induction gs) (cases d; auto simp: side_defs split: if_splits)+

lemma result_of_run:
  assumes "\<forall>g\<in>set run. group_wf g"
  shows "map head_line (filter (on_result d) (push_selected_change_run rendered run s d))
    = map head_line (filter (on_result d) rendered) @ run_lines (kept d (line_selected s)) run"
proof -
  let ?w = "weave (filter (\<lambda>g. lg_kind g = Deletion) run) (filter (\<lambda>g. lg_kind g = Addition) run)"
  have "\<forall>g\<in>set ?w. dl_kind (hd (lg_lines g)) = lg_kind g \<and> (lg_kind g = Addition \<or> lg_kind g = Deletion)"
    using assms by (auto simp: group_wf_def)
  from result_of_groups [OF this] show ?thesis
    by (simp add: push_selected_change_run_eq run_lines_def)
qed

lemma result_of_resolve_loop:
  assumes "list_all group_wf gs" "\<forall>g\<in>set run. group_wf g"
  shows "map head_line (filter (on_result d) (resolve_loop s d rendered run gs))
    = map head_line (filter (on_result d) rendered) @ mixed_lines (kept d (line_selected s)) run gs"
  using assms
proof (induction gs arbitrary: rendered run)
  case (Cons g gs)
  show ?case
  proof (cases "lg_kind g = Context")
    case True
    then have "on_result d (unchanged_group g)" "head_line (unchanged_group g) = hd (lg_lines g)"
      by (simp_all add: side_defs)
    with True Cons.IH [of "[]"] Cons.prems show ?thesis
      by (simp add: result_of_run)
  next
    case False
    with Cons.IH [of "run @ [g]" rendered] Cons.prems show ?thesis
      by auto
  qed
qed (simp add: result_of_run)

lemma result_lines_selected:
  assumes "hunk_wf (h_lines h)"
  shows "result_lines d (ordered_render_groups h (Some s) d)
    = mixed_lines (kept d (line_selected s)) [] (line_groups (h_lines h))"
proof -
  have "filter (on_result d) (ordered_render_groups h (Some s) d)
      = filter (on_result d) (resolve_loop s d [] [] (line_groups (h_lines h)))"
  proof (cases d)
    case Reverse
    then have "\<forall>g. on_result d g \<longrightarrow> rg_kind g \<noteq> Addition"
      by (auto dest: on_result_kinds)
    then show ?thesis
      using reverse_loop_filter [of "[]" "resolve_loop s d [] [] (line_groups (h_lines h))" "on_result d" "[]"]
      by (simp add: ordered_render_groups_def resolve_render_groups_def Reverse)
  qed (simp add: ordered_render_groups_def resolve_render_groups_def)
  with result_of_resolve_loop [OF line_groups_wf [OF assms], of "[]" d s "[]"] show ?thesis
    by (simp add: result_lines_def)
qed

lemma run_lines_cong:
  "(\<And>g. g \<in> set run \<Longrightarrow> P (hd (lg_lines g)) = Q (hd (lg_lines g))) \<Longrightarrow> run_lines P run = run_lines Q run"
  unfolding run_lines_def by (rule filter_cong) auto

lemma mixed_lines_cong:
  "(\<And>g. g \<in> set run \<union> set gs \<Longrightarrow> P (hd (lg_lines g)) = Q (hd (lg_lines g))) \<Longrightarrow>
   mixed_lines P run gs = mixed_lines Q run gs"
proof (induction gs arbitrary: run)
  case (Cons g gs)
  from Cons.prems have "run_lines P run = run_lines Q run"
    by (intro run_lines_cong) auto
  with Cons.IH [of "[]"] Cons.IH [of "run @ [g]"] Cons.prems show ?case
    by auto
qed (auto intro: run_lines_cong)

lemma head_of_group_in: "g \<in> set (line_groups lines) \<Longrightarrow> hd (lg_lines g) \<in> set lines"
proof (induction lines rule: line_groups.induct)
  case (2 line lines)
  then show ?case
    using set_dropWhileD by fastforce
qed simp

section \<open>Where the lines of a result stand\<close>

text \<open>
  The lines of a hunk with every replaced line next to its replacement: within a run of changes the
  first deletion stands before the first addition, the second deletion before the second addition,
  and so on, and what is left of the longer side follows. Deletions keep their order, and so do
  additions.
\<close>

fun in_place :: "diff_line list \<Rightarrow> diff_line list \<Rightarrow> diff_line list \<Rightarrow> diff_line list" where
  "in_place deleted added [] = weave deleted added"
| "in_place deleted added (l # lines) =
     (case dl_kind l of
        Context \<Rightarrow> weave deleted added @ l # in_place [] [] lines
      | Deletion \<Rightarrow> in_place (deleted @ [l]) added lines
      | Addition \<Rightarrow> in_place deleted (added @ [l]) lines
      | _ \<Rightarrow> in_place deleted added lines)"

lemma map_weave: "map f (weave as bs) = weave (map f as) (map f bs)"
  by (induction as bs rule: weave.induct) simp_all

lemma in_place_markers:
  "in_place ds as (filter (\<lambda>l. \<not> is_eof_marker (dl_kind l)) lines) = in_place ds as lines"
  by (induction ds as lines rule: in_place.induct)
     (auto simp: is_eof_marker_def split: diff_line_kind.splits)

lemma mixed_lines_in_place:
  assumes "list_all group_wf gs" "\<And>l. dl_kind l = Context \<Longrightarrow> P l"
  shows "mixed_lines P run gs
    = filter P (in_place (map (hd \<circ> lg_lines) (filter (\<lambda>g. lg_kind g = Deletion) run))
                  (map (hd \<circ> lg_lines) (filter (\<lambda>g. lg_kind g = Addition) run))
                  (map (hd \<circ> lg_lines) gs))"
  using assms(1)
proof (induction gs arbitrary: run)
  case (Cons g gs)
  then have "group_wf g"
    by simp
  then show ?case
  proof (cases g rule: group_wf_cases)
    case context_line
    with Cons.IH [of "[]"] Cons.prems assms(2) show ?thesis
      by (simp add: run_lines_def map_weave comp_def)
  next
    case addition
    with Cons.IH [of "run @ [g]"] Cons.prems show ?thesis
      by simp
  next
    case deletion
    with Cons.IH [of "run @ [g]"] Cons.prems show ?thesis
      by simp
  qed
qed (simp add: run_lines_def map_weave)

lemma in_place_one_kind:
  assumes "\<And>l. P l \<Longrightarrow> dl_kind l = Context \<or> dl_kind l = K" "K = Addition \<or> K = Deletion"
    and "\<forall>l\<in>set ds. dl_kind l = Deletion" "\<forall>l\<in>set as. dl_kind l = Addition"
  shows "filter P (in_place ds as lines) = filter P ds @ filter P as @ filter P lines"
proof -
  have one: "filter P ds = [] \<or> filter P as = []"
    if "\<forall>l\<in>set ds. dl_kind l = Deletion" "\<forall>l\<in>set as. dl_kind l = Addition" for ds as
    using that assms(1,2) by (fastforce simp: filter_empty_conv)
  have woven: "filter P (weave ds as) = filter P ds @ filter P as"
    if "\<forall>l\<in>set ds. dl_kind l = Deletion" "\<forall>l\<in>set as. dl_kind l = Addition" for ds as
    using one [OF that] filter_weave_left [of as P ds] filter_weave_right [of ds P as]
    by (auto simp: filter_empty_conv)
  show ?thesis
    using assms(3,4)
  proof (induction ds as lines rule: in_place.induct)
    case (2 ds as l lines)
    show ?case
    proof (cases "dl_kind l")
      case Context
      with 2 show ?thesis
        by (simp add: woven)
    next
      case Deletion
      with 2 one [of "[l]" as] show ?thesis
        by auto
    next
      case Addition
      with 2 show ?thesis
        by auto
    qed (use 2 assms(1) [of l] assms(2) in auto)
  qed (simp add: woven)
qed

lemma set_reverse_loop: "set (reverse_loop ordered run gs) = set ordered \<union> set run \<union> set gs"
  by (induction ordered run gs rule: reverse_loop.induct) (auto simp: drain_reversed_run_def)

lemma kept_all:
  "kept d (\<lambda>_. True) l \<Longrightarrow>
   dl_kind l = Context \<or> dl_kind l = (if d = Forward then Addition else Deletion)"
  by (cases d) (auto simp: kept_def split: diff_line_kind.splits)

lemma result_lines_whole:
  assumes "hunk_wf (h_lines h)"
  shows "result_lines d (ordered_render_groups h None d)
    = filter (kept d (\<lambda>_. True)) (in_place [] [] (h_lines h))"
proof -
  let ?K = "if d = Forward then Deletion else Addition"
  let ?gs = "ordered_render_groups h None d"
  have "rg_kind g = rg_original_kind g" if "g \<in> set ?gs" for g
    using that
    by (cases d) (auto simp: ordered_render_groups_def resolve_render_groups_def set_reverse_loop
        unchanged_group_def)
  then have "on_result d g \<longleftrightarrow> on_result d g \<and> rg_original_kind g \<noteq> ?K" if "g \<in> set ?gs" for g
    using that on_result_kinds [of d g] by (cases d) auto
  then have "filter (on_result d) ?gs = filter (\<lambda>g. on_result d g \<and> rg_original_kind g \<noteq> ?K) ?gs"
    by (intro filter_cong) auto
  then have "result_lines d ?gs
      = filter (kept d (\<lambda>_. True)) ((if d = Forward then new_side else old_side) (h_lines h))"
    using result_lines_new [OF assms, of d None] result_lines_old [OF assms, of d None]
    by (cases d) (simp_all add: result_lines_def chosen_def [abs_def])
  also have "\<dots> = filter (kept d (\<lambda>_. True)) (h_lines h)"
    by (cases d) (auto simp: new_side_def old_side_def kept_def intro!: filter_cong
        split: diff_line_kind.splits)
  also have "\<dots> = filter (kept d (\<lambda>_. True)) (in_place [] [] (h_lines h))"
    by (subst in_place_one_kind [OF kept_all]) simp_all
  finally show ?thesis .
qed

lemma result_lines_in_place:
  assumes "hunk_wf (h_lines h)"
  shows "result_lines d (ordered_render_groups h selected_lines d)
    = filter (kept d (chosen selected_lines)) (in_place [] [] (h_lines h))"
proof (cases selected_lines)
  case None
  with result_lines_whole [OF assms] show ?thesis
    by (simp add: chosen_def [abs_def])
next
  case (Some s)
  have "map (hd \<circ> lg_lines) (line_groups (h_lines h)) = filter (\<lambda>l. \<not> is_eof_marker (dl_kind l)) (h_lines h)"
  proof -
    have "\<forall>l\<in>set (map (hd \<circ> lg_lines) (line_groups (h_lines h))). \<not> is_eof_marker (dl_kind l)"
      using line_groups_wf [OF assms] by (auto simp: list_all_iff group_wf_def is_eof_marker_def)
    then have "filter (\<lambda>l. \<not> is_eof_marker (dl_kind l)) (map (hd \<circ> lg_lines) (line_groups (h_lines h)))
        = map (hd \<circ> lg_lines) (line_groups (h_lines h))"
      by (intro filter_True) auto
    then show ?thesis
      using line_groups_heads [of "\<lambda>l. \<not> is_eof_marker (dl_kind l)" "h_lines h"] by simp
  qed
  then show ?thesis
    using mixed_lines_in_place [OF line_groups_wf [OF assms], of "kept d (line_selected s)" "[]"]
    by (simp add: Some result_lines_selected [OF assms] chosen_def [abs_def] in_place_markers kept_def)
qed

section \<open>Header counts\<close>

lemma count_groups:
  "unat (fst (fold (count_group d) gs c)) = min (unat (fst c) + length (source_lines d gs)) (2 ^ 32 - 1)
   \<and> unat (snd (fold (count_group d) gs c)) = min (unat (snd c) + length (result_lines d gs)) (2 ^ 32 - 1)"
proof (induction gs arbitrary: c)
  case Nil
  have "unat w \<le> 2 ^ 32 - 1" for w :: u32
    using unsigned_less [of w, where ?'a = nat] by simp
  then show ?case
    by (simp add: source_lines_def result_lines_def min_def)
next
  case (Cons g gs)
  show ?case
    using Cons.IH [of "count_group d g c"]
    by (cases d; cases "rg_kind g")
       (auto simp: count_group_def source_lines_def result_lines_def on_source_def on_result_def
          occupied_sides_def unat_saturating_add)
qed

section \<open>End-of-file markers\<close>

definition unterminated :: "diff_line \<Rightarrow> bool" where
  "unterminated l \<longleftrightarrow> dl_content l = [] \<or> last (dl_content l) \<noteq> CHR 0x0A"

text \<open>
  What libgit2 emits: a line without a final newline is followed by the marker for its sides.
\<close>

fun marker_of :: "diff_line_kind \<Rightarrow> diff_line_kind" where
  "marker_of Addition = NewEofNoNewline"
| "marker_of Deletion = OldEofNoNewline"
| "marker_of kind = BothEofNoNewline"

definition marked :: "diff_line list \<Rightarrow> bool" where
  "marked lines \<longleftrightarrow>
     (unterminated (hd lines) \<longrightarrow> list_ex (\<lambda>m. dl_kind m = marker_of (dl_kind (hd lines))) (tl lines))"

definition hunk_marked :: "diff_line list \<Rightarrow> bool" where
  "hunk_marked lines \<longleftrightarrow> list_all (\<lambda>g. marked (lg_lines g)) (line_groups lines)"

definition render_wf :: "render_line_group \<Rightarrow> bool" where
  "render_wf r \<longleftrightarrow>
     rg_lines r \<noteq> [] \<and> marked (rg_lines r) \<and> dl_kind (hd (rg_lines r)) = rg_original_kind r
     \<and> rg_original_kind r \<in> {Context, Addition, Deletion}
     \<and> rg_kind r \<in> {rg_original_kind r, Context}"

lemma selected_group_wf:
  assumes "group_wf g" "marked (lg_lines g)" "r \<in> set (selected_group s d g) \<or> r = unchanged_group g"
  shows "render_wf r"
proof -
  have "rg_lines r = lg_lines g" "rg_original_kind r = lg_kind g"
    "rg_kind r = lg_kind g \<or> rg_kind r = Context"
    using assms(1,3) by (cases g rule: group_wf_cases;
        auto simp: selected_group_def unchanged_group_def selected_kind_if split: if_splits option.splits)+
  with assms(1,2) show ?thesis
    by (auto simp: group_wf_def render_wf_def)
qed

lemma push_run_wf:
  assumes "\<forall>r\<in>set rendered. render_wf r" "\<forall>g\<in>set run. group_wf g \<and> marked (lg_lines g)"
  shows "\<forall>r\<in>set (push_selected_change_run rendered run s d). render_wf r"
proof
  fix r assume "r \<in> set (push_selected_change_run rendered run s d)"
  then consider "r \<in> set rendered" | g where "g \<in> set run" "r \<in> set (selected_group s d g)"
    by (auto simp: push_selected_change_run_eq)
  then show "render_wf r"
    using assms selected_group_wf [of _ r s d] by cases blast+
qed

lemma resolve_loop_wf:
  assumes "\<forall>r\<in>set rendered. render_wf r" "\<forall>g\<in>set (run @ gs). group_wf g \<and> marked (lg_lines g)"
  shows "\<forall>r\<in>set (resolve_loop s d rendered run gs). render_wf r"
  using assms
proof (induction gs arbitrary: rendered run)
  case Nil
  then show ?case
    by (simp add: push_run_wf)
next
  case (Cons g gs)
  show ?case
  proof (cases "lg_kind g = Context")
    case True
    have "\<forall>r\<in>set (push_selected_change_run rendered run s d @ [unchanged_group g]). render_wf r"
      using push_run_wf [OF Cons.prems(1), of run s d] Cons.prems(2) selected_group_wf by auto
    with True Cons.IH [OF this, of "[]"] Cons.prems show ?thesis
      by simp
  next
    case False
    with Cons.IH [of rendered "run @ [g]"] Cons.prems show ?thesis
      by simp
  qed
qed

lemma ordered_render_groups_wf:
  assumes "hunk_wf (h_lines h)" "hunk_marked (h_lines h)"
    and "r \<in> set (ordered_render_groups h selected_lines d)"
  shows "render_wf r"
proof -
  have gs: "\<forall>g\<in>set (line_groups (h_lines h)). group_wf g \<and> marked (lg_lines g)"
    using line_groups_wf [OF assms(1)] assms(2) by (auto simp: list_all_iff hunk_marked_def)
  have "r \<in> set (resolve_render_groups h selected_lines d)"
    using assms(3) by (cases d) (auto simp: ordered_render_groups_def set_reverse_loop)
  then show ?thesis
    using gs resolve_loop_wf [of "[]" "[]" "line_groups (h_lines h)"] selected_group_wf
    by (cases selected_lines) (auto simp: resolve_render_groups_def)
qed

definition sided :: "bool \<Rightarrow> direction \<Rightarrow> render_line_group \<Rightarrow> bool" where
  "sided on_source_side d g = (if on_source_side then on_source d g else on_result d g)"

lemma unterminated_strands:
  assumes "render_wf g" "unterminated (head_line g)" "sided src d g" "list_ex (sided src d) later"
  shows "strands d g later"
proof -
  obtain i m where m: "0 < i" "(i, m) \<in> set (enumerate 0 (rg_lines g))"
    "dl_kind m = marker_of (rg_original_kind g)"
  proof -
    from assms(1,2) obtain m where m: "m \<in> set (tl (rg_lines g))" "dl_kind m = marker_of (rg_original_kind g)"
      by (auto simp: render_wf_def marked_def head_line_def list_ex_iff)
    then obtain j where "j < length (tl (rg_lines g))" "tl (rg_lines g) ! j = m"
      by (auto simp: in_set_conv_nth)
    then have "(Suc j, m) \<in> set (enumerate 0 (rg_lines g))"
      by (auto simp: in_set_enumerate_eq nth_tl)
    with m(2) that show ?thesis
      by blast
  qed
  have "is_eof_marker (reversed_kind (emitted_line_kind g i m) d)
      \<and> (if src then fst else snd) (marker_sides (reversed_kind (emitted_line_kind g i m) d))"
    using assms(1,3) m(1,3)
    by (cases d; cases "rg_kind g"; cases src)
       (auto simp: render_wf_def sided_def on_source_def on_result_def emitted_line_kind_def
          is_eof_marker_def marker_sides_def)
  with m(2) assms(4) show ?thesis
    unfolding strands_def list_ex_iff sided_def on_source_def on_result_def
    by (intro bexI [of _ "(i, m)"]) (auto simp: Let_def case_prod_unfold split: if_splits)
qed

lemma accepted_sides_terminated:
  assumes "\<not> any_stranded d gs" "\<forall>g\<in>set gs. render_wf g"
  shows "\<forall>l\<in>set (butlast (map head_line (filter (sided src d) gs))). \<not> unterminated l"
  using assms
proof (induction gs)
  case (Cons g gs)
  show ?case
  proof (cases "sided src d g \<and> filter (sided src d) gs \<noteq> []")
    case True
    then have "list_ex (sided src d) gs"
      by (auto simp: list_ex_iff filter_empty_conv)
    with True Cons.prems unterminated_strands [of g src d gs] have "\<not> unterminated (head_line g)"
      by auto
    with True Cons show ?thesis
      by simp
  next
    case False
    with Cons show ?thesis
      by auto
  qed
qed simp

end
