(* ===== verification/Git_Apply.thy ===== *)
theory Git_Apply
  imports Git_Patch_Properties
begin

text \<open>
  Applying the rendered hunks of one file. \<open>apply_in_turn\<close> is how the patch is consumed: each hunk
  replaces its source lines at the result position its header names, in the image the earlier
  hunks left. \<open>patched\<close> is the reference: every hunk's range of the original file replaced at
  once. The two agree for every batch the overlap check accepts.
\<close>

section \<open>Application\<close>

definition source_text :: "direction \<Rightarrow> rendered_hunk \<Rightarrow> string list" where
  "source_text d r = map dl_content (source_lines d (rh_groups r))"

definition result_text :: "direction \<Rightarrow> rendered_hunk \<Rightarrow> string list" where
  "result_text d r = map dl_content (result_lines d (rh_groups r))"

fun apply_in_turn ::
  "direction \<Rightarrow> string list \<Rightarrow> int \<Rightarrow> rendered_hunk list \<Rightarrow> string list option" where
  "apply_in_turn d img drift [] = Some img"
| "apply_in_turn d img drift (r # rs) =
     (let at = unat (result_start r drift) - 1; n = length (source_text d r)
      in if take n (drop at img) = source_text d r
         then apply_in_turn d (take at img @ result_text d r @ drop (at + n) img)
                (next_drift r drift) rs
         else None)"

fun patched :: "direction \<Rightarrow> string list \<Rightarrow> nat \<Rightarrow> rendered_hunk list \<Rightarrow> string list" where
  "patched d file cursor [] = drop cursor file"
| "patched d file cursor (r # rs) =
     (let at = unat (rh_source_start r) - 1
      in take (at - cursor) (drop cursor file) @ result_text d r
         @ patched d file (at + length (source_text d r)) rs)"

fun hunks_fit :: "direction \<Rightarrow> string list \<Rightarrow> nat \<Rightarrow> rendered_hunk list \<Rightarrow> bool" where
  "hunks_fit d file cursor [] = True"
| "hunks_fit d file cursor (r # rs) =
     (let n = length (source_text d r)
      in cursor < unat (rh_source_start r) \<and> 0 < n \<and> result_text d r \<noteq> []
         \<and> unat (rh_source_lines r) = n \<and> unat (rh_result_lines r) = length (result_text d r)
         \<and> take n (drop (unat (rh_source_start r) - 1) file) = source_text d r
         \<and> hunks_fit d file (unat (rh_source_start r) - 1 + n) rs)"

lemma result_start_eq:
  assumes "0 < unat (rh_result_lines r)" "int (unat (rh_source_start r)) + drift = int p" "0 < p" "p < 2 ^ 32"
  shows "unat (result_start r drift) = p"
proof -
  have "rh_result_lines r \<noteq> 0"
    using assms(1) by auto
  moreover have "uint (rh_source_start r) + drift = int p"
    using assms(2) by simp
  moreover have "unat (word_of_int (int p) :: u32) = p"
    using assms(4) by (simp add: unat_of_nat)
  ultimately show ?thesis
    using assms(3,4) by (simp add: result_start_def max_def)
qed

lemma take_eq_length: "take n (drop i xs) = ys \<Longrightarrow> length ys = n \<Longrightarrow> 0 < n \<Longrightarrow> i + n \<le> length xs"
  by auto

lemma apply_in_turn_patched:
  assumes "hunks_fit d file cursor rs" "cursor \<le> length file" "int (length before) = int cursor + drift"
    and "length before + length (drop cursor file) + sum_list (map (length \<circ> result_text d) rs) < 2 ^ 32"
  shows "apply_in_turn d (before @ drop cursor file) drift rs = Some (before @ patched d file cursor rs)"
  using assms
proof (induction rs arbitrary: cursor before drift)
  case (Cons r rs)
  define i where "i = unat (rh_source_start r) - 1"
  define n where "n = length (source_text d r)"
  from Cons.prems(1) have fit: "cursor \<le> i" "0 < n" "result_text d r \<noteq> []" "unat (rh_source_lines r) = n"
    "unat (rh_result_lines r) = length (result_text d r)" "take n (drop i file) = source_text d r"
    "hunks_fit d file (i + n) rs" "unat (rh_source_start r) = Suc i"
    by (auto simp: i_def n_def Let_def)
  have in_file: "i + n \<le> length file"
    using take_eq_length [OF fit(6)] fit(2) by (simp add: n_def)
  let ?p = "length before + (i - cursor)"
  have at: "unat (result_start r drift) = Suc ?p"
  proof (rule result_start_eq)
    show "0 < unat (rh_result_lines r)"
      using fit(3,5) by simp
    show "int (unat (rh_source_start r)) + drift = int (Suc ?p)"
      using fit(1,8) Cons.prems(3) by simp
    show "Suc ?p < 2 ^ 32"
      using Cons.prems(4) fit(1,2) in_file by simp
  qed simp
  let ?before = "before @ take (i - cursor) (drop cursor file) @ result_text d r"
  have "take ?p (before @ drop cursor file) = before @ take (i - cursor) (drop cursor file)"
    by simp
  moreover have "drop ?p (before @ drop cursor file) = drop i file"
    using fit(1) by (simp add: drop_drop)
  moreover have "drop (?p + n) (before @ drop cursor file) = drop (i + n) file"
    using fit(1) by (simp add: drop_drop)
  ultimately have step: "apply_in_turn d (before @ drop cursor file) drift (r # rs)
      = apply_in_turn d (?before @ drop (i + n) file) (next_drift r drift) rs"
    using fit(6) by (simp add: at Let_def flip: n_def)
  have len: "length ?before = length before + (i - cursor) + length (result_text d r)"
    using in_file fit(1) by simp
  have "uint (rh_source_lines r) = int n" "uint (rh_result_lines r) = int (length (result_text d r))"
    by (simp_all flip: fit(4,5))
  then have "int (length ?before) = int (i + n) + next_drift r drift"
    using len Cons.prems(3) fit(1) by (simp add: next_drift_def)
  moreover have "length ?before + length (drop (i + n) file) + sum_list (map (length \<circ> result_text d) rs) < 2 ^ 32"
    using len Cons.prems(4) in_file fit(1) by (simp add: comp_def)
  ultimately have "apply_in_turn d (?before @ drop (i + n) file) (next_drift r drift) rs
      = Some (?before @ patched d file (i + n) rs)"
    by (intro Cons.IH fit(7) in_file)
  then show ?case
    unfolding step by (simp add: Let_def fit(8) flip: n_def)
qed simp

section \<open>Accepted batches\<close>

definition hunk_start :: "direction \<Rightarrow> hunk \<Rightarrow> u32" where
  "hunk_start d h = (case d of Forward \<Rightarrow> h_old_start h | Reverse \<Rightarrow> h_new_start h)"

definition hunk_length :: "direction \<Rightarrow> hunk \<Rightarrow> u32" where
  "hunk_length d h = (case d of Forward \<Rightarrow> h_old_lines h | Reverse \<Rightarrow> h_new_lines h)"

text \<open>
  A hunk of a diff describes the file it is applied to: its lines on that side are where its
  header says, and there is at least one.
\<close>

definition describes :: "direction \<Rightarrow> string list \<Rightarrow> hunk \<Rightarrow> bool" where
  "describes d file h \<longleftrightarrow>
     hunk_wf (h_lines h) \<and> 0 < unat (hunk_start d h)
     \<and> unat (hunk_length d h) = length (side_of d (h_lines h)) \<and> side_of d (h_lines h) \<noteq> []
     \<and> take (length (side_of d (h_lines h))) (drop (unat (hunk_start d h) - 1) file)
       = map dl_content (side_of d (h_lines h))"

lemma sorted_wrt_insort:
  "(\<And>x y. R x y \<Longrightarrow> R y x) \<Longrightarrow> sorted_wrt R (x # xs) \<Longrightarrow> sorted_wrt R (insort_key f x xs)"
  by (induction xs) (auto simp: set_insort_key)

lemma sorted_wrt_sort_key:
  "(\<And>x y. R x y \<Longrightarrow> R y x) \<Longrightarrow> sorted_wrt R xs \<Longrightarrow> sorted_wrt R (sort_key f xs)"
proof (induction xs)
  case (Cons x xs)
  then have "sorted_wrt R (x # sort_key f xs)"
    by auto
  with Cons.prems(1) show ?case
    by (simp add: sorted_wrt_insort)
qed simp

abbreviation apart :: "prepared_hunk \<Rightarrow> prepared_hunk \<Rightarrow> bool" where
  "apart p q \<equiv> \<not> hunks_collide (ph_hunk p) (ph_hunk q)"

lemma not_any_collision: "\<not> any_collision ps \<longleftrightarrow> sorted_wrt apart ps"
  by (induction ps) (auto simp: list_ex_iff)

lemma apart_sym: "apart p q \<Longrightarrow> apart q p"
  by (auto simp: hunks_collide_def ranges_intersect_def)

lemma sort_hunks_props:
  "set (sort_hunks d ps) = set ps"
  "sorted_wrt apart ps \<Longrightarrow> sorted_wrt apart (sort_hunks d ps)"
  "sorted (map (\<lambda>p. unat (hunk_start d (ph_hunk p))) (sort_hunks d ps))"
proof -
  have "(fst \<circ> hunk_order d) = (\<lambda>p. unat (hunk_start d (ph_hunk p)))"
    by (cases d) (auto simp: hunk_order_def hunk_start_def fun_eq_iff)
  then show "sorted (map (\<lambda>p. unat (hunk_start d (ph_hunk p))) (sort_hunks d ps))"
    using sorted_sort_key [of "fst \<circ> hunk_order d"] by (simp add: sort_hunks_def)
qed (auto simp: sort_hunks_def apart_sym intro!: sorted_wrt_sort_key)

lemma disjoint_ranges:
  assumes "\<not> ranges_intersect a m b n" "unat a \<le> unat b" "unat b < 2 ^ 32 - 1"
    and "0 < unat m" "unat a + unat m < 2 ^ 32"
  shows "unat a + unat m \<le> unat b"
proof -
  have one: "1 \<le> unat (max n 1)" for n :: u32
    by (auto simp: max_def word_le_nat_alt word_less_nat_alt not_le)
  have "unat b < unat (saturating_add b (max n 1))"
    using assms(3) one [of n] by (simp add: unat_saturating_add)
  then have "a < saturating_add b (max n 1)"
    using assms(2) by (simp add: word_less_nat_alt)
  with assms(1) have "saturating_add a (max m 1) \<le> b"
    by (simp add: ranges_intersect_def not_less)
  moreover have "max m 1 = m"
    using assms(4) by (auto simp: max_def word_le_nat_alt word_unat_eq_iff)
  ultimately show ?thesis
    using assms(5) by (simp add: unat_saturating_add word_le_nat_alt)
qed

lemma plan_hunk_texts:
  assumes "hunk_wf (h_lines (ph_hunk p))"
  shows "source_text d (plan_hunk p d) = map dl_content (side_of d (h_lines (ph_hunk p)))"
    "rh_source_start (plan_hunk p d) = hunk_start d (ph_hunk p)"
    "unat (rh_source_lines (plan_hunk p d)) = min (length (source_text d (plan_hunk p d))) (2 ^ 32 - 1)"
    "unat (rh_result_lines (plan_hunk p d)) = min (length (result_text d (plan_hunk p d))) (2 ^ 32 - 1)"
  using count_groups [of d "rh_groups (plan_hunk p d)" "(0, 0)"]
  by (simp_all add: source_text_def result_text_def plan_hunk_def Let_def source_lines_plan [OF assms]
      hunk_start_def)

lemma planned_hunks_fit:
  assumes "sorted (map (\<lambda>p. unat (hunk_start d (ph_hunk p))) ps)" "sorted_wrt apart ps"
    and "\<forall>p\<in>set ps. describes d file (ph_hunk p) \<and> result_text d (plan_hunk p d) \<noteq> []
      \<and> length (result_text d (plan_hunk p d)) < 2 ^ 32"
    and "length file < 2 ^ 32 - 1" "\<forall>p\<in>set ps. cursor < unat (hunk_start d (ph_hunk p))"
  shows "hunks_fit d file cursor (map (\<lambda>p. plan_hunk p d) ps)"
  using assms
proof (induction ps arbitrary: cursor)
  case (Cons p ps)
  define n where "n = length (side_of d (h_lines (ph_hunk p)))"
  define i where "i = unat (hunk_start d (ph_hunk p)) - 1"
  from Cons.prems(3) have desc: "describes d file (ph_hunk p)"
    by simp
  then have wf: "hunk_wf (h_lines (ph_hunk p))" and n: "0 < n" "unat (hunk_length d (ph_hunk p)) = n"
    and sits: "take n (drop i file) = map dl_content (side_of d (h_lines (ph_hunk p)))"
    and start: "unat (hunk_start d (ph_hunk p)) = Suc i"
    by (auto simp: describes_def n_def i_def)
  have in_file: "i + n \<le> length file"
    using take_eq_length [OF sits] n by (simp add: n_def)
  have "i + n < unat (hunk_start d (ph_hunk q))" if "q \<in> set ps" for q
  proof -
    have q: "describes d file (ph_hunk q)" "apart p q" "Suc i \<le> unat (hunk_start d (ph_hunk q))"
      using Cons.prems(1,2,3) that start by auto
    then have "unat (hunk_start d (ph_hunk q)) \<le> length file"
      using take_eq_length [of "length (side_of d (h_lines (ph_hunk q)))"
          "unat (hunk_start d (ph_hunk q)) - 1" "file"]
      by (auto simp: describes_def Suc_le_eq simp flip: length_greater_0_conv)
    moreover have "\<not> ranges_intersect (hunk_start d (ph_hunk p)) (hunk_length d (ph_hunk p))
        (hunk_start d (ph_hunk q)) (hunk_length d (ph_hunk q))"
      using q(2) by (cases d) (auto simp: hunks_collide_def hunk_start_def hunk_length_def)
    ultimately show ?thesis
      using disjoint_ranges [of "hunk_start d (ph_hunk p)" "hunk_length d (ph_hunk p)"
          "hunk_start d (ph_hunk q)" "hunk_length d (ph_hunk q)"] q(3) start n
        in_file Cons.prems(4) by simp
  qed
  then have "hunks_fit d file (i + n) (map (\<lambda>p. plan_hunk p d) ps)"
    using Cons.prems by (intro Cons.IH) auto
  moreover have "length (source_text d (plan_hunk p d)) = n"
    by (simp add: plan_hunk_texts [OF wf] n_def)
  ultimately show ?case
    using Cons.prems(3,4,5) sits n in_file start plan_hunk_texts [OF wf, of d]
    by (simp add: Let_def i_def [symmetric] n_def [symmetric])
qed simp

lemma planned_file_applies:
  assumes "\<not> any_collision (pf_hunks pf)"
    and "\<forall>p\<in>set (pf_hunks pf). describes d file (ph_hunk p) \<and> result_text d (plan_hunk p d) \<noteq> []"
    and size: "length file + sum_list (map (length \<circ> result_text d) (plan_file pf d)) < 2 ^ 32 - 1"
  shows "apply_in_turn d file 0 (plan_file pf d) = Some (patched d file 0 (plan_file pf d))"
proof -
  let ?ps = "sort_hunks d (pf_hunks pf)"
  have "length (result_text d (plan_hunk p d)) \<le> sum_list (map (length \<circ> result_text d) (plan_file pf d))"
    if "p \<in> set (pf_hunks pf)" for p
    using that by (intro member_le_sum_list) (auto simp: plan_file_def sort_hunks_props(1))
  then have "hunks_fit d file 0 (map (\<lambda>p. plan_hunk p d) ?ps)"
    using assms(1,2) size
    by (intro planned_hunks_fit sort_hunks_props(2,3))
       (fastforce simp: not_any_collision sort_hunks_props(1) describes_def)+
  from apply_in_turn_patched [OF this, of "[]" 0] size show ?thesis
    by (simp add: plan_file_def)
qed

end
