(* ===== verification/Git_Selection.thy ===== *)
theory Git_Selection
  imports Git_Hunk
begin

text \<open>
  What revalidation lets through: prepared hunks come from the fresh diff and are named by a
  selection, every selection is represented, and a mutation reaches the repository only as one
  rendered patch that passed the check.
\<close>

section \<open>Fresh hunks\<close>

lemma find_Some_set: "find P xs = Some x \<Longrightarrow> x \<in> set xs \<and> P x"
  by (auto simp: find_Some_iff)

lemma compute_contexts_Inr:
  "compute_contexts compute cancelled n paths contexts = Inr current \<Longrightarrow> (c, files) \<in> set current \<Longrightarrow>
   compute (DiffOptions_with_paths paths (DiffOptions_with_context_lines c DiffOptions_unbounded))
   = Inr files"
  by (induction contexts arbitrary: n current) (auto simp: result_simps split: if_splits)

lemma find_file_Some:
  "find_file current s = Some f \<Longrightarrow>
   fd_old_path f = hs_old_path s \<and> fd_new_path f = hs_new_path s
   \<and> (\<exists>files. (hs_context_lines s, files) \<in> set current \<and> f \<in> set files)"
  by (auto simp: find_file_def bind_eq_Some_conv dest!: find_Some_set)

lemma revalidate_Inr:
  assumes "revalidate current t s = Inr (f, hunk)"
  shows "find_file current s = Some f" "fd_old_blob_id f = hs_old_blob_id s"
    "fd_new_blob_id f = hs_new_blob_id s" "refuse_unsupported f t = Inr ()"
    "hunk \<in> set (fd_hunks f)" "coordinates_match s hunk"
  using assms
  by (auto simp: revalidate_def Let_def result_simps split: option.splits if_splits dest!: find_Some_set)

text \<open>A fresh hunk: it stands in the diff computed for the selection's own context setting.\<close>

definition fresh_for ::
  "(diff_options \<Rightarrow> git_error + file_diff list) \<Rightarrow> string list \<Rightarrow> 'a hunk_selection_scheme \<Rightarrow>
   file_diff \<Rightarrow> hunk \<Rightarrow> bool" where
  "fresh_for compute paths s f hunk \<longleftrightarrow>
     (\<exists>files. compute (DiffOptions_with_paths paths
                 (DiffOptions_with_context_lines (hs_context_lines s) DiffOptions_unbounded)) = Inr files
        \<and> f \<in> set files)
     \<and> fd_old_path f = hs_old_path s \<and> fd_new_path f = hs_new_path s
     \<and> fd_old_blob_id f = hs_old_blob_id s \<and> fd_new_blob_id f = hs_new_blob_id s
     \<and> hunk \<in> set (fd_hunks f) \<and> coordinates_match s hunk"

lemma revalidate_fresh:
  assumes "compute_contexts compute cancelled n paths contexts = Inr current"
    and "revalidate current t s = Inr (f, hunk)"
  shows "fresh_for compute paths s f hunk \<and> refuse_unsupported f t = Inr ()"
  using revalidate_Inr [OF assms(2)] find_file_Some [of current s f]
    compute_contexts_Inr [OF assms(1), of "hs_context_lines s"]
  by (auto simp: fresh_for_def)

section \<open>The prepared batch\<close>

lemma same_file_refl [simp]: "same_file f f"
  by (simp add: same_file_def)

lemma upsert_file_elem:
  "pf \<in> set (upsert_file f push prepared) \<Longrightarrow>
   pf \<in> set prepared
   \<or> same_file (pf_file pf) f
     \<and> (pf_hunks pf = push [] \<or> (\<exists>q\<in>set prepared. pf_file q = pf_file pf \<and> pf_hunks pf = push (pf_hunks q)))"
  by (induction f push prepared rule: upsert_file.induct) (auto split: if_splits)

lemma upsert_file_here:
  "\<exists>pf\<in>set (upsert_file f push prepared). same_file (pf_file pf) f \<and> (\<exists>hs. pf_hunks pf = push hs)"
  by (induction f push prepared rule: upsert_file.induct) auto

lemma upsert_file_keeps:
  "pf \<in> set prepared \<Longrightarrow>
   \<exists>q\<in>set (upsert_file f push prepared). pf_file q = pf_file pf
     \<and> (pf_hunks q = pf_hunks pf \<or> pf_hunks q = push (pf_hunks pf))"
  by (induction f push prepared rule: upsert_file.induct) (auto split: if_splits)

text \<open>
  \<open>origin\<close> says of every prepared hunk where it comes from, \<open>represented\<close> that a revalidated hunk
  is in the batch. Both are kept by every push that adds only its own hunk.
\<close>

definition all_hunks :: "(file_diff \<Rightarrow> prepared_hunk \<Rightarrow> bool) \<Rightarrow> prepared_file list \<Rightarrow> bool" where
  "all_hunks P prepared \<longleftrightarrow> (\<forall>pf\<in>set prepared. \<forall>p\<in>set (pf_hunks pf). P (pf_file pf) p)"

definition represented :: "prepared_file list \<Rightarrow> file_diff \<Rightarrow> (prepared_hunk \<Rightarrow> bool) \<Rightarrow> bool" where
  "represented prepared f Q \<longleftrightarrow>
     (\<exists>pf\<in>set prepared. same_file (pf_file pf) f \<and> (\<exists>p\<in>set (pf_hunks pf). Q p))"

lemma all_hunks_upsert:
  assumes "all_hunks P prepared"
    and "\<And>g hs p. same_file g f \<Longrightarrow> \<forall>q\<in>set hs. P g q \<Longrightarrow> p \<in> set (push hs) \<Longrightarrow> P g p"
  shows "all_hunks P (upsert_file f push prepared)"
  unfolding all_hunks_def
proof (intro ballI)
  fix pf p assume "pf \<in> set (upsert_file f push prepared)" "p \<in> set (pf_hunks pf)"
  with upsert_file_elem [of pf f push prepared] assms(1) assms(2) [of "pf_file pf"] show "P (pf_file pf) p"
    unfolding all_hunks_def by (metis empty_iff empty_set)
qed

lemma represented_upsert:
  assumes "represented prepared g Q" "\<And>hs. \<exists>q\<in>set hs. Q q \<Longrightarrow> \<exists>q\<in>set (push hs). Q q"
  shows "represented (upsert_file f push prepared) g Q"
proof -
  from assms(1) obtain pf where pf: "pf \<in> set prepared" "same_file (pf_file pf) g" "\<exists>p\<in>set (pf_hunks pf). Q p"
    by (auto simp: represented_def)
  from upsert_file_keeps [OF pf(1), of f push] pf(2,3) assms(2) show ?thesis
    unfolding represented_def by metis
qed

lemma represented_pushed:
  assumes "\<And>hs. \<exists>q\<in>set (push hs). Q q"
  shows "represented (upsert_file f push prepared) f Q"
  using upsert_file_here [of f push prepared] assms unfolding represented_def by metis

lemma push_whole_elem:
  "p \<in> set (push_whole hunk hs) \<Longrightarrow> p \<in> set hs \<or> p = \<lparr>ph_hunk = hunk, ph_selected_lines = None\<rparr>"
  by (auto simp: push_whole_def split: if_splits)

lemma push_whole_here: "\<exists>q\<in>set (push_whole hunk hs). ph_hunk q = hunk"
  by (auto simp: push_whole_def list_ex_iff)

lemma push_whole_keeps: "set hs \<subseteq> set (push_whole hunk hs)"
  by (auto simp: push_whole_def)

lemma prepare_selections_sound:
  assumes "prepare_selections current t cancelled n selections prepared = Inr result"
    and "all_hunks P prepared"
    and "\<And>s f hunk g. s \<in> set selections \<Longrightarrow> revalidate current t s = Inr (f, hunk) \<Longrightarrow> same_file g f \<Longrightarrow>
      P g \<lparr>ph_hunk = hunk, ph_selected_lines = None\<rparr>"
  shows "all_hunks P result"
  using assms
proof (induction selections arbitrary: n prepared)
  case (Cons s selections)
  then obtain f hunk where r: "revalidate current t s = Inr (f, hunk)"
    and rest: "prepare_selections current t cancelled (Suc n) selections
      (upsert_file f (push_whole hunk) prepared) = Inr result"
    by (auto simp: result_simps split: if_splits)
  have "all_hunks P (upsert_file f (push_whole hunk) prepared)"
    using Cons.prems(3) [OF _ r] by (intro all_hunks_upsert [OF Cons.prems(2)]) (auto dest!: push_whole_elem)
  then show ?case
    using Cons.prems(3) by (intro Cons.IH [OF rest]) auto
qed simp

lemma prepare_selections_keeps:
  "prepare_selections current t cancelled n selections prepared = Inr result \<Longrightarrow>
   represented prepared f (\<lambda>p. ph_hunk p = hunk) \<Longrightarrow> represented result f (\<lambda>p. ph_hunk p = hunk)"
proof (induction selections arbitrary: n prepared)
  case (Cons s selections)
  then show ?case
    using represented_upsert [of prepared f "\<lambda>p. ph_hunk p = hunk"] push_whole_keeps
    by (fastforce simp: result_simps split: if_splits)
qed simp

lemma prepare_selections_complete:
  assumes "prepare_selections current t cancelled n selections prepared = Inr result" "s \<in> set selections"
  shows "\<exists>f hunk. revalidate current t s = Inr (f, hunk) \<and> represented result f (\<lambda>p. ph_hunk p = hunk)"
  using assms
proof (induction selections arbitrary: n prepared)
  case (Cons r selections)
  then obtain f hunk where r: "revalidate current t r = Inr (f, hunk)"
    and rest: "prepare_selections current t cancelled (Suc n) selections
      (upsert_file f (push_whole hunk) prepared) = Inr result"
    by (auto simp: result_simps split: if_splits)
  have "represented (upsert_file f (push_whole hunk) prepared) f (\<lambda>p. ph_hunk p = hunk)"
    by (rule represented_pushed [OF push_whole_here])
  with prepare_selections_keeps [OF rest] r Cons.IH [OF rest] Cons.prems(2) show ?case
    by auto
qed simp

lemma refuse_overlaps_Inr: "refuse_overlaps prepared = Inr u \<Longrightarrow> \<forall>pf\<in>set prepared. \<not> any_collision (pf_hunks pf)"
  by (induction prepared) (auto split: if_splits)

section \<open>Prepared lines\<close>

text \<open>The coordinates that name a line, and a hunk whose chosen lines all satisfy a predicate.\<close>

definition coordinates_of :: "diff_line \<Rightarrow> line_coordinates" where
  "coordinates_of l = \<lparr>lc_old = dl_old_line_number l, lc_new = dl_new_line_number l\<rparr>"

definition lines_named :: "(hunk \<Rightarrow> line_coordinates \<Rightarrow> bool) \<Rightarrow> prepared_hunk \<Rightarrow> bool" where
  "lines_named N p \<longleftrightarrow>
     (\<exists>cs. ph_selected_lines p = Some cs \<and> cs \<noteq> [] \<and> distinct cs \<and> list_all (N (ph_hunk p)) cs)"

definition selects :: "hunk \<Rightarrow> line_coordinates \<Rightarrow> prepared_hunk \<Rightarrow> bool" where
  "selects hunk c p \<longleftrightarrow> ph_hunk p = hunk \<and> (\<exists>cs. ph_selected_lines p = Some cs \<and> c \<in> set cs)"

lemma push_line_named:
  "\<forall>q\<in>set hs. lines_named N q \<Longrightarrow> N hunk c \<Longrightarrow> \<forall>p\<in>set (push_line hunk c hs). lines_named N p"
  by (induction hunk c hs rule: push_line.induct) (auto simp: lines_named_def Let_def)

lemma push_line_here: "\<exists>p\<in>set (push_line hunk c hs). selects hunk c p"
  by (induction hunk c hs rule: push_line.induct) (auto simp: selects_def Let_def)

lemma push_line_keeps:
  "\<exists>p\<in>set hs. selects h d p \<Longrightarrow> \<exists>p\<in>set (push_line hunk c hs). selects h d p"
  by (induction hunk c hs rule: push_line.induct) (auto simp: selects_def Let_def)

lemma prepare_line_selections_step:
  assumes "prepare_line_selections current t cancelled n (s # selections) prepared = Inr result"
  obtains f hunk l where "revalidate current t s = Inr (f, hunk)"
    "l \<in> set (h_lines hunk)" "line_coordinates_match s l"
    "prepare_line_selections current t cancelled (Suc n) selections
      (upsert_file f (push_line hunk (coordinates_of l))
        prepared) = Inr result"
proof -
  from assms obtain f hunk where f: "revalidate current t s = Inr (f, hunk)"
    by (auto simp: result_simps split: if_splits)
  show thesis
  proof (cases "find (line_coordinates_match s) (h_lines hunk)")
    case None
    with assms f show thesis
      by (simp split: if_splits)
  next
    case (Some l)
    with assms f find_Some_set [OF Some] that [OF f, of l] show thesis
      by (simp add: coordinates_of_def split: if_splits)
  qed
qed

lemma prepare_line_selections_sound:
  assumes "prepare_line_selections current t cancelled n selections prepared = Inr result"
    and "all_hunks (\<lambda>g. lines_named (N g)) prepared"
    and "\<And>s f hunk l g. s \<in> set selections \<Longrightarrow> revalidate current t s = Inr (f, hunk) \<Longrightarrow>
      l \<in> set (h_lines hunk) \<Longrightarrow> line_coordinates_match s l \<Longrightarrow> same_file g f \<Longrightarrow>
      N g hunk (coordinates_of l)"
  shows "all_hunks (\<lambda>g. lines_named (N g)) result"
  using assms
proof (induction selections arbitrary: n prepared)
  case (Cons s selections)
  from Cons.prems(1) obtain f hunk l where r: "revalidate current t s = Inr (f, hunk)"
    and l: "l \<in> set (h_lines hunk)" "line_coordinates_match s l"
    and rest: "prepare_line_selections current t cancelled (Suc n) selections
      (upsert_file f (push_line hunk (coordinates_of l)) prepared) = Inr result"
    by (rule prepare_line_selections_step)
  have "all_hunks (\<lambda>g. lines_named (N g)) (upsert_file f (push_line hunk (coordinates_of l)) prepared)"
  proof (rule all_hunks_upsert [OF Cons.prems(2)])
    fix g hs p assume g: "same_file g f" "\<forall>q\<in>set hs. lines_named (N g) q"
      "p \<in> set (push_line hunk (coordinates_of l) hs)"
    have "N g hunk (coordinates_of l)"
      using Cons.prems(3) [OF _ r l g(1)] by simp
    from push_line_named [of hs "N g", OF g(2) this] g(3) show "lines_named (N g) p"
      by blast
  qed
  then show ?case
  proof (rule Cons.IH [OF rest])
    show "N g hunk (coordinates_of l)"
      if "q \<in> set selections" "revalidate current t q = Inr (f, hunk)" "l \<in> set (h_lines hunk)"
        "line_coordinates_match q l" "same_file g f" for q f hunk l g
      using Cons.prems(3) [of q f hunk l g] that by simp
  qed
qed simp

lemma prepare_line_selections_keeps:
  "prepare_line_selections current t cancelled n selections prepared = Inr result \<Longrightarrow>
   represented prepared f (selects hunk c) \<Longrightarrow> represented result f (selects hunk c)"
proof (induction selections arbitrary: n prepared)
  case (Cons s selections)
  from Cons.prems(1) obtain g h and l :: diff_line where
      "prepare_line_selections current t cancelled (Suc n) selections
        (upsert_file g (push_line h (coordinates_of l))
          prepared) = Inr result"
    by (rule prepare_line_selections_step) blast
  from Cons.IH [OF this represented_upsert [OF Cons.prems(2) push_line_keeps]] show ?case .
qed simp

lemma prepare_line_selections_complete:
  assumes "prepare_line_selections current t cancelled n selections prepared = Inr result"
    and "s \<in> set selections"
  shows "\<exists>f hunk l. revalidate current t s = Inr (f, hunk) \<and> l \<in> set (h_lines hunk)
    \<and> line_coordinates_match s l
    \<and> represented result f (selects hunk (coordinates_of l))"
  using assms
proof (induction selections arbitrary: n prepared)
  case (Cons r selections)
  from Cons.prems(1) obtain f hunk l where r: "revalidate current t r = Inr (f, hunk)"
    and l: "l \<in> set (h_lines hunk)" "line_coordinates_match r l"
    and rest: "prepare_line_selections current t cancelled (Suc n) selections
      (upsert_file f (push_line hunk (coordinates_of l))
        prepared) = Inr result"
    by (rule prepare_line_selections_step)
  note prepare_line_selections_keeps [OF rest represented_pushed [OF push_line_here]]
  with r l Cons.IH [OF rest] Cons.prems(2) show ?case
    by auto
qed simp

end
