(* ===== verification/Git_Hunk_Properties.thy ===== *)
theory Git_Hunk_Properties
  imports Git_Apply Git_Selection
begin

text \<open>
  The properties of hunk and line staging, unstaging and discarding, with a sample diff for the
  witnesses.
\<close>

section \<open>A sample\<close>

definition sample_line :: "diff_line_kind \<Rightarrow> u32 option \<Rightarrow> u32 option \<Rightarrow> string \<Rightarrow> diff_line" where
  "sample_line kind old new content =
     \<lparr>dl_kind = kind, dl_old_line_number = old, dl_new_line_number = new,
      dl_content = content @ newline, dl_paired_line_index = None, dl_intra_line_ranges = None\<rparr>"

definition sample_hunk :: hunk where
  "sample_hunk =
     \<lparr>h_old_start = 1, h_old_lines = 4, h_new_start = 1, h_new_lines = 4, h_header = '''',
      h_intra_line_degradation = None,
      h_lines =
        [sample_line Context (Some 1) (Some 1) ''one'', sample_line Deletion (Some 2) None ''two'',
         sample_line Deletion (Some 3) None ''three'', sample_line Addition None (Some 2) ''TWO'',
         sample_line Addition None (Some 3) ''THREE'', sample_line Context (Some 4) (Some 4) ''four'']\<rparr>"

definition sample_file_lines :: "string list" where
  "sample_file_lines = map (\<lambda>l. l @ newline) [''one'', ''two'', ''three'', ''four'']"

definition sample_two :: "line_coordinates list" where
  "sample_two = [\<lparr>lc_old = Some 2, lc_new = None\<rparr>, \<lparr>lc_old = None, lc_new = Some 2\<rparr>]"

definition sample_three :: "line_coordinates list" where
  "sample_three = [\<lparr>lc_old = Some 3, lc_new = None\<rparr>, \<lparr>lc_old = None, lc_new = Some 3\<rparr>]"

definition sample_prepared :: "line_coordinates list option \<Rightarrow> prepared_hunk" where
  "sample_prepared selected = \<lparr>ph_hunk = sample_hunk, ph_selected_lines = selected\<rparr>"

definition sample_diff :: file_diff where
  "sample_diff =
     \<lparr>fd_target = Unstaged, fd_change = Modified, fd_old_path = Some ''a.txt'',
      fd_new_path = Some ''a.txt'', fd_old_blob_id = ''1'', fd_new_blob_id = ''2'',
      fd_old_mode = 8, fd_new_mode = 8, fd_context_lines = 3,
      fd_whitespace = Whitespace_EXACT, fd_old_size = 19, fd_new_size = 19, fd_binary = False,
      fd_omission = None, fd_hunks = [sample_hunk]\<rparr>"

definition sample_prepared_file :: "line_coordinates list option \<Rightarrow> prepared_file" where
  "sample_prepared_file selected =
     \<lparr>pf_file = sample_diff, pf_hunks = [sample_prepared selected]\<rparr>"

lemma sample_hunk_wf: "hunk_wf (h_lines sample_hunk)"
  by code_simp

section \<open>Properties\<close>

text \<open>
  C9: Whatever lines are selected and in either direction, the source side of a planned hunk is
  exactly the side of the diff it is applied to, and its result side is that side with exactly the
  selected changes made, every line in its place: a retained deletion stands before the addition at
  its own position in the run of changes and after the additions at earlier positions, so a partial
  selection never reorders the file. Restricted to old lines the result is the old side without the
  deletions made, restricted to new lines the new side without the additions left out, each in order.
\<close>

theorem planned_hunk_sides:
  assumes "hunk_wf (h_lines (ph_hunk p))"
  shows "source_lines d (rh_groups (plan_hunk p d)) = side_of d (h_lines (ph_hunk p))
    \<and> result_lines d (rh_groups (plan_hunk p d))
      = filter (kept d (chosen (ph_selected_lines p))) (in_place [] [] (h_lines (ph_hunk p)))
    \<and> map head_line (filter (\<lambda>g. on_result d g \<and> rg_original_kind g \<noteq> Addition) (rh_groups (plan_hunk p d)))
      = filter (kept d (chosen (ph_selected_lines p))) (old_side (h_lines (ph_hunk p)))
    \<and> map head_line (filter (\<lambda>g. on_result d g \<and> rg_original_kind g \<noteq> Deletion) (rh_groups (plan_hunk p d)))
      = filter (kept d (chosen (ph_selected_lines p))) (new_side (h_lines (ph_hunk p)))"
  by (simp add: plan_hunk_def Let_def source_lines_plan [OF assms] result_lines_in_place [OF assms]
      result_lines_old [OF assms] result_lines_new [OF assms])

lemma planned_hunk_sides_witness:
  "source_lines Forward (rh_groups (plan_hunk (sample_prepared (Some sample_two)) Forward))
    = old_side (h_lines sample_hunk)
   \<and> map dl_content (result_lines Forward (rh_groups (plan_hunk (sample_prepared (Some sample_two)) Forward)))
    = map (\<lambda>l. l @ newline) [''one'', ''TWO'', ''three'', ''four'']"
proof -
  have "map dl_content (filter (kept Forward (chosen (Some sample_two))) (in_place [] [] (h_lines sample_hunk)))
      = map (\<lambda>l. l @ newline) [''one'', ''TWO'', ''three'', ''four'']"
    by code_simp
  then show ?thesis
    using planned_hunk_sides [of "sample_prepared (Some sample_two)" Forward] sample_hunk_wf
    by (simp add: sample_prepared_def side_of_def)
qed

text \<open>
  C17: Staging a set of changed lines gives exactly the text that unstaging all the other changed
  lines gives.
\<close>

theorem staging_meets_unstaging:
  assumes "hunk_wf (h_lines h)"
    and "\<forall>l\<in>set (h_lines h). dl_kind l \<in> {Addition, Deletion} \<longrightarrow>
      line_selected others l = (\<not> line_selected staged l)"
  shows "result_lines Forward
      (rh_groups (plan_hunk \<lparr>ph_hunk = h, ph_selected_lines = Some staged\<rparr> Forward))
    = result_lines Reverse
      (rh_groups (plan_hunk \<lparr>ph_hunk = h, ph_selected_lines = Some others\<rparr> Reverse))"
proof -
  have "kept Forward (line_selected staged) (hd (lg_lines g)) = kept Reverse (line_selected others) (hd (lg_lines g))"
    if "g \<in> set (line_groups (h_lines h))" for g
    using bspec [OF assms(2) head_of_group_in [OF that]]
    by (cases "dl_kind (hd (lg_lines g))") (auto simp: kept_def)
  then have "mixed_lines (kept Forward (line_selected staged)) [] (line_groups (h_lines h))
      = mixed_lines (kept Reverse (line_selected others)) [] (line_groups (h_lines h))"
    by (intro mixed_lines_cong) simp
  then show ?thesis
    by (simp add: plan_hunk_def Let_def result_lines_selected [OF assms(1)])
qed

lemma staging_meets_unstaging_witness:
  "result_lines Forward
     (rh_groups (plan_hunk \<lparr>ph_hunk = sample_hunk, ph_selected_lines = Some sample_two\<rparr> Forward))
   = result_lines Reverse
     (rh_groups (plan_hunk \<lparr>ph_hunk = sample_hunk, ph_selected_lines = Some sample_three\<rparr> Reverse))"
proof (rule staging_meets_unstaging [OF sample_hunk_wf])
  have "list_all (\<lambda>l. dl_kind l = Context \<or> line_selected sample_three l = (\<not> line_selected sample_two l))
    (h_lines sample_hunk)"
    by code_simp
  then show "\<forall>l\<in>set (h_lines sample_hunk). dl_kind l \<in> {Addition, Deletion} \<longrightarrow>
      line_selected sample_three l = (\<not> line_selected sample_two l)"
    by (auto simp: list_all_iff)
qed

text \<open>
  C8: In a batch that the overlap check accepts, the hunks of a file apply one after the other at
  the positions their headers name, each finding its source lines there, and give the file with
  every hunk's range replaced by its result. This holds for hunks that describe the file (the side
  the patch is applied to stands where the header says and has at least one line) and whose
  rendered result has at least one line; the result has fewer than \<open>2 ^ 32 - 1\<close> lines. A hunk
  with an empty side, which only a diff without context has, is outside the claim.
\<close>

theorem accepted_batch_applies:
  assumes "refuse_overlaps prepared = Inr ()" "pf \<in> set prepared"
    and "\<forall>p\<in>set (pf_hunks pf). describes d file (ph_hunk p) \<and> result_text d (plan_hunk p d) \<noteq> []"
    and "length file + sum_list (map (length \<circ> result_text d) (plan_file pf d)) < 2 ^ 32 - 1"
  shows "apply_in_turn d file 0 (plan_file pf d) = Some (patched d file 0 (plan_file pf d))"
  using refuse_overlaps_Inr [OF assms(1)] assms(2) by (intro planned_file_applies assms(3,4)) blast

lemma accepted_batch_applies_witness:
  "apply_in_turn Forward sample_file_lines 0 (plan_file (sample_prepared_file (Some sample_two)) Forward)
   = Some (map (\<lambda>l. l @ newline) [''one'', ''TWO'', ''three'', ''four''])"
proof -
  let ?pf = "sample_prepared_file (Some sample_two)"
  have "refuse_overlaps [?pf] = Inr ()" "describes Forward sample_file_lines sample_hunk"
    "result_text Forward (plan_hunk (sample_prepared (Some sample_two)) Forward) \<noteq> []"
    "length sample_file_lines + sum_list (map (length \<circ> result_text Forward) (plan_file ?pf Forward)) = 8"
    "patched Forward sample_file_lines 0 (plan_file ?pf Forward)
      = map (\<lambda>l. l @ newline) [''one'', ''TWO'', ''three'', ''four'']"
    by code_simp+
  with accepted_batch_applies [of "[?pf]" ?pf Forward sample_file_lines] show ?thesis
    by (simp add: sample_prepared_file_def sample_prepared_def)
qed

text \<open>
  When the check for stranded end-of-file markers passes, a line without a final newline is
  the last line of the patch on each side it stands on.
\<close>

theorem accepted_markers_end_their_side:
  assumes "refuse_stranded_eof_markers prepared (plan_file prepared d) d = Inr ()"
    and "\<forall>p\<in>set (pf_hunks prepared). hunk_wf (h_lines (ph_hunk p)) \<and> hunk_marked (h_lines (ph_hunk p))"
  shows "(\<forall>l\<in>set (butlast (source_lines d (concat (map rh_groups (plan_file prepared d))))). \<not> unterminated l)
    \<and> (\<forall>l\<in>set (butlast (result_lines d (concat (map rh_groups (plan_file prepared d))))). \<not> unterminated l)"
proof -
  let ?gs = "concat (map rh_groups (plan_file prepared d))"
  have "\<not> any_stranded d ?gs"
    using assms(1) by (simp add: refuse_stranded_eof_markers_def split: if_splits)
  moreover have "\<forall>g\<in>set ?gs. render_wf g"
    using assms(2) ordered_render_groups_wf
    by (auto simp: plan_file_def plan_hunk_def Let_def sort_hunks_props(1))
  ultimately have "\<forall>l\<in>set (butlast (map head_line (filter (sided src d) ?gs))). \<not> unterminated l" for src
    by (rule accepted_sides_terminated)
  from this [of True] this [of False] show ?thesis
    by (simp add: source_lines_def result_lines_def sided_def [abs_def])
qed

definition sample_unterminated :: hunk where
  "sample_unterminated = sample_hunk\<lparr>h_old_lines := 1, h_new_lines := 1, h_lines :=
     [(sample_line Deletion (Some 1) None [])\<lparr>dl_content := ''old''\<rparr>,
      sample_line OldEofNoNewline None None ''no newline'',
      (sample_line Addition None (Some 1) [])\<lparr>dl_content := ''new''\<rparr>,
      sample_line NewEofNoNewline None None ''no newline'']\<rparr>"

lemma accepted_markers_end_their_side_witness:
  "map dl_content (result_lines Forward (concat (map rh_groups (plan_file
     \<lparr>pf_file = sample_diff, pf_hunks = [\<lparr>ph_hunk = sample_unterminated, ph_selected_lines = None\<rparr>]\<rparr> Forward))))
     = [''new'']
   \<and> list_all (\<lambda>l. \<not> unterminated l) (butlast (result_lines Forward (concat (map rh_groups (plan_file
     \<lparr>pf_file = sample_diff, pf_hunks = [\<lparr>ph_hunk = sample_unterminated, ph_selected_lines = None\<rparr>]\<rparr> Forward)))))"
proof -
  let ?pf = "\<lparr>pf_file = sample_diff, pf_hunks = [\<lparr>ph_hunk = sample_unterminated, ph_selected_lines = None\<rparr>]\<rparr>"
  have "refuse_stranded_eof_markers ?pf (plan_file ?pf Forward) Forward = Inr ()"
    "hunk_wf (h_lines sample_unterminated)" "hunk_marked (h_lines sample_unterminated)"
    "map dl_content (result_lines Forward (concat (map rh_groups (plan_file ?pf Forward)))) = [''new'']"
    by code_simp+
  with accepted_markers_end_their_side [of ?pf Forward] show ?thesis
    by (simp add: list_all_iff)
qed

text \<open>
  What revalidation of whole hunks returns: every prepared hunk stands in the diff just
  computed and is the one a selection names by paths, blobs and coordinates; every selection is
  represented; the change kind is one a patch can express; and no two hunks of a file collide.
\<close>

theorem prepared_hunks_are_fresh:
  assumes "prepare compute cancelled selections paths t = Inr prepared"
  shows "(\<forall>pf\<in>set prepared. \<not> any_collision (pf_hunks pf) \<and>
      (\<forall>p\<in>set (pf_hunks pf). ph_selected_lines p = None \<and>
        (\<exists>s\<in>set selections. \<exists>f. fresh_for compute paths s f (ph_hunk p) \<and> same_file (pf_file pf) f
          \<and> refuse_unsupported f t = Inr ())))
    \<and> (\<forall>s\<in>set selections. \<exists>f hunk. fresh_for compute paths s f hunk
        \<and> represented prepared f (\<lambda>p. ph_hunk p = hunk))"
proof -
  obtain current where current: "compute_contexts compute cancelled 0 paths (context_settings selections) = Inr current"
    and prep: "prepare_selections current t cancelled (length (context_settings selections)) selections []
      = Inr prepared"
    and over: "refuse_overlaps prepared = Inr ()"
    using assms by (auto simp: prepare_def Let_def result_simps)
  note fresh = revalidate_fresh [OF current]
  have "all_hunks (\<lambda>g p. ph_selected_lines p = None \<and>
        (\<exists>s\<in>set selections. \<exists>f. fresh_for compute paths s f (ph_hunk p) \<and> same_file g f
          \<and> refuse_unsupported f t = Inr ())) prepared"
    by (rule prepare_selections_sound [OF prep]) (use fresh in \<open>fastforce simp: all_hunks_def\<close>)+
  moreover have "\<exists>f hunk. fresh_for compute paths s f hunk \<and> represented prepared f (\<lambda>p. ph_hunk p = hunk)"
    if "s \<in> set selections" for s
    using prepare_selections_complete [OF prep that] fresh by blast
  ultimately show ?thesis
    using refuse_overlaps_Inr [OF over] by (simp add: all_hunks_def)
qed

definition sample_compute :: "diff_options \<Rightarrow> git_error + file_diff list" where
  "sample_compute opts = Inr [sample_diff]"

lemma prepared_hunks_are_fresh_witness:
  "\<exists>f hunk. fresh_for sample_compute [''a.txt''] (HunkSelection_new sample_diff sample_hunk) f hunk
     \<and> represented [sample_prepared_file None] f (\<lambda>p. ph_hunk p = hunk)"
proof -
  have "prepare sample_compute (\<lambda>n. False) [HunkSelection_new sample_diff sample_hunk] [''a.txt''] Index
      = Inr [sample_prepared_file None]"
    by code_simp
  from prepared_hunks_are_fresh [OF this] show ?thesis
    by simp
qed

text \<open>
  C18: The same for lines: a prepared hunk carries a non-empty list of distinct coordinates, each of
  a changed line of the hunk that some selection names, by paths, blobs and coordinates of the hunk
  in the diff just computed and by the numbers of the line. No line is prepared that no selection
  names, and the line of every selection is prepared.
\<close>

theorem prepared_lines_are_fresh:
  assumes "prepare_lines compute cancelled selections paths t = Inr prepared"
  shows "(\<forall>pf\<in>set prepared. \<not> any_collision (pf_hunks pf) \<and>
      (\<forall>p\<in>set (pf_hunks pf). \<exists>cs. ph_selected_lines p = Some cs \<and> cs \<noteq> [] \<and> distinct cs
        \<and> (\<forall>c\<in>set cs. \<exists>s\<in>set selections. \<exists>f. \<exists>l\<in>set (h_lines (ph_hunk p)).
              fresh_for compute paths s f (ph_hunk p) \<and> same_file (pf_file pf) f
              \<and> refuse_unsupported f t = Inr ()
              \<and> line_coordinates_match s l \<and> c = coordinates_of l)))
    \<and> (\<forall>s\<in>set selections. \<exists>f hunk l. fresh_for compute paths s f hunk
        \<and> l \<in> set (h_lines hunk) \<and> line_coordinates_match s l
        \<and> represented prepared f (selects hunk (coordinates_of l)))"
proof -
  obtain current where current: "compute_contexts compute cancelled 0 paths (context_settings selections) = Inr current"
    and prep: "prepare_line_selections current t cancelled (length (context_settings selections)) selections []
      = Inr prepared"
    and over: "refuse_overlaps prepared = Inr ()"
    using assms by (auto simp: prepare_lines_def Let_def result_simps)
  note fresh = revalidate_fresh [OF current]
  define N where "N g hunk c \<longleftrightarrow> (\<exists>s\<in>set selections. \<exists>f. \<exists>l\<in>set (h_lines hunk).
      fresh_for compute paths s f hunk \<and> same_file g f \<and> refuse_unsupported f t = Inr ()
      \<and> line_coordinates_match s l \<and> c = coordinates_of l)" for g hunk c
  have "all_hunks (\<lambda>g. lines_named (N g)) prepared"
  proof (rule prepare_line_selections_sound [OF prep])
    show "N g hunk (coordinates_of l)"
      if "s \<in> set selections" "revalidate current t s = Inr (f, hunk)" "l \<in> set (h_lines hunk)"
        "line_coordinates_match s l" "same_file g f" for s f hunk l g
      unfolding N_def using that fresh [OF that(2)] by blast
  qed (simp add: all_hunks_def)
  then have "\<forall>pf\<in>set prepared. \<forall>p\<in>set (pf_hunks pf). \<exists>cs. ph_selected_lines p = Some cs \<and> cs \<noteq> []
      \<and> distinct cs \<and> (\<forall>c\<in>set cs. N (pf_file pf) (ph_hunk p) c)"
    unfolding all_hunks_def lines_named_def list_all_iff by blast
  moreover have "\<exists>f hunk l. fresh_for compute paths s f hunk
        \<and> l \<in> set (h_lines hunk) \<and> line_coordinates_match s l
        \<and> represented prepared f (selects hunk (coordinates_of l))"
    if "s \<in> set selections" for s
    using prepare_line_selections_complete [OF prep that] fresh by blast
  ultimately show ?thesis
    using refuse_overlaps_Inr [OF over] unfolding N_def by simp
qed

lemma prepared_lines_are_fresh_witness:
  "\<exists>f hunk l. fresh_for sample_compute [''a.txt'']
       (LineSelection_new sample_diff sample_hunk (sample_line Deletion (Some 2) None ''two'')) f hunk
     \<and> l \<in> set (h_lines hunk)"
proof -
  have "is_ok (prepare_lines sample_compute (\<lambda>n. False)
      [LineSelection_new sample_diff sample_hunk (sample_line Deletion (Some 2) None ''two'')] [''a.txt''] Index)"
    by code_simp
  then obtain prepared where "prepare_lines sample_compute (\<lambda>n. False)
      [LineSelection_new sample_diff sample_hunk (sample_line Deletion (Some 2) None ''two'')] [''a.txt''] Index
      = Inr prepared"
    by (auto simp: is_ok_iff)
  from prepared_lines_are_fresh [OF this] show ?thesis
    by auto
qed

text \<open>
  C19: Staging changes the repository only by applying one patch: the selections were all exact,
  the lock was held, the batch was revalidated, and its rendering passed the dry run.
\<close>

lemma refuse_whitespace_insensitive_Inr:
  "refuse_whitespace_insensitive selections = Inr u \<Longrightarrow>
   \<forall>s\<in>set selections. Whitespace_is_exact (hs_whitespace s)"
  by (induction selections) (auto split: if_splits)

lemma apply_patch_changes:
  assumes "apply_patch env prepared mode repo = (r, repo')" "repo' \<noteq> repo"
  shows "\<exists>patch. render_patch prepared (MutationMode_direction mode) = Inr patch
    \<and> ge_check env (MutationMode_apply_target mode) patch repo = Inr ()
    \<and> ge_apply env (MutationMode_apply_target mode) patch repo = (r, repo')"
  using assms
  by (auto simp: apply_patch_def Let_def result_simps res_bind_Inl_iff split: sum.splits)

lemma mutate_changes:
  assumes "mutate env cancelled selections mode repo = (outcome, repo')" "repo' \<noteq> repo"
  shows "\<exists>prepared r. prepare (ge_compute env (MutationMode_diff_target mode)) cancelled selections
      (selection_paths selections) (MutationMode_apply_target mode) = Inr prepared
    \<and> apply_patch env prepared mode repo = (r, repo')
    \<and> outcome = res_bind r (\<lambda>_. Inr (sum_list (map (length \<circ> pf_hunks) prepared)))"
  using assms
  by (auto simp: mutate_def Let_def result_simps split: sum.splits prod.splits if_splits)

theorem staging_writes_one_checked_patch:
  assumes "stage_hunks env lock cancelled selections repo = (outcome, repo')" "repo' \<noteq> repo"
  shows "(\<forall>s\<in>set selections. Whitespace_is_exact (hs_whitespace s)) \<and> lock = Inr ()
    \<and> (\<exists>prepared patch r. prepare (ge_compute env Unstaged) cancelled selections
          (selection_paths selections) Index = Inr prepared
        \<and> render_patch prepared Forward = Inr patch
        \<and> ge_check env Index patch repo = Inr () \<and> ge_apply env Index patch repo = (r, repo')
        \<and> outcome = res_bind r (\<lambda>_. Inr (sum_list (map (length \<circ> pf_hunks) prepared))))"
proof -
  have first: "refuse_whitespace_insensitive selections = Inr ()" "lock = Inr ()"
    and "mutate env cancelled selections Stage repo = (outcome, repo')"
    using assms by (auto simp: stage_hunks_def result_simps split: sum.splits)
  from mutate_changes [OF this(3) assms(2)] apply_patch_changes [OF _ assms(2)]
  have "\<exists>prepared patch r. prepare (ge_compute env Unstaged) cancelled selections
          (selection_paths selections) Index = Inr prepared
        \<and> render_patch prepared Forward = Inr patch
        \<and> ge_check env Index patch repo = Inr () \<and> ge_apply env Index patch repo = (r, repo')
        \<and> outcome = res_bind r (\<lambda>_. Inr (sum_list (map (length \<circ> pf_hunks) prepared)))"
    by fastforce
  with first refuse_whitespace_insensitive_Inr [OF first(1)] show ?thesis
    by blast
qed

definition sample_git :: "string list git_env" where
  "sample_git =
     \<lparr>ge_validate_paths = (\<lambda>paths. Inr ()), ge_open = Inr (), ge_refuse_locked = Inr (),
      ge_filter = (\<lambda>path. Inr FilterUnset), ge_compute = (\<lambda>target. sample_compute),
      ge_parse = (\<lambda>patch. Inr ()), ge_check = (\<lambda>target patch repo. Inr ()),
      ge_apply = (\<lambda>target patch repo. (Inr (), patch # repo))\<rparr>"

lemma staging_writes_one_checked_patch_witness:
  "\<exists>prepared. prepare sample_compute (\<lambda>n. False) [HunkSelection_new sample_diff sample_hunk]
      (selection_paths [HunkSelection_new sample_diff sample_hunk]) Index = Inr prepared
    \<and> is_ok (render_patch prepared Forward)"
proof -
  let ?s = "[HunkSelection_new sample_diff sample_hunk]"
  have "snd (stage_hunks sample_git (Inr ()) (\<lambda>n. False) ?s []) \<noteq> []"
    by code_simp
  then obtain outcome repo where "stage_hunks sample_git (Inr ()) (\<lambda>n. False) ?s [] = (outcome, repo)" "repo \<noteq> []"
    by (metis prod.collapse)
  note staging_writes_one_checked_patch [OF this]
  moreover have "ge_compute sample_git Unstaged = sample_compute"
    by (simp add: sample_git_def)
  ultimately show ?thesis
    by (elim conjE exE) (intro exI conjI, simp only:, simp only: is_ok_simps)
qed

text \<open>
  A region of a view that remaps onto exact selections hides nothing: the exact hunks it
  selects are the ones that overlap it, and their changed lines are the changed lines the view
  showed, none twice.
\<close>

theorem remap_hides_nothing:
  assumes "remap_to_exact view view_hunk exact = Inr selections"
  shows "fd_old_blob_id view = fd_old_blob_id exact \<and> fd_new_blob_id view = fd_new_blob_id exact
    \<and> (\<exists>hunks. selections = map (HunkSelection_new exact) hunks
        \<and> set hunks = {h. h \<in> set (fd_hunks exact) \<and> overlaps view_hunk h}
        \<and> distinct (changed_lines view_hunk) \<and> distinct (concat (map changed_lines hunks))
        \<and> set (concat (map changed_lines hunks)) = set (changed_lines view_hunk))"
proof -
  let ?hunks = "filter (overlaps view_hunk) (fd_hunks exact)"
  have "set ?hunks = {h. h \<in> set (fd_hunks exact) \<and> overlaps view_hunk h}"
    by auto
  moreover have "selections = map (HunkSelection_new exact) ?hunks"
    "distinct (changed_lines view_hunk)" "distinct (concat (map changed_lines ?hunks))"
    "set (concat (map changed_lines ?hunks)) = set (changed_lines view_hunk)"
    "fd_old_blob_id view = fd_old_blob_id exact" "fd_new_blob_id view = fd_new_blob_id exact"
    using assms by (auto simp: remap_to_exact_def Let_def card_distinct split: if_splits)
  ultimately show ?thesis
    by blast
qed

lemma remap_hides_nothing_witness:
  "\<exists>hunks. [HunkSelection_new sample_diff sample_hunk] = map (HunkSelection_new sample_diff) hunks
     \<and> set (concat (map changed_lines hunks)) = set (changed_lines sample_hunk)"
proof -
  have "remap_to_exact sample_diff sample_hunk sample_diff = Inr [HunkSelection_new sample_diff sample_hunk]"
    by code_simp
  from remap_hides_nothing [OF this] show ?thesis
    by (elim conjE exE) (intro exI conjI, assumption+)
qed

text \<open>Git's reading of a quoted path, up to the closing quote.\<close>

definition octal_value :: "char \<Rightarrow> nat" where
  "octal_value c = of_char c - 48"

fun unquote :: "string \<Rightarrow> (string \<times> string) option" where
  "unquote (c # r) =
     (if c = CHR 0x22 then Some ([], r)
      else if c \<noteq> CHR 0x5C then map_option (apfst ((#) c)) (unquote r)
      else case r of
          [] \<Rightarrow> None
        | e # r' \<Rightarrow>
            if e = CHR ''n'' then map_option (apfst ((#) (CHR 0x0A))) (unquote r')
            else if e = CHR ''r'' then map_option (apfst ((#) (CHR 0x0D))) (unquote r')
            else if e = CHR ''t'' then map_option (apfst ((#) (CHR 0x09))) (unquote r')
            else if e = CHR 0x22 \<or> e = CHR 0x5C then map_option (apfst ((#) e)) (unquote r')
            else (case r' of
                b # c # r'' \<Rightarrow>
                  map_option (apfst ((#) (char_of (64 * octal_value e + 8 * octal_value b + octal_value c))))
                    (unquote r'')
              | _ \<Rightarrow> None))"
| "unquote [] = None"

lemma octal_digit: "n < 8 \<Longrightarrow> octal_value (char_of (48 + n)) = n"
  by (simp add: octal_value_def)

lemma octal_char_plain:
  "n < 8 \<Longrightarrow> char_of (48 + n :: nat) \<notin> {CHR ''n'', CHR ''r'', CHR ''t'', CHR 0x22, CHR 0x5C}"
proof -
  have "list_all (\<lambda>n. char_of (48 + n :: nat) \<notin> set [CHR ''n'', CHR ''r'', CHR ''t'', CHR 0x22, CHR 0x5C]) [0..<8]"
    by code_simp
  then show "n < 8 \<Longrightarrow> char_of (48 + n :: nat) \<notin> {CHR ''n'', CHR ''r'', CHR ''t'', CHR 0x22, CHR 0x5C}"
    by (simp add: list_all_iff)
qed

lemma octal_byte_value: "64 * (n div 64) + 8 * (n div 8 mod 8) + n mod 8 = n" for n :: nat
proof -
  have "n div 8 = 8 * (n div 8 div 8) + n div 8 mod 8" "n = 8 * (n div 8) + n mod 8"
    by simp_all
  moreover have "n div 8 div 8 = n div 64"
    by (simp flip: div_mult2_eq)
  ultimately show ?thesis
    by linarith
qed

lemma unquote_byte: "unquote (quote_byte c @ r) = map_option (apfst ((#) c)) (unquote r)"
proof -
  have "of_char c div 64 < (8 :: nat)"
    using nat_of_char_less_256 [of c] by (intro less_mult_imp_div_less) linarith
  then show ?thesis
    using octal_char_plain [of "of_char c div 64"]
    by (simp add: quote_byte_def octal_byte_def Let_def octal_digit octal_byte_value del: of_char_of)
qed

text \<open>
  A quoted path reads back as the prefix and the path it was made from, whatever bytes they
  hold and whatever follows.
\<close>

theorem quoted_path_roundtrip:
  "push_quoted_path output prefix path = output @ CHR 0x22 # drop (Suc (length output)) (push_quoted_path output prefix path)
   \<and> unquote (drop (Suc (length output)) (push_quoted_path output prefix path) @ rest) = Some (prefix @ path, rest)"
proof -
  have "unquote (concat (map quote_byte bytes) @ CHR 0x22 # rest) = Some (bytes, rest)" for bytes
    by (induction bytes) (simp_all add: unquote_byte)
  from this [of "prefix @ path"] show ?thesis
    by (simp add: push_quoted_path_def)
qed

text \<open>
  In the sample, naming every changed line is not rendered like the hunk itself: staging both
  replaced lines by line emits them as two pairs, staging the hunk emits both deletions and then
  both additions. The two patches agree on both sides.
\<close>

theorem naming_every_line_renders_differently:
  "fst (render_hunk [] (plan_hunk (sample_prepared (Some (sample_two @ sample_three))) Forward) Forward 0)
     \<noteq> fst (render_hunk [] (plan_hunk (sample_prepared None) Forward) Forward 0)
   \<and> source_lines Forward (rh_groups (plan_hunk (sample_prepared (Some (sample_two @ sample_three))) Forward))
     = source_lines Forward (rh_groups (plan_hunk (sample_prepared None) Forward))
   \<and> result_lines Forward (rh_groups (plan_hunk (sample_prepared (Some (sample_two @ sample_three))) Forward))
     = result_lines Forward (rh_groups (plan_hunk (sample_prepared None) Forward))
   \<and> list_all (\<lambda>l. dl_kind l = Context \<or> line_selected (sample_two @ sample_three) l) (h_lines sample_hunk)"
  by code_simp

text \<open>An insertion taken without context, after line two of a file of three lines.\<close>

definition sample_insertion :: hunk where
  "sample_insertion = sample_hunk\<lparr>h_old_start := 2, h_old_lines := 0, h_new_start := 3, h_new_lines := 1,
     h_lines := [sample_line Addition None (Some 3) ''inserted'']\<rparr>"

text \<open>
  This insertion without context is rendered with a result start one line too early: the diff
  places it at line three, the header at line two, and applying it there puts the new line before
  line two.
\<close>

theorem insertion_without_context_is_misplaced:
  "h_new_start sample_insertion = 3
   \<and> result_start (plan_hunk \<lparr>ph_hunk = sample_insertion, ph_selected_lines = None\<rparr> Forward) 0 = 2
   \<and> apply_in_turn Forward [''one'', ''two'', ''three''] 0
       [plan_hunk \<lparr>ph_hunk = sample_insertion, ph_selected_lines = None\<rparr> Forward]
     = Some [''one'', ''inserted'' @ newline, ''two'', ''three'']"
  by code_simp

end
