(* ===== verification/Git_Intra_Line.thy ===== *)
theory Git_Intra_Line
  imports Git_Diff "HOL-Library.Sublist"
begin

text \<open>
  Pairing of the replaced lines of a hunk and the byte ranges that differ inside a pair.

  Source: \<open>harkness-git/src/intra_line.rs\<close>. The two alignment matrices are the flat vectors of
  the code, filled by the nested loops of the code and read back by its traceback. A \<open>usize\<close> is a
  natural number, with the saturation of the code written out; scores are 64-bit and token counts
  16-bit words. The \<open>unreachable!\<close> of the traceback is the value \<^term>\<open>None\<close>.
\<close>

type_synonym u16 = "16 word"
type_synonym u8 = "8 word"

section \<open>Saturating sizes\<close>

definition usize_add :: "nat \<Rightarrow> nat \<Rightarrow> nat" where
  "usize_add a b = min (a + b) (2 ^ 64 - 1)"

definition usize_mul :: "nat \<Rightarrow> nat \<Rightarrow> nat" where
  "usize_mul a b = min (a * b) (2 ^ 64 - 1)"

definition saturating_mul :: "'w::len word \<Rightarrow> 'w word \<Rightarrow> 'w word" where
  "saturating_mul a b = (if uint a * uint b < 2 ^ LENGTH('w) then a * b else - 1)"

lemma less_2_64_iff: "n < 2 ^ 64 \<longleftrightarrow> int n < 18446744073709551616"
proof -
  have "n < 2 ^ 64 \<longleftrightarrow> int n < int (2 ^ 64)"
    by (simp only: of_nat_less_iff)
  then show ?thesis
    by simp
qed

text \<open>Evaluation compares binary integers instead of unary naturals.\<close>

lemma usize_add_code [code]:
  "usize_add a b = (if int a + int b < 18446744073709551616 then a + b else 2 ^ 64 - 1)"
  using less_2_64_iff [of "a + b"] by (auto simp: usize_add_def min_def)

lemma usize_mul_code [code]:
  "usize_mul a b = (if int a * int b < 18446744073709551616 then a * b else 2 ^ 64 - 1)"
  using less_2_64_iff [of "a * b"] by (auto simp: usize_mul_def min_def)

lemma unat_saturating_mul:
  "unat (saturating_mul a b) = min (unat a * unat b) (2 ^ LENGTH('w) - 1)" for a b :: "'w::len word"
proof -
  have "uint a * uint b < 2 ^ LENGTH('w) \<longleftrightarrow> unat a * unat b < 2 ^ LENGTH('w)"
  proof -
    have "unat a * unat b < 2 ^ LENGTH('w) \<longleftrightarrow> int (unat a * unat b) < int (2 ^ LENGTH('w))"
      by (simp only: of_nat_less_iff)
    then show ?thesis
      by simp
  qed
  moreover have "unat (a * b) = unat a * unat b" if "unat a * unat b < 2 ^ LENGTH('w)"
    using that by (simp add: unat_word_ariths)
  moreover have "min (unat a * unat b) (2 ^ LENGTH('w) - 1) = 2 ^ LENGTH('w) - 1"
    if "\<not> unat a * unat b < 2 ^ LENGTH('w)"
    using that by linarith
  ultimately show ?thesis
    by (cases "unat a * unat b < 2 ^ LENGTH('w)")
      (simp_all add: saturating_mul_def unat_max_word min_absorb1 del: mult_eq_0_iff)
qed

section \<open>Bounds\<close>

definition MAX_INTRA_LINE_BYTES :: nat where
  "MAX_INTRA_LINE_BYTES = 4 * 1024"

definition MAX_INTRA_LINE_COMPARISONS :: nat where
  "MAX_INTRA_LINE_COMPARISONS = 1000000"

definition MIN_PAIR_SIMILARITY_PER_MILLE :: nat where
  "MIN_PAIR_SIMILARITY_PER_MILLE = 200"

definition line_too_long :: "string \<Rightarrow> bool" where
  "line_too_long content \<longleftrightarrow> MAX_INTRA_LINE_BYTES < length content"

definition too_many_comparisons :: "nat \<Rightarrow> bool" where
  "too_many_comparisons comparisons \<longleftrightarrow> MAX_INTRA_LINE_COMPARISONS < comparisons"

lemma line_too_long_code [code]: "line_too_long content \<longleftrightarrow> 4096 < int (length content)"
  unfolding line_too_long_def MAX_INTRA_LINE_BYTES_def by linarith

lemma too_many_comparisons_code [code]: "too_many_comparisons n \<longleftrightarrow> 1000000 < int n"
  unfolding too_many_comparisons_def MAX_INTRA_LINE_COMPARISONS_def by linarith

section \<open>Runs of changed lines\<close>

record changed_run =
  cr_deletions :: "nat list"
  cr_additions :: "nat list"

definition push_run :: "changed_run list \<Rightarrow> nat list \<Rightarrow> nat list \<Rightarrow> changed_run list" where
  "push_run runs deletions additions =
     (if deletions = [] \<and> additions = [] then runs
      else runs @ [\<lparr>cr_deletions = deletions, cr_additions = additions\<rparr>])"

text \<open>The loop over \<open>lines.iter().enumerate()\<close>, with the index of the next line.\<close>

fun changed_runs_from ::
  "nat \<Rightarrow> diff_line list \<Rightarrow> changed_run list \<Rightarrow> nat list \<Rightarrow> nat list \<Rightarrow> changed_run list" where
  "changed_runs_from index [] runs deletions additions = push_run runs deletions additions"
| "changed_runs_from index (line # lines) runs deletions additions =
     (case dl_kind line of
        Deletion \<Rightarrow> changed_runs_from (Suc index) lines runs (deletions @ [index]) additions
      | Addition \<Rightarrow> changed_runs_from (Suc index) lines runs deletions (additions @ [index])
      | Context \<Rightarrow>
          changed_runs_from (Suc index) lines (push_run runs deletions additions) [] []
      | BothEofNoNewline \<Rightarrow> changed_runs_from (Suc index) lines runs deletions additions
      | OldEofNoNewline \<Rightarrow> changed_runs_from (Suc index) lines runs deletions additions
      | NewEofNoNewline \<Rightarrow> changed_runs_from (Suc index) lines runs deletions additions)"

definition changed_runs :: "diff_line list \<Rightarrow> changed_run list" where
  "changed_runs lines = changed_runs_from 0 lines [] [] []"

section \<open>Similarity of two lines\<close>

definition strip_suffix_byte :: "char \<Rightarrow> string \<Rightarrow> string option" where
  "strip_suffix_byte b s = (if s \<noteq> [] \<and> last s = b then Some (butlast s) else None)"

definition line_body :: "string \<Rightarrow> string" where
  "line_body line =
     (let line = (case strip_suffix_byte (CHR 0x0A) line of
                    Some stripped \<Rightarrow> stripped
                  | None \<Rightarrow> line)
      in case strip_suffix_byte (CHR 0x0D) line of Some stripped \<Rightarrow> stripped | None \<Rightarrow> line)"

definition equal_count :: "string \<Rightarrow> string \<Rightarrow> nat" where
  "equal_count xs ys = length (takeWhile (\<lambda>(x, y). x = y) (zip xs ys))"

definition per_mille :: "nat \<Rightarrow> nat \<Rightarrow> nat \<Rightarrow> nat" where
  "per_mille shared old_len new_len = usize_mul shared 2000 div usize_add old_len new_len"

lemma per_mille_code [code]:
  "per_mille shared old_len new_len =
     nat (min (int shared * 2000) 18446744073709551615
          div min (int old_len + int new_len) 18446744073709551615)"
proof -
  have "int (per_mille shared old_len new_len) =
      min (int shared * 2000) 18446744073709551615
      div min (int old_len + int new_len) 18446744073709551615"
    by (simp add: per_mille_def usize_mul_def usize_add_def zdiv_int of_nat_min)
  then show ?thesis
    by (metis nat_int)
qed

definition line_similarity :: "string \<Rightarrow> string \<Rightarrow> nat" where
  "line_similarity old_line new_line =
     (let old = line_body old_line; new = line_body new_line
      in if old = new then 1000
         else if old = [] \<or> new = [] then 0
         else
           let prefix = equal_count old new;
               available = min (length old) (length new) - prefix;
               suffix = equal_count (rev (drop (length old - available) old))
                          (rev (drop (length new - available) new))
           in per_mille (usize_add prefix suffix) (length old) (length new))"

section \<open>Alignment of a run\<close>

definition eligible :: "nat \<Rightarrow> nat \<Rightarrow> nat \<Rightarrow> bool" where
  "eligible old_count new_count similarity \<longleftrightarrow>
     MIN_PAIR_SIMILARITY_PER_MILLE \<le> similarity \<or> (old_count = 1 \<and> new_count = 1)"

lemma eligible_code [code]:
  "eligible old_count new_count similarity \<longleftrightarrow>
     200 \<le> int similarity \<or> (old_count = 1 \<and> new_count = 1)"
  unfolding eligible_def MIN_PAIR_SIMILARITY_PER_MILLE_def by auto

text \<open>The two matrices of the code: scores and directions.\<close>

type_synonym alignment = "u64 list \<times> u8 list"

definition run_similarity :: "changed_run \<Rightarrow> diff_line list \<Rightarrow> nat \<Rightarrow> nat \<Rightarrow> nat" where
  "run_similarity run lines old new =
     line_similarity (dl_content (lines ! (cr_deletions run ! (old - 1))))
       (dl_content (lines ! (cr_additions run ! (new - 1))))"

text \<open>The body of the inner loop: one cell of both matrices.\<close>

definition align_cell :: "changed_run \<Rightarrow> diff_line list \<Rightarrow> alignment \<Rightarrow> nat \<times> nat \<Rightarrow> alignment" where
  "align_cell run lines tables p =
     (case tables of (scores, directions) \<Rightarrow> case p of (old, new) \<Rightarrow>
      let old_count = length (cr_deletions run);
          new_count = length (cr_additions run);
          width = new_count + 1;
          pair_scale = word_of_nat (min old_count new_count) + 1 :: u64;
          position = old * width + new;
          above = scores ! ((old - 1) * width + new);
          left = scores ! (old * width + new - 1);
          (best, direction) = (if left \<le> above then (above, 1) else (left, 2));
          similarity = run_similarity run lines old new;
          paired = saturating_add
                     (saturating_add (scores ! ((old - 1) * width + new - 1))
                        (saturating_mul (word_of_nat similarity) pair_scale)) 1;
          (best, direction) =
            (if eligible old_count new_count similarity \<and> best \<le> paired then (paired, 3)
             else (best, direction))
      in (scores[position := best], directions[position := direction]))"

definition align_tables :: "changed_run \<Rightarrow> diff_line list \<Rightarrow> alignment" where
  "align_tables run lines =
     (let old_count = length (cr_deletions run);
          new_count = length (cr_additions run);
          width = new_count + 1;
          scores = replicate ((old_count + 1) * width) 0;
          directions = replicate (length scores) 0
      in foldl (\<lambda>tables old.
                  foldl (\<lambda>tables new. align_cell run lines tables (old, new))
                    tables [1..<Suc new_count])
           (scores, directions) [1..<Suc old_count])"

function traceback ::
  "changed_run \<Rightarrow> u8 list \<Rightarrow> nat \<Rightarrow> nat \<Rightarrow> nat \<Rightarrow> (nat \<times> nat) list \<Rightarrow> (nat \<times> nat) list option" where
  "traceback run directions width old new pairs =
     (if 0 < old \<and> 0 < new then
        (if directions ! (old * width + new) = 3 then
           traceback run directions width (old - 1) (new - 1)
             (pairs @ [(cr_deletions run ! (old - 1), cr_additions run ! (new - 1))])
         else if directions ! (old * width + new) = 1 then
           traceback run directions width (old - 1) new pairs
         else if directions ! (old * width + new) = 2 then
           traceback run directions width old (new - 1) pairs
         else None)
      else Some pairs)"
  by pat_completeness auto
termination
  by (relation "measure (\<lambda>(_, _, _, old, new, _). old + new)") auto

declare traceback.simps [simp del]

definition pair_run :: "changed_run \<Rightarrow> diff_line list \<Rightarrow> (nat \<times> nat) list option" where
  "pair_run run lines =
     map_option rev
       (traceback run (snd (align_tables run lines)) (length (cr_additions run) + 1)
          (length (cr_deletions run)) (length (cr_additions run)) [])"

section \<open>Tokens\<close>

record line_token =
  tk_start :: nat
  tk_end :: nat

definition is_ascii_alphanumeric :: "char \<Rightarrow> bool" where
  "is_ascii_alphanumeric c \<longleftrightarrow>
     (let n = of_char c :: nat
      in 48 \<le> n \<and> n \<le> 57 \<or> 65 \<le> n \<and> n \<le> 90 \<or> 97 \<le> n \<and> n \<le> 122)"

definition is_ascii_whitespace :: "char \<Rightarrow> bool" where
  "is_ascii_whitespace c \<longleftrightarrow>
     c = CHR 0x20 \<or> c = CHR 0x09 \<or> c = CHR 0x0A \<or> c = CHR 0x0C \<or> c = CHR 0x0D"

definition is_word_byte :: "char \<Rightarrow> bool" where
  "is_word_byte byte \<longleftrightarrow>
     is_ascii_alphanumeric byte \<or> byte = CHR 0x5F \<or> \<not> (of_char byte :: nat) < 128"

definition is_line_ending :: "char \<Rightarrow> bool" where
  "is_line_ending byte \<longleftrightarrow> byte = CHR 0x0D \<or> byte = CHR 0x0A"

function take_while_from :: "string \<Rightarrow> nat \<Rightarrow> (char \<Rightarrow> bool) \<Rightarrow> nat" where
  "take_while_from line e predicate =
     (if e < length line \<and> predicate (line ! e) then take_while_from line (e + 1) predicate else e)"
  by pat_completeness auto
termination
  by (relation "measure (\<lambda>(line, e, _). length line - e)") auto

declare take_while_from.simps [simp del]

definition take_while :: "string \<Rightarrow> nat \<Rightarrow> (char \<Rightarrow> bool) \<Rightarrow> nat" where
  "take_while line start predicate = take_while_from line (start + 1) predicate"

definition token_end :: "string \<Rightarrow> nat \<Rightarrow> nat" where
  "token_end line start =
     (let byte = line ! start
      in if byte = CHR 0x0D \<and> start + 1 < length line \<and> line ! (start + 1) = CHR 0x0A then start + 2
         else if is_line_ending byte then start + 1
         else if is_word_byte byte then take_while line start is_word_byte
         else if is_ascii_whitespace byte then
           take_while line start (\<lambda>byte. is_ascii_whitespace byte \<and> \<not> is_line_ending byte)
         else start + 1)"

lemma take_while_from_ge: "e \<le> take_while_from line e predicate"
  by (induction line e predicate rule: take_while_from.induct) (subst take_while_from.simps, auto)

lemma token_end_gt: "start < token_end line start"
  using take_while_from_ge [of "start + 1" line]
  by (auto simp: token_end_def take_while_def Let_def Suc_le_eq)

function tokenize_from :: "string \<Rightarrow> nat \<Rightarrow> line_token list" where
  "tokenize_from line start =
     (if start < length line then
        \<lparr>tk_start = start, tk_end = token_end line start\<rparr> # tokenize_from line (token_end line start)
      else [])"
  by pat_completeness auto
termination
  by (relation "measure (\<lambda>(line, start). length line - start)")
    (auto intro: diff_less_mono2 token_end_gt)

declare tokenize_from.simps [simp del]

definition tokenize :: "string \<Rightarrow> line_token list" where
  "tokenize line = tokenize_from line 0"

section \<open>Changed ranges of a pair\<close>

definition slice_of :: "string \<Rightarrow> nat \<Rightarrow> nat \<Rightarrow> string" where
  "slice_of xs a b = take (b - a) (drop a xs)"

definition tokens_equal :: "string \<Rightarrow> line_token \<Rightarrow> string \<Rightarrow> line_token \<Rightarrow> bool" where
  "tokens_equal old old_token new new_token \<longleftrightarrow>
     slice_of old (tk_start old_token) (tk_end old_token)
     = slice_of new (tk_start new_token) (tk_end new_token)"

definition lengths_cell ::
  "string \<Rightarrow> line_token list \<Rightarrow> string \<Rightarrow> line_token list \<Rightarrow> u16 list \<Rightarrow> nat \<times> nat \<Rightarrow> u16 list" where
  "lengths_cell old old_tokens new new_tokens lengths p =
     (case p of (i, j) \<Rightarrow>
      let width = length new_tokens + 1;
          position = i * width + j
      in lengths[position :=
           (if tokens_equal old (old_tokens ! i) new (new_tokens ! j)
            then saturating_add (lengths ! ((i + 1) * width + j + 1)) 1
            else max (lengths ! ((i + 1) * width + j)) (lengths ! (i * width + j + 1)))])"

definition lengths_table :: "string \<Rightarrow> line_token list \<Rightarrow> string \<Rightarrow> line_token list \<Rightarrow> u16 list" where
  "lengths_table old old_tokens new new_tokens =
     foldl (\<lambda>lengths i.
              foldl (\<lambda>lengths j. lengths_cell old old_tokens new new_tokens lengths (i, j))
                lengths (rev [0..<length new_tokens]))
       (replicate ((length old_tokens + 1) * (length new_tokens + 1)) 0)
       (rev [0..<length old_tokens])"

function token_matches ::
  "string \<Rightarrow> line_token list \<Rightarrow> string \<Rightarrow> line_token list \<Rightarrow> u16 list \<Rightarrow> nat \<Rightarrow> nat \<Rightarrow> (nat \<times> nat) list" where
  "token_matches old old_tokens new new_tokens lengths i j =
     (let width = length new_tokens + 1
      in if i < length old_tokens \<and> j < length new_tokens then
           (if tokens_equal old (old_tokens ! i) new (new_tokens ! j)
               \<and> lengths ! (i * width + j)
                 = saturating_add (lengths ! ((i + 1) * width + j + 1)) 1 then
              (i, j) # token_matches old old_tokens new new_tokens lengths (i + 1) (j + 1)
            else if lengths ! (i * width + j + 1) \<le> lengths ! ((i + 1) * width + j) then
              token_matches old old_tokens new new_tokens lengths (i + 1) j
            else token_matches old old_tokens new new_tokens lengths i (j + 1))
         else [])"
  by pat_completeness auto
termination
  by (relation "measure (\<lambda>(_, old_tokens, _, new_tokens, _, i, j).
        (length old_tokens - i) + (length new_tokens - j))") auto

declare token_matches.simps [simp del]

definition push_unmatched_range ::
  "intra_line_range list \<Rightarrow> line_token list \<Rightarrow> nat \<Rightarrow> nat \<Rightarrow> intra_line_range list" where
  "push_unmatched_range ranges tokens start e =
     (if start < e
      then ranges @ [\<lparr>range_start = tk_start (tokens ! start), range_end = tk_end (tokens ! (e - 1))\<rparr>]
      else ranges)"

fun unmatched_ranges_from ::
  "line_token list \<Rightarrow> nat \<Rightarrow> intra_line_range list \<Rightarrow> nat list \<Rightarrow> intra_line_range list" where
  "unmatched_ranges_from tokens cursor ranges [] =
     push_unmatched_range ranges tokens cursor (length tokens)"
| "unmatched_ranges_from tokens cursor ranges (m # matched) =
     unmatched_ranges_from tokens (m + 1) (push_unmatched_range ranges tokens cursor m) matched"

definition unmatched_ranges :: "line_token list \<Rightarrow> nat list \<Rightarrow> intra_line_range list" where
  "unmatched_ranges tokens matched = unmatched_ranges_from tokens 0 [] matched"

definition changed_token_ranges ::
  "string \<Rightarrow> line_token list \<Rightarrow> string \<Rightarrow> line_token list
     \<Rightarrow> intra_line_range list \<times> intra_line_range list" where
  "changed_token_ranges old old_tokens new new_tokens =
     (let matches = token_matches old old_tokens new new_tokens
                      (lengths_table old old_tokens new new_tokens) 0 0
      in (unmatched_ranges old_tokens (map fst matches),
          unmatched_ranges new_tokens (map snd matches)))"

definition full_range :: "string \<Rightarrow> intra_line_range list" where
  "full_range content =
     (if content = [] then [] else [\<lparr>range_start = 0, range_end = length content\<rparr>])"

section \<open>Annotating a hunk\<close>

definition clear_line :: "diff_line \<Rightarrow> diff_line" where
  "clear_line line = line\<lparr>dl_paired_line_index := None, dl_intra_line_ranges := None\<rparr>"

definition pairable_runs :: "diff_line list \<Rightarrow> changed_run list" where
  "pairable_runs lines =
     filter (\<lambda>run. cr_deletions run \<noteq> [] \<and> cr_additions run \<noteq> []) (changed_runs lines)"

definition degrade_pairing :: "hunk \<Rightarrow> hunk" where
  "degrade_pairing hunk =
     hunk\<lparr>h_intra_line_degradation := Some (PairingTooLarge MAX_INTRA_LINE_COMPARISONS)\<rparr>"

definition content_bytes :: "diff_line list \<Rightarrow> nat list \<Rightarrow> nat" where
  "content_bytes lines indices =
     foldl (\<lambda>total index. usize_add total (length (dl_content (lines ! index)))) 0 indices"

definition run_cost :: "diff_line list \<Rightarrow> changed_run \<Rightarrow> nat \<Rightarrow> nat" where
  "run_cost lines run comparisons =
     (let deletion_bytes = content_bytes lines (cr_deletions run);
          addition_bytes = content_bytes lines (cr_additions run);
          candidates = usize_mul (length (cr_deletions run)) (length (cr_additions run));
          scanned_bytes =
            usize_mul
              (usize_add (usize_mul (length (cr_additions run)) deletion_bytes)
                 (usize_mul (length (cr_deletions run)) addition_bytes)) 2
      in usize_add (usize_add comparisons candidates) scanned_bytes)"

text \<open>The preflight over the runs; \<^term>\<open>None\<close> when the limit is exceeded.\<close>

fun charge_runs :: "diff_line list \<Rightarrow> changed_run list \<Rightarrow> nat \<Rightarrow> nat option" where
  "charge_runs lines [] comparisons = Some comparisons"
| "charge_runs lines (run # runs) comparisons =
     (let comparisons = run_cost lines run comparisons
      in if too_many_comparisons comparisons then None else charge_runs lines runs comparisons)"

text \<open>The pairs of every run in order; \<^term>\<open>None\<close> when a traceback panics.\<close>

fun pair_runs :: "diff_line list \<Rightarrow> changed_run list \<Rightarrow> (nat \<times> nat) list option" where
  "pair_runs lines [] = Some []"
| "pair_runs lines (run # runs) =
     (case pair_run run lines of
        None \<Rightarrow> None
      | Some ps \<Rightarrow> map_option ((@) ps) (pair_runs lines runs))"

type_synonym annotation = "nat \<times> nat \<times> intra_line_range list \<times> intra_line_range list"

text \<open>The ranges of every pair; \<^term>\<open>None\<close> when the limit is exceeded.\<close>

fun annotate_pairs :: "diff_line list \<Rightarrow> (nat \<times> nat) list \<Rightarrow> nat \<Rightarrow> annotation list option" where
  "annotate_pairs lines [] comparisons = Some []"
| "annotate_pairs lines ((deletion, addition) # pairs) comparisons =
     (let old_content = dl_content (lines ! deletion);
          new_content = dl_content (lines ! addition)
      in if line_similarity old_content new_content = 0 then
           map_option ((#) (deletion, addition, full_range old_content, full_range new_content))
             (annotate_pairs lines pairs comparisons)
         else
           let old_tokens = tokenize old_content;
               new_tokens = tokenize new_content;
               range_cells =
                 usize_mul (usize_add (length old_tokens) 1) (usize_add (length new_tokens) 1);
               comparisons = usize_add comparisons range_cells
           in if too_many_comparisons comparisons then None
              else
                let (old_ranges, new_ranges) =
                      changed_token_ranges old_content old_tokens new_content new_tokens
                in map_option ((#) (deletion, addition, old_ranges, new_ranges))
                     (annotate_pairs lines pairs comparisons))"

definition set_annotation :: "nat \<Rightarrow> intra_line_range list \<Rightarrow> diff_line \<Rightarrow> diff_line" where
  "set_annotation paired ranges line =
     line\<lparr>dl_paired_line_index := Some paired, dl_intra_line_ranges := Some ranges\<rparr>"

definition apply_annotation :: "diff_line list \<Rightarrow> annotation \<Rightarrow> diff_line list" where
  "apply_annotation lines a =
     (case a of (deletion, addition, old_ranges, new_ranges) \<Rightarrow>
      let lines = lines[deletion := set_annotation addition old_ranges (lines ! deletion)]
      in lines[addition := set_annotation deletion new_ranges (lines ! addition)])"

definition annotate :: "hunk \<Rightarrow> hunk option" where
  "annotate hunk0 =
     (let hunk = hunk0\<lparr>h_intra_line_degradation := None, h_lines := map clear_line (h_lines hunk0)\<rparr>;
          lines = h_lines hunk;
          pairable = pairable_runs lines
      in if pairable = [] then Some hunk
         else if list_ex (\<lambda>run. list_ex (\<lambda>index. line_too_long (dl_content (lines ! index)))
                                   (cr_deletions run @ cr_additions run)) pairable
         then Some (hunk\<lparr>h_intra_line_degradation := Some (LineTooLong MAX_INTRA_LINE_BYTES)\<rparr>)
         else
           case charge_runs lines pairable 0 of
             None \<Rightarrow> Some (degrade_pairing hunk)
           | Some comparisons \<Rightarrow>
               (case pair_runs lines pairable of
                  None \<Rightarrow> None
                | Some pairs \<Rightarrow>
                    (case annotate_pairs lines pairs comparisons of
                       None \<Rightarrow> Some (degrade_pairing hunk)
                     | Some annotations \<Rightarrow>
                         Some (hunk\<lparr>h_lines := foldl apply_annotation lines annotations\<rparr>))))"

end
