(* ===== verification/Table_Fill.thy ===== *)
theory Table_Fill
  imports Prelude
begin

text \<open>
  Tables of dynamic programs. A loop fills a table cell by cell; each cell is computed from cells
  that were filled before. The interface asks only that a step writes its own cell, from its
  dependencies, and leaves the others alone; the order of the loops is a separate condition.
\<close>

section \<open>Order of filling\<close>

fun fill_order :: "('p \<Rightarrow> 'p set) \<Rightarrow> 'p set \<Rightarrow> 'p list \<Rightarrow> bool" where
  "fill_order deps known [] = True"
| "fill_order deps known (p # ps) = (deps p \<subseteq> known \<and> fill_order deps (insert p known) ps)"

lemma fill_order_append:
  "fill_order deps known (ps @ qs)
   \<longleftrightarrow> fill_order deps known ps \<and> fill_order deps (known \<union> set ps) qs"
  by (induction ps arbitrary: known) simp_all

lemma fill_order_mono: "fill_order deps known ps \<Longrightarrow> known \<subseteq> known' \<Longrightarrow> fill_order deps known' ps"
proof (induction ps arbitrary: known known')
  case (Cons p ps)
  then show ?case
    using Cons.IH [of "insert p known" "insert p known'"] by auto
qed simp

lemma fill_order_all: "(\<And>p. p \<in> set ps \<Longrightarrow> deps p \<subseteq> known) \<Longrightarrow> fill_order deps known ps"
  by (induction ps arbitrary: known) (auto intro: fill_order_mono)

text \<open>Two nested loops are one loop over the pairs.\<close>

lemma foldl_nested:
  "foldl (\<lambda>s i. foldl (\<lambda>s j. f s (i, j)) s js) s is = foldl f s (List.product is js)"
proof (induction "is" arbitrary: s)
  case (Cons i "is")
  have "foldl (\<lambda>s j. f s (i, j)) s js = foldl f s (map (Pair i) js)" for s
    by (induction js arbitrary: s) auto
  with Cons show ?case
    by simp
qed simp

text \<open>Rows from the top, each from the left: a cell needs its neighbours above and to the left.\<close>

definition upper_left :: "nat \<times> nat \<Rightarrow> (nat \<times> nat) set" where
  "upper_left p = (case p of (i, j) \<Rightarrow> {(i - 1, j), (i, j - 1), (i - 1, j - 1)})"

definition lower_right :: "nat \<times> nat \<Rightarrow> (nat \<times> nat) set" where
  "lower_right p = (case p of (i, j) \<Rightarrow> {(i + 1, j), (i, j + 1), (i + 1, j + 1)})"

lemma fill_order_row_up:
  assumes "i \<noteq> 0" and "{(i', j). (i' = i - 1 \<and> j \<le> n) \<or> (i' = i \<and> j = 0)} \<subseteq> known" and "m \<le> n"
  shows "fill_order upper_left known (map (Pair i) [1..<Suc m])"
  using \<open>m \<le> n\<close>
proof (induction m)
  case (Suc m)
  have "upper_left (i, Suc m) \<subseteq> known \<union> set (map (Pair i) [1..<Suc m])"
    using assms(2) Suc.prems by (cases m) (auto simp: upper_left_def)
  with Suc show ?case
    by (simp add: fill_order_append)
qed simp

lemma fill_order_up:
  assumes "{(i, j). i = 0 \<and> j \<le> n \<or> i \<le> m \<and> j = 0} \<subseteq> known" and "k \<le> m"
  shows "fill_order upper_left known (List.product [1..<Suc k] [1..<Suc n])"
  using assms(2)
proof (induction k)
  case (Suc k)
  let ?done = "List.product [1..<Suc k] [1..<Suc n]"
  have split: "[1..<Suc (Suc k)] = [1..<Suc k] @ [Suc k]"
    by simp
  have "fill_order upper_left (known \<union> set ?done) (map (Pair (Suc k)) [1..<Suc n])"
  proof (rule fill_order_row_up [where n = n])
    show "{(i', j). i' = Suc k - 1 \<and> j \<le> n \<or> i' = Suc k \<and> j = 0} \<subseteq> known \<union> set ?done"
    proof clarify
      fix i j
      assume here: "i = Suc k - 1 \<and> j \<le> n \<or> i = Suc k \<and> j = 0" and "(i, j) \<notin> set ?done"
      then have "i = 0 \<and> j \<le> n \<or> i \<le> m \<and> j = 0"
        using Suc.prems by (cases "i = 0"; cases "j = 0") auto
      then show "(i, j) \<in> known"
        using assms(1) by auto
    qed
  qed simp_all
  with Suc show ?case
    unfolding split product_concat_map by (simp add: fill_order_append)
qed simp

text \<open>Rows from the bottom, each from the right.\<close>

lemma fill_order_row_down:
  assumes "{(i', j). i' = Suc i \<and> j \<le> n \<or> i' = i \<and> m \<le> j \<and> j \<le> n} \<subseteq> known" and "m \<le> n"
  shows "fill_order lower_right known (map (Pair i) (rev [0..<m]))"
  using assms
proof (induction m arbitrary: known)
  case (Suc m)
  have "lower_right (i, m) \<subseteq> known"
    using Suc.prems by (auto simp: lower_right_def)
  moreover have "fill_order lower_right (insert (i, m) known) (map (Pair i) (rev [0..<m]))"
  proof (rule Suc.IH)
    show "{(i', j). i' = Suc i \<and> j \<le> n \<or> i' = i \<and> m \<le> j \<and> j \<le> n} \<subseteq> insert (i, m) known"
    proof
      fix q
      assume "q \<in> {(i', j). i' = Suc i \<and> j \<le> n \<or> i' = i \<and> m \<le> j \<and> j \<le> n}"
      then obtain i' j where q: "q = (i', j)" "j \<le> n"
        "i' = Suc i \<or> i' = i \<and> j = m \<or> i' = i \<and> Suc m \<le> j"
        by force
      then show "q \<in> insert (i, m) known"
        using Suc.prems(1) by blast
    qed
  qed (use Suc.prems in auto)
  ultimately show ?case
    by simp
qed simp

lemma fill_order_down:
  assumes "{(i, j). i = k \<and> j \<le> n \<or> i \<le> k \<and> j = n} \<subseteq> known"
  shows "fill_order lower_right known (List.product (rev [0..<k]) (rev [0..<n]))"
  using assms
proof (induction k arbitrary: known)
  case (Suc k)
  let ?row = "map (Pair k) (rev [0..<n])"
  have "fill_order lower_right known ?row"
    using Suc.prems by (intro fill_order_row_down [where n = n]) auto
  moreover have "{(i, j). i = k \<and> j \<le> n \<or> i \<le> k \<and> j = n} \<subseteq> known \<union> set ?row"
  proof clarify
    fix i j
    assume "i = k \<and> j \<le> n \<or> i \<le> k \<and> j = n" and "(i, j) \<notin> set ?row"
    then have "i \<le> k \<and> j = n"
      by (cases "j = n") auto
    then show "(i, j) \<in> known"
      using Suc.prems by auto
  qed
  then have "fill_order lower_right (known \<union> set ?row) (List.product (rev [0..<k]) (rev [0..<n]))"
    by (rule Suc.IH)
  ultimately show ?case
    by (simp add: fill_order_append)
qed simp

section \<open>The interface of a table\<close>

locale table_fill =
  fixes ok :: "'s \<Rightarrow> bool"
    and get :: "'s \<Rightarrow> 'p \<Rightarrow> 'a"
    and step :: "'s \<Rightarrow> 'p \<Rightarrow> 's"
    and cell :: "'p \<Rightarrow> 'a"
    and inner :: "'p set"
    and grid :: "'p set"
    and deps :: "'p \<Rightarrow> 'p set"
  assumes inner_grid: "inner \<subseteq> grid"
    and ok_step: "ok s \<Longrightarrow> p \<in> inner \<Longrightarrow> ok (step s p)"
    and frame: "ok s \<Longrightarrow> p \<in> inner \<Longrightarrow> q \<in> grid \<Longrightarrow> q \<noteq> p \<Longrightarrow> get (step s p) q = get s q"
    and fills: "ok s \<Longrightarrow> p \<in> inner \<Longrightarrow> (\<And>q. q \<in> deps p \<Longrightarrow> get s q = cell q) \<Longrightarrow>
      get (step s p) p = cell p"
begin

lemma fold_fills:
  assumes "ok s" and "set ps \<subseteq> inner" and "fill_order deps known ps"
    and "\<And>q. q \<in> known \<Longrightarrow> get s q = cell q" and "known \<subseteq> grid"
  shows "ok (foldl step s ps) \<and> (\<forall>q \<in> known \<union> set ps. get (foldl step s ps) q = cell q)"
  using assms
proof (induction ps arbitrary: s known)
  case (Cons p ps)
  have p: "p \<in> inner" and deps: "deps p \<subseteq> known"
    using Cons.prems by auto
  have "get (step s p) q = cell q" if "q \<in> insert p known" for q
  proof (cases "q = p")
    case True
    then show ?thesis
      using fills [OF Cons.prems(1) p] Cons.prems(4) deps by auto
  next
    case False
    then show ?thesis
      using that frame [OF Cons.prems(1) p, of q] Cons.prems(4,5) by auto
  qed
  moreover have "insert p known \<subseteq> grid"
    using Cons.prems(5) p inner_grid by auto
  ultimately show ?case
    using Cons.IH [of "step s p" "insert p known"] Cons.prems ok_step [OF Cons.prems(1) p] by auto
qed simp

end

section \<open>Flat vectors\<close>

lemma flat_index_less:
  fixes i j m n :: nat
  assumes "i \<le> m" and "j \<le> n"
  shows "i * (n + 1) + j < (m + 1) * (n + 1)"
proof -
  have "i * (n + 1) + j < i * (n + 1) + (n + 1)"
    using assms(2) by simp
  also have "\<dots> = (i + 1) * (n + 1)"
    by simp
  also have "\<dots> \<le> (m + 1) * (n + 1)"
    using assms(1) by (intro mult_le_mono1) simp
  finally show ?thesis .
qed

lemma flat_index_eq:
  fixes i j n :: nat
  assumes "j \<le> n" and "j' \<le> n"
  shows "i * (n + 1) + j = i' * (n + 1) + j' \<longleftrightarrow> i = i' \<and> j = j'"
proof
  assume eq: "i * (n + 1) + j = i' * (n + 1) + j'"
  have "(i * (n + 1) + j) div (n + 1) = i" and "(i' * (n + 1) + j') div (n + 1) = i'"
    using assms by (simp_all add: div_mult_self3 del: mult_Suc_right)
  with eq show "i = i' \<and> j = j'"
    by auto
qed simp

definition flat_get :: "nat \<Rightarrow> 'a list \<Rightarrow> nat \<times> nat \<Rightarrow> 'a" where
  "flat_get n table p = table ! (fst p * (n + 1) + snd p)"

definition flat_put :: "nat \<Rightarrow> 'a list \<Rightarrow> nat \<times> nat \<Rightarrow> 'a \<Rightarrow> 'a list" where
  "flat_put n table p x = table[fst p * (n + 1) + snd p := x]"

lemma length_flat_put [simp]: "length (flat_put n table p x) = length table"
  by (simp add: flat_put_def)

lemma flat_get_put:
  assumes "length table = (m + 1) * (n + 1)" and "i \<le> m" and "j \<le> n" and "j' \<le> n"
  shows "flat_get n (flat_put n table (i, j) x) (i', j')
    = (if i' = i \<and> j' = j then x else flat_get n table (i', j'))"
proof -
  have "i * (n + 1) + j < length table"
    using flat_index_less assms by metis
  moreover have "i * (n + 1) + j = i' * (n + 1) + j' \<longleftrightarrow> i = i' \<and> j = j'"
    using assms(3,4) by (rule flat_index_eq)
  ultimately show ?thesis
    unfolding flat_get_def flat_put_def fst_conv snd_conv
    by (cases "i = i' \<and> j = j'") (metis nth_list_update_eq, metis nth_list_update_neq)
qed

lemma flat_get_replicate:
  assumes "fst p \<le> m" and "snd p \<le> n"
  shows "flat_get n (replicate ((m + 1) * (n + 1)) x) p = x"
  unfolding flat_get_def using flat_index_less [OF assms] by (rule nth_replicate)

end
