(* ===== verification/Git_Token_Diff.thy ===== *)
theory Git_Token_Diff
  imports Git_Intra_Line Table_Fill
begin

text \<open>
  What the token diff of two paired lines computes: tokens partition a line, the matrix of the code
  holds the (saturated) lengths of longest common subsequences, the walk through it is such a
  subsequence, and the bytes outside the reported ranges are the same on both sides.
\<close>

section \<open>Tokens partition the line\<close>

fun token_chain :: "nat \<Rightarrow> line_token list \<Rightarrow> nat \<Rightarrow> bool" where
  "token_chain a [] b = (a = b)"
| "token_chain a (t # ts) b = (tk_start t = a \<and> a < tk_end t \<and> token_chain (tk_end t) ts b)"

lemma take_while_from_le: "e \<le> length line \<Longrightarrow> take_while_from line e predicate \<le> length line"
  by (induction line e predicate rule: take_while_from.induct) (subst take_while_from.simps, auto)

lemma token_end_le: "start < length line \<Longrightarrow> token_end line start \<le> length line"
  using take_while_from_le [of "start + 1" line]
  by (auto simp: token_end_def take_while_def Let_def)

lemma tokenize_from_chain:
  "start \<le> length line \<Longrightarrow> token_chain start (tokenize_from line start) (length line)"
proof (induction line start rule: tokenize_from.induct)
  case (1 line start)
  then show ?case
    using token_end_gt [of start line] token_end_le [of start line]
    by (subst tokenize_from.simps) auto
qed

lemma tokenize_chain: "token_chain 0 (tokenize line) (length line)"
  by (simp add: tokenize_def tokenize_from_chain)

lemma token_chain_le: "token_chain a ts b \<Longrightarrow> a + length ts \<le> b"
  by (induction a ts b rule: token_chain.induct) auto

lemma length_tokenize: "length (tokenize line) \<le> length line"
  using token_chain_le [OF tokenize_chain [of line]] by simp

definition token_pos :: "line_token list \<Rightarrow> nat \<Rightarrow> nat \<Rightarrow> nat" where
  "token_pos ts b k = (if k < length ts then tk_start (ts ! k) else b)"

lemma token_chain_nth:
  assumes "token_chain a ts b" and "k < length ts"
  shows "tk_end (ts ! k) = token_pos ts b (Suc k)" and "tk_start (ts ! k) < tk_end (ts ! k)"
    and "tk_end (ts ! k) \<le> b"
proof -
  have "tk_end (ts ! k) = token_pos ts b (Suc k) \<and> tk_start (ts ! k) < tk_end (ts ! k)
      \<and> tk_end (ts ! k) \<le> b"
    using assms
  proof (induction a ts b arbitrary: k rule: token_chain.induct)
    case (2 a t ts b)
    show ?case
    proof (cases k)
      case 0
      then show ?thesis
        using "2.prems" token_chain_le [of "tk_end t" ts b] by (cases ts) (auto simp: token_pos_def)
    next
      case (Suc k')
      then show ?thesis
        using "2.IH" [of k'] "2.prems" by (auto simp: token_pos_def)
    qed
  qed simp
  then show "tk_end (ts ! k) = token_pos ts b (Suc k)" and "tk_start (ts ! k) < tk_end (ts ! k)"
    and "tk_end (ts ! k) \<le> b"
    by auto
qed

lemma token_pos_Suc:
  assumes "token_chain a ts b" and "k < length ts"
  shows "token_pos ts b k < token_pos ts b (Suc k)" and "token_pos ts b (Suc k) \<le> b"
  using token_chain_nth [OF assms] assms(2) by (auto simp: token_pos_def)

lemma token_pos_mono:
  assumes "token_chain a ts b" and "k \<le> l" and "l \<le> length ts"
  shows "token_pos ts b k \<le> token_pos ts b l"
  using assms(2,3)
proof (induction l)
  case (Suc l)
  then show ?case
    using token_pos_Suc [OF assms(1), of l] by (cases "k = Suc l") auto
qed simp

definition token_text :: "string \<Rightarrow> line_token \<Rightarrow> string" where
  "token_text line t = slice_of line (tk_start t) (tk_end t)"

section \<open>Erasing ranges\<close>

fun kept_bytes :: "string \<Rightarrow> nat \<Rightarrow> intra_line_range list \<Rightarrow> string" where
  "kept_bytes content cursor [] = drop cursor content"
| "kept_bytes content cursor (r # ranges) =
     slice_of content cursor (range_start r) @ kept_bytes content (range_end r) ranges"

text \<open>Ranges in order, non-empty, inside the line, and never touching each other.\<close>

fun ranges_ok :: "nat \<Rightarrow> nat \<Rightarrow> intra_line_range list \<Rightarrow> bool" where
  "ranges_ok lo hi [] = True"
| "ranges_ok lo hi (r # ranges) =
     (lo \<le> range_start r \<and> range_start r < range_end r \<and> range_end r \<le> hi
      \<and> ranges_ok (Suc (range_end r)) hi ranges)"

lemma ranges_ok_mono: "ranges_ok lo hi ranges \<Longrightarrow> lo' \<le> lo \<Longrightarrow> ranges_ok lo' hi ranges"
  by (cases ranges) auto

lemma slice_of_append:
  assumes "a \<le> b" and "b \<le> c"
  shows "slice_of xs a c = slice_of xs a b @ slice_of xs b c"
proof -
  have "drop b xs = drop (b - a) (drop a xs)" and "c - a = (b - a) + (c - b)"
    using assms by simp_all
  then show ?thesis
    by (simp only: slice_of_def take_add)
qed

lemma kept_bytes_advance:
  assumes "ranges_ok b hi ranges" and "a \<le> b" and "b \<le> length content"
  shows "kept_bytes content a ranges = slice_of content a b @ kept_bytes content b ranges"
proof (cases ranges)
  case Nil
  have "drop b content = drop (b - a) (drop a content)"
    using assms(2) by simp
  with Nil show ?thesis
    by (simp only: kept_bytes.simps slice_of_def append_take_drop_id)
next
  case (Cons r rs)
  then show ?thesis
    using assms slice_of_append [of a b "range_start r" content] by auto
qed

lemma slice_of_empty [simp]: "slice_of xs a a = []"
  by (simp add: slice_of_def)

lemma unmatched_ranges_from_append:
  "unmatched_ranges_from tokens cursor ranges matched
   = ranges @ unmatched_ranges_from tokens cursor [] matched"
  by (induction matched arbitrary: cursor ranges)
    (simp add: push_unmatched_range_def, metis append.assoc append.left_neutral push_unmatched_range_def
      unmatched_ranges_from.simps(2))

text \<open>Matched tokens in increasing order.\<close>

fun increasing_from :: "nat \<Rightarrow> nat \<Rightarrow> nat list \<Rightarrow> bool" where
  "increasing_from lo hi [] = (lo \<le> hi)"
| "increasing_from lo hi (m # ms) = (lo \<le> m \<and> m < hi \<and> increasing_from (Suc m) hi ms)"

lemma increasing_from_le: "increasing_from lo hi ms \<Longrightarrow> lo \<le> hi"
  by (cases ms) auto

lemma unmatched_ranges_from_ok:
  assumes "token_chain 0 ts (length content)" and "increasing_from cursor (length ts) matched"
  shows "ranges_ok (token_pos ts (length content) cursor) (length content)
      (unmatched_ranges_from ts cursor [] matched)
    \<and> kept_bytes content (token_pos ts (length content) cursor)
        (unmatched_ranges_from ts cursor [] matched)
      = concat (map (\<lambda>m. token_text content (ts ! m)) matched)"
  using assms(2)
proof (induction matched arbitrary: cursor)
  case Nil
  show ?case
  proof (cases "cursor < length ts")
    case True
    let ?last = "length ts - 1"
    have "tk_end (ts ! ?last) = length content"
      using token_chain_nth(1) [OF assms(1), of ?last] True by (auto simp: token_pos_def)
    moreover have "token_pos ts (length content) cursor < length content"
      using token_pos_Suc [OF assms(1) True] by simp
    ultimately show ?thesis
      using True by (simp add: push_unmatched_range_def token_pos_def)
  qed (simp add: push_unmatched_range_def token_pos_def)
next
  case (Cons m matched)
  let ?pos = "token_pos ts (length content)"
  let ?rest = "unmatched_ranges_from ts (Suc m) [] matched"
  have m: "cursor \<le> m" "m < length ts" and rest: "increasing_from (Suc m) (length ts) matched"
    using Cons.prems by auto
  note IH = Cons.IH [OF rest]
  have pos: "?pos m < ?pos (Suc m)" "?pos (Suc m) \<le> length content"
    using token_pos_Suc [OF assms(1) m(2)] by auto
  have here: "kept_bytes content (?pos m) ?rest
      = concat (map (\<lambda>m. token_text content (ts ! m)) (m # matched))"
  proof -
    have "slice_of content (?pos m) (?pos (Suc m)) = token_text content (ts ! m)"
      using token_chain_nth(1) [OF assms(1) m(2)] m(2) by (simp add: token_text_def token_pos_def)
    with IH pos show ?thesis
      using kept_bytes_advance [of "?pos (Suc m)" "length content" ?rest "?pos m" content] by simp
  qed
  have unfold: "unmatched_ranges_from ts cursor [] (m # matched)
      = push_unmatched_range [] ts cursor m @ ?rest"
    using unmatched_ranges_from_append [of ts "m + 1" "push_unmatched_range [] ts cursor m" matched]
    by simp
  show ?case
  proof (cases "cursor < m")
    case True
    let ?r = "\<lparr>range_start = ?pos cursor, range_end = ?pos m\<rparr>"
    have "?pos cursor < ?pos m"
      using token_pos_Suc(1) [OF assms(1), of cursor] token_pos_mono [OF assms(1), of "Suc cursor" m]
        True m(2) by simp
    moreover have "push_unmatched_range [] ts cursor m = [?r]"
      using True m(2) token_chain_nth(1) [OF assms(1), of "m - 1"]
      by (simp add: push_unmatched_range_def token_pos_def)
    ultimately show ?thesis
      unfolding unfold using IH pos here ranges_ok_mono [of "?pos (Suc m)" "length content" ?rest]
      by simp
  next
    case False
    then show ?thesis
      unfolding unfold using m IH pos here ranges_ok_mono [of "?pos (Suc m)" "length content" ?rest]
      by (simp add: push_unmatched_range_def)
  qed
qed

lemma unmatched_ranges_ok:
  assumes "token_chain 0 ts (length content)" and "increasing_from 0 (length ts) matched"
  shows "ranges_ok 0 (length content) (unmatched_ranges ts matched)"
    and "kept_bytes content 0 (unmatched_ranges ts matched)
      = concat (map (\<lambda>m. token_text content (ts ! m)) matched)"
proof -
  have "token_pos ts (length content) 0 = 0"
    using assms(1) by (cases ts) (auto simp: token_pos_def)
  then show "ranges_ok 0 (length content) (unmatched_ranges ts matched)"
    and "kept_bytes content 0 (unmatched_ranges ts matched)
      = concat (map (\<lambda>m. token_text content (ts ! m)) matched)"
    using unmatched_ranges_from_ok [OF assms] by (auto simp: unmatched_ranges_def)
qed

section \<open>Longest common subsequences\<close>

fun lcs_len :: "'a list \<Rightarrow> 'a list \<Rightarrow> nat" where
  "lcs_len [] ys = 0"
| "lcs_len (x # xs) [] = 0"
| "lcs_len (x # xs) (y # ys) =
     (if x = y then Suc (lcs_len xs ys) else max (lcs_len xs (y # ys)) (lcs_len (x # xs) ys))"

lemma lcs_len_Nil2 [simp]: "lcs_len xs [] = 0"
  by (cases xs) auto

lemma lcs_len_le: "lcs_len xs ys \<le> length xs"
  by (induction xs ys rule: lcs_len.induct) auto

text \<open>No common subsequence is longer.\<close>

lemma subseq_le_lcs_len: "subseq zs xs \<Longrightarrow> subseq zs ys \<Longrightarrow> length zs \<le> lcs_len xs ys"
proof (induction xs ys arbitrary: zs rule: lcs_len.induct)
  case (3 x xs y ys)
  show ?case
  proof (cases zs)
    case (Cons z zs')
    show ?thesis
    proof (cases "x = y")
      case True
      have "subseq zs' xs" "subseq zs' ys"
        using "3.prems" unfolding Cons by (auto intro: subseq_Cons' split: if_splits)
      then have "length zs' \<le> lcs_len xs ys"
        using "3.IH"(1) True by blast
      with True Cons show ?thesis
        by simp
    next
      case False
      then have "subseq zs xs \<or> subseq zs ys"
        using "3.prems" unfolding Cons by (auto split: if_splits)
      then have "length zs \<le> lcs_len xs (y # ys) \<or> length zs \<le> lcs_len (x # xs) ys"
        using "3.IH"(2,3) "3.prems" False by blast
      with False show ?thesis
        by auto
    qed
  qed simp
qed auto

section \<open>The matrix of the code\<close>

definition saturated :: "nat \<Rightarrow> u16" where
  "saturated n = word_of_nat (min n 65535)"

lemma unat_saturated: "unat (saturated n) = min n 65535"
  by (simp add: saturated_def unat_of_nat min_def)

lemma saturated_Suc: "saturating_add (saturated n) 1 = saturated (Suc n)"
  by (simp add: word_unat_eq_iff unat_saturating_add unat_saturated)

lemma saturated_le: "saturated m \<le> saturated n \<longleftrightarrow> min m 65535 \<le> min n 65535"
  by (simp add: word_le_nat_alt unat_saturated)

lemma saturated_max: "max (saturated m) (saturated n) = saturated (max m n)"
  by (auto simp: max_def saturated_le word_unat_eq_iff unat_saturated min_def)

definition texts :: "string \<Rightarrow> line_token list \<Rightarrow> string list" where
  "texts line tokens = map (token_text line) tokens"

lemma length_texts [simp]: "length (texts line tokens) = length tokens"
  by (simp add: texts_def)

definition lcs_cell :: "string \<Rightarrow> line_token list \<Rightarrow> string \<Rightarrow> line_token list \<Rightarrow> nat \<times> nat \<Rightarrow> u16" where
  "lcs_cell old old_tokens new new_tokens p =
     saturated (lcs_len (drop (fst p) (texts old old_tokens)) (drop (snd p) (texts new new_tokens)))"

lemma drop_texts:
  "i < length tokens \<Longrightarrow>
   drop i (texts line tokens) = token_text line (tokens ! i) # drop (Suc i) (texts line tokens)"
  using Cons_nth_drop_Suc [of i "texts line tokens"] by (simp add: texts_def)

lemma lcs_cell_step:
  assumes "i < length old_tokens" and "j < length new_tokens"
  shows "lcs_cell old old_tokens new new_tokens (i, j) =
    (if tokens_equal old (old_tokens ! i) new (new_tokens ! j)
     then saturating_add (lcs_cell old old_tokens new new_tokens (i + 1, j + 1)) 1
     else max (lcs_cell old old_tokens new new_tokens (i + 1, j))
            (lcs_cell old old_tokens new new_tokens (i, j + 1)))"
  using assms
  by (simp add: lcs_cell_def drop_texts saturated_Suc saturated_max tokens_equal_def
      token_text_def [symmetric])

lemma lengths_cell_flat:
  "lengths_cell old old_tokens new new_tokens lengths (i, j) =
     flat_put (length new_tokens) lengths (i, j)
       (if tokens_equal old (old_tokens ! i) new (new_tokens ! j)
        then saturating_add (flat_get (length new_tokens) lengths (i + 1, j + 1)) 1
        else max (flat_get (length new_tokens) lengths (i + 1, j))
               (flat_get (length new_tokens) lengths (i, j + 1)))"
  by (simp only: lengths_cell_def flat_get_def flat_put_def Let_def prod.case fst_conv snd_conv
      add.assoc)

interpretation lcs_table: table_fill
  "\<lambda>lengths. length lengths = (length old_tokens + 1) * (length new_tokens + 1)"
  "flat_get (length new_tokens)"
  "lengths_cell old old_tokens new new_tokens"
  "lcs_cell old old_tokens new new_tokens"
  "{(i, j). i < length old_tokens \<and> j < length new_tokens}"
  "{(i, j). i \<le> length old_tokens \<and> j \<le> length new_tokens}"
  lower_right
  for old new :: string and old_tokens new_tokens :: "line_token list"
proof unfold_locales
  fix lengths :: "u16 list" and p :: "nat \<times> nat"
  assume ok: "length lengths = (length old_tokens + 1) * (length new_tokens + 1)"
    and p: "p \<in> {(i, j). i < length old_tokens \<and> j < length new_tokens}"
  show "length (lengths_cell old old_tokens new new_tokens lengths p)
      = (length old_tokens + 1) * (length new_tokens + 1)"
    using ok by (cases p) (simp only: lengths_cell_flat length_flat_put)
  show "flat_get (length new_tokens) (lengths_cell old old_tokens new new_tokens lengths p) q
      = flat_get (length new_tokens) lengths q"
    if "q \<in> {(i, j). i \<le> length old_tokens \<and> j \<le> length new_tokens}" and "q \<noteq> p" for q
    using ok p that by (cases p; cases q) (auto simp: lengths_cell_flat flat_get_put)
  show "flat_get (length new_tokens) (lengths_cell old old_tokens new new_tokens lengths p) p
      = lcs_cell old old_tokens new new_tokens p"
    if "\<And>q. q \<in> lower_right p \<Longrightarrow>
      flat_get (length new_tokens) lengths q = lcs_cell old old_tokens new new_tokens q"
    using ok p that
    by (cases p) (simp add: lengths_cell_flat flat_get_put lcs_cell_step lower_right_def)
qed auto

lemma lengths_table_get:
  assumes "i \<le> length old_tokens" and "j \<le> length new_tokens"
  shows "lengths_table old old_tokens new new_tokens ! (i * (length new_tokens + 1) + j)
    = lcs_cell old old_tokens new new_tokens (i, j)"
proof -
  let ?m = "length old_tokens" and ?n = "length new_tokens"
  let ?known = "{(i, j). i = ?m \<and> j \<le> ?n \<or> i \<le> ?m \<and> j = ?n}"
  let ?ps = "List.product (rev [0..<?m]) (rev [0..<?n])"
  let ?start = "replicate ((?m + 1) * (?n + 1)) (0 :: u16)"
  have "flat_get ?n ?start q = lcs_cell old old_tokens new new_tokens q" if "q \<in> ?known" for q
    using that flat_get_replicate [of q ?m ?n "0 :: u16"]
    by (auto simp: lcs_cell_def saturated_def)
  then have filled: "\<forall>q \<in> ?known \<union> set ?ps.
      flat_get ?n (foldl (lengths_cell old old_tokens new new_tokens) ?start ?ps) q
      = lcs_cell old old_tokens new new_tokens q"
    using lcs_table.fold_fills [of ?start old_tokens new_tokens ?ps ?known old new]
      fill_order_down [of ?m ?n ?known] length_replicate [of "(?m + 1) * (?n + 1)" "0 :: u16"]
    by fastforce
  have "(i, j) \<in> ?known \<union> set ?ps"
    using assms by (cases "i = ?m"; cases "j = ?n") auto
  then have "flat_get ?n (lengths_table old old_tokens new new_tokens) (i, j)
      = lcs_cell old old_tokens new new_tokens (i, j)"
    unfolding lengths_table_def foldl_nested by (rule filled [rule_format])
  then show ?thesis
    by (simp only: flat_get_def fst_conv snd_conv)
qed

section \<open>The walk through the matrix\<close>

fun increasing_pairs :: "nat \<Rightarrow> nat \<Rightarrow> nat \<Rightarrow> nat \<Rightarrow> (nat \<times> nat) list \<Rightarrow> bool" where
  "increasing_pairs i j m n [] = (i \<le> m \<and> j \<le> n)"
| "increasing_pairs i j m n ((a, b) # ps) =
     (i \<le> a \<and> j \<le> b \<and> a < m \<and> b < n \<and> increasing_pairs (Suc a) (Suc b) m n ps)"

lemma increasing_pairs_weaken:
  "increasing_pairs i j m n ps \<Longrightarrow> i' \<le> i \<Longrightarrow> j' \<le> j \<Longrightarrow> increasing_pairs i' j' m n ps"
  by (cases ps) auto

lemma increasing_pairs_fst: "increasing_pairs i j m n ps \<Longrightarrow> increasing_from i m (map fst ps)"
  by (induction i j m n ps rule: increasing_pairs.induct) auto

lemma increasing_pairs_snd: "increasing_pairs i j m n ps \<Longrightarrow> increasing_from j n (map snd ps)"
  by (induction i j m n ps rule: increasing_pairs.induct) auto

lemma token_matches_sound:
  assumes "i \<le> length old_tokens" and "j \<le> length new_tokens"
  shows "increasing_pairs i j (length old_tokens) (length new_tokens)
      (token_matches old old_tokens new new_tokens lengths i j)
    \<and> (\<forall>(a, b) \<in> set (token_matches old old_tokens new new_tokens lengths i j).
        token_text old (old_tokens ! a) = token_text new (new_tokens ! b))"
  using assms
proof (induction old old_tokens new new_tokens lengths i j rule: token_matches.induct)
  case (1 old old_tokens new new_tokens lengths i j)
  let ?rest = "token_matches old old_tokens new new_tokens lengths"
  let ?good = "\<lambda>i j ms. increasing_pairs i j (length old_tokens) (length new_tokens) ms
    \<and> (\<forall>(a, b) \<in> set ms. token_text old (old_tokens ! a) = token_text new (new_tokens ! b))"
  have weaken: "?good i j ms" if "?good i' j' ms" "i \<le> i'" "j \<le> j'" for i' j' ms
    using that increasing_pairs_weaken by blast
  consider (stop) "?rest i j = []"
    | (both) "i < length old_tokens" "j < length new_tokens"
        "tokens_equal old (old_tokens ! i) new (new_tokens ! j)"
        "?rest i j = (i, j) # ?rest (i + 1) (j + 1)" "?good (i + 1) (j + 1) (?rest (i + 1) (j + 1))"
    | (old) "?rest i j = ?rest (i + 1) j" "?good (i + 1) j (?rest (i + 1) j)"
    | (new) "?rest i j = ?rest i (j + 1)" "?good i (j + 1) (?rest i (j + 1))"
    using "1.IH" "1.prems" token_matches.simps [of old old_tokens new new_tokens lengths i j]
    unfolding Let_def Suc_eq_plus1 [symmetric] Suc_le_eq by (metis less_imp_le_nat)
  then show ?case
  proof cases
    case stop
    then show ?thesis
      using "1.prems" by simp
  next
    case both
    then show ?thesis
      by (simp add: tokens_equal_def token_text_def)
  next
    case old
    then show ?thesis
      using weaken [of "i + 1" j "?rest (i + 1) j"] by simp
  next
    case new
    then show ?thesis
      using weaken [of i "j + 1" "?rest i (j + 1)"] by simp
  qed
qed

lemma token_matches_length:
  assumes "i \<le> length old_tokens" and "j \<le> length new_tokens"
    and "lengths = lengths_table old old_tokens new new_tokens" and "length old_tokens < 65535"
  shows "length (token_matches old old_tokens new new_tokens lengths i j)
    = lcs_len (drop i (texts old old_tokens)) (drop j (texts new new_tokens))"
  using assms(1,2)
proof (induction "(length old_tokens - i) + (length new_tokens - j)" arbitrary: i j
    rule: less_induct)
  case less
  show ?case
  proof (cases "i < length old_tokens \<and> j < length new_tokens")
    case False
    then have "drop i (texts old old_tokens) = [] \<or> drop j (texts new new_tokens) = []"
      using less.prems by auto
    with False show ?thesis
      by (subst token_matches.simps) auto
  next
    case True
    let ?o = "texts old old_tokens" and ?n = "texts new new_tokens"
    let ?l = "\<lambda>i j. lcs_len (drop i ?o) (drop j ?n)"
    have bound: "?l i j < 65535" for i j
      using lcs_len_le [of "drop i ?o" "drop j ?n"] assms(4) by simp
    have cells: "lengths ! (i * (length new_tokens + 1) + j) = saturated (?l i j)"
      "lengths ! ((i + 1) * (length new_tokens + 1) + j + 1) = saturated (?l (Suc i) (Suc j))"
      "lengths ! ((i + 1) * (length new_tokens + 1) + j) = saturated (?l (Suc i) j)"
      "lengths ! (i * (length new_tokens + 1) + j + 1) = saturated (?l i (Suc j))"
      using True lengths_table_get [of i old_tokens j new_tokens old new]
        lengths_table_get [of "Suc i" old_tokens "Suc j" new_tokens old new]
        lengths_table_get [of "Suc i" old_tokens j new_tokens old new]
        lengths_table_get [of i old_tokens "Suc j" new_tokens old new] assms(3)
      by (simp_all add: lcs_cell_def)
    have order: "saturated (?l a b) \<le> saturated (?l c d) \<longleftrightarrow> ?l a b \<le> ?l c d" for a b c d
      using bound [of a b] bound [of c d] by (simp add: saturated_le)
    let ?rest = "token_matches old old_tokens new new_tokens lengths"
    have smaller: "(length old_tokens - (i + 1)) + (length new_tokens - j)
        < (length old_tokens - i) + (length new_tokens - j)"
      "(length old_tokens - i) + (length new_tokens - (j + 1))
        < (length old_tokens - i) + (length new_tokens - j)"
      "(length old_tokens - (i + 1)) + (length new_tokens - (j + 1))
        < (length old_tokens - i) + (length new_tokens - j)"
      using True by linarith+
    have step: "?rest i j =
      (if tokens_equal old (old_tokens ! i) new (new_tokens ! j)
          \<and> saturated (?l i j) = saturated (Suc (?l (Suc i) (Suc j)))
       then (i, j) # ?rest (i + 1) (j + 1)
       else if saturated (?l i (Suc j)) \<le> saturated (?l (Suc i) j) then ?rest (i + 1) j
       else ?rest i (j + 1))"
      using True
      by (subst token_matches.simps) (simp only: Let_def cells saturated_Suc if_True simp_thms)
    show ?thesis
    proof (cases "tokens_equal old (old_tokens ! i) new (new_tokens ! j)")
      case equal: True
      then have l: "?l i j = Suc (?l (Suc i) (Suc j))"
        using True by (simp add: drop_texts tokens_equal_def token_text_def)
      then have "?rest i j = (i, j) # ?rest (i + 1) (j + 1)"
        using equal by (simp only: step simp_thms if_True)
      moreover have "length (?rest (i + 1) (j + 1)) = ?l (Suc i) (Suc j)"
        using less.hyps [of "i + 1" "j + 1", OF smaller(3)] True by simp
      ultimately show ?thesis
        using l by simp
    next
      case differ: False
      then have l: "?l i j = max (?l (Suc i) j) (?l i (Suc j))"
        using True by (simp add: drop_texts tokens_equal_def token_text_def)
      have "length (?rest (i + 1) j) = ?l (Suc i) j" and "length (?rest i (j + 1)) = ?l i (Suc j)"
        using less.hyps [of "i + 1" j, OF smaller(1)] less.hyps [of i "j + 1", OF smaller(2)] True
        by simp_all
      then show ?thesis
        unfolding step using differ l order [of i "Suc j" "Suc i" j] by (simp add: max_def)
    qed
  qed
qed

section \<open>The ranges of a pair\<close>

definition matched_texts :: "string \<Rightarrow> line_token list \<Rightarrow> nat list \<Rightarrow> string list" where
  "matched_texts line tokens matched = map (\<lambda>m. token_text line (tokens ! m)) matched"

lemma matched_texts_subseq:
  assumes "increasing_from lo (length tokens) matched"
  shows "subseq (matched_texts line tokens matched) (drop lo (texts line tokens))"
  using assms
proof (induction matched arbitrary: lo)
  case Nil
  then show ?case
    by (simp add: matched_texts_def)
next
  case (Cons m matched)
  have "drop lo (texts line tokens) = take (m - lo) (drop lo (texts line tokens))
      @ token_text line (tokens ! m) # drop (Suc m) (texts line tokens)"
    using Cons.prems append_take_drop_id [of "m - lo" "drop lo (texts line tokens)"]
      drop_texts [of m tokens line] by (simp del: append_take_drop_id)
  moreover have "subseq (matched_texts line tokens matched) (drop (Suc m) (texts line tokens))"
    using Cons by simp
  then have "subseq (matched_texts line tokens (m # matched))
      (token_text line (tokens ! m) # drop (Suc m) (texts line tokens))"
    by (simp add: matched_texts_def)
  ultimately show ?case
    by (metis subseq_drop_many)
qed

lemma changed_token_ranges_spec:
  assumes "token_chain 0 old_tokens (length old)" and "token_chain 0 new_tokens (length new)"
    and "changed_token_ranges old old_tokens new new_tokens = (old_ranges, new_ranges)"
  shows "ranges_ok 0 (length old) old_ranges" and "ranges_ok 0 (length new) new_ranges"
    and "\<exists>kept. kept_bytes old 0 old_ranges = concat kept \<and> kept_bytes new 0 new_ranges = concat kept
      \<and> subseq kept (texts old old_tokens) \<and> subseq kept (texts new new_tokens)
      \<and> (length old_tokens < 65535 \<longrightarrow>
          length kept = lcs_len (texts old old_tokens) (texts new new_tokens))"
proof -
  let ?ms = "token_matches old old_tokens new new_tokens
    (lengths_table old old_tokens new new_tokens) 0 0"
  let ?kept = "matched_texts old old_tokens (map fst ?ms)"
  have ranges: "old_ranges = unmatched_ranges old_tokens (map fst ?ms)"
    "new_ranges = unmatched_ranges new_tokens (map snd ?ms)"
    using assms(3) by (auto simp: changed_token_ranges_def Let_def)
  have inc: "increasing_pairs 0 0 (length old_tokens) (length new_tokens) ?ms"
    and same: "\<forall>(a, b) \<in> set ?ms. token_text old (old_tokens ! a) = token_text new (new_tokens ! b)"
    using token_matches_sound [of 0 old_tokens 0 new_tokens old new] by auto
  note inc_old = increasing_pairs_fst [OF inc] and inc_new = increasing_pairs_snd [OF inc]
  show "ranges_ok 0 (length old) old_ranges" and "ranges_ok 0 (length new) new_ranges"
    unfolding ranges using unmatched_ranges_ok(1) assms(1,2) inc_old inc_new by blast+
  have "matched_texts new new_tokens (map snd ?ms) = ?kept"
    using same by (auto simp: matched_texts_def)
  moreover have "kept_bytes old 0 old_ranges = concat ?kept"
    and "kept_bytes new 0 new_ranges = concat (matched_texts new new_tokens (map snd ?ms))"
    unfolding ranges matched_texts_def
    using unmatched_ranges_ok(2) [OF assms(1) inc_old] unmatched_ranges_ok(2) [OF assms(2) inc_new]
    by simp_all
  moreover have "subseq ?kept (texts old old_tokens)"
    and "subseq (matched_texts new new_tokens (map snd ?ms)) (texts new new_tokens)"
    using matched_texts_subseq [OF inc_old, of old] matched_texts_subseq [OF inc_new, of new]
    by simp_all
  moreover have "length old_tokens < 65535 \<longrightarrow>
      length ?kept = lcs_len (texts old old_tokens) (texts new new_tokens)"
    using token_matches_length [of 0 old_tokens 0 new_tokens _ old new]
    by (simp add: matched_texts_def)
  ultimately show "\<exists>kept. kept_bytes old 0 old_ranges = concat kept
      \<and> kept_bytes new 0 new_ranges = concat kept
      \<and> subseq kept (texts old old_tokens) \<and> subseq kept (texts new new_tokens)
      \<and> (length old_tokens < 65535 \<longrightarrow>
          length kept = lcs_len (texts old old_tokens) (texts new new_tokens))"
    by metis
qed

lemma increasing_from_upt: "a \<le> n \<Longrightarrow> increasing_from a n [a..<n]"
proof (induction "n - a" arbitrary: a)
  case (Suc k)
  then have "[a..<n] = a # [Suc a..<n]" and "increasing_from (Suc a) n [Suc a..<n]"
    by (simp_all add: upt_conv_Cons)
  with Suc show ?case
    by simp
qed simp

lemma unmatched_ranges_upt:
  "c \<le> length ts \<Longrightarrow> unmatched_ranges_from ts c [] [c..<length ts] = []"
proof (induction "length ts - c" arbitrary: c)
  case (Suc k)
  then have "[c..<length ts] = c # [Suc c..<length ts]"
    and "unmatched_ranges_from ts (Suc c) [] [Suc c..<length ts] = []"
    by (simp_all add: upt_conv_Cons)
  then show ?case
    by (simp add: push_unmatched_range_def)
qed (simp add: push_unmatched_range_def)

lemma concat_texts: "concat (texts line (tokenize line)) = line"
proof -
  let ?ts = "tokenize line"
  have "kept_bytes line 0 (unmatched_ranges ?ts [0..<length ?ts])
      = concat (map (\<lambda>m. token_text line (?ts ! m)) [0..<length ?ts])"
    using unmatched_ranges_ok(2) [OF tokenize_chain increasing_from_upt [of 0]] by simp
  moreover have "map (\<lambda>m. token_text line (?ts ! m)) [0..<length ?ts] = texts line ?ts"
    by (rule nth_equalityI) (simp_all add: texts_def)
  moreover have "unmatched_ranges ?ts [0..<length ?ts] = []"
    using unmatched_ranges_upt [of 0 ?ts] by (simp only: unmatched_ranges_def)
  ultimately show ?thesis
    by (simp only: kept_bytes.simps drop_0)
qed

end
