(* ===== verification/Git_Pairing.thy ===== *)
theory Git_Pairing
  imports Git_Token_Diff
begin

text \<open>
  What the line alignment of a run computes: the flat matrices of the code are a recursion over
  prefixes, the traceback always finds its way, and the pairs it reports have, among all pairings
  that keep the order and pair only eligible lines, the greatest total similarity and, with that,
  the greatest number of pairs.
\<close>

section \<open>Similarity is per mille\<close>

lemma equal_count_le: "equal_count xs ys \<le> min (length xs) (length ys)"
  using length_takeWhile_le [of "\<lambda>(x, y). x = y" "zip xs ys"] by (simp add: equal_count_def)

lemma line_similarity_le: "line_similarity old new \<le> 1000"
proof -
  let ?o = "line_body old" and ?n = "line_body new"
  define p where "p = equal_count ?o ?n"
  define av where "av = min (length ?o) (length ?n) - p"
  define q where "q = equal_count (rev (drop (length ?o - av) ?o)) (rev (drop (length ?n - av) ?n))"
  have "p \<le> min (length ?o) (length ?n)"
    unfolding p_def by (rule equal_count_le)
  moreover have "q \<le> av"
    using equal_count_le [of "rev (drop (length ?o - av) ?o)" "rev (drop (length ?n - av) ?n)"]
    unfolding q_def av_def by simp
  ultimately have "p + q \<le> min (length ?o) (length ?n)"
    unfolding av_def by linarith
  then have sum: "2 * (p + q) \<le> length ?o + length ?n"
    by simp
  have "usize_mul (usize_add p q) 2000 div usize_add (length ?o) (length ?n) \<le> 1000"
  proof (cases "length ?o + length ?n < 2 ^ 64")
    case True
    then have divisor: "usize_add (length ?o) (length ?n) = length ?o + length ?n"
      by (simp add: usize_add_def)
    have "usize_mul (usize_add p q) 2000 \<le> usize_add p q * 2000" and "usize_add p q \<le> p + q"
      by (simp_all add: usize_mul_def usize_add_def)
    then have "usize_mul (usize_add p q) 2000 \<le> (p + q) * 2000"
      by (meson mult_le_mono1 order_trans)
    also have "\<dots> \<le> 1000 * (length ?o + length ?n)"
      using sum by simp
    finally have "usize_mul (usize_add p q) 2000 div (length ?o + length ?n)
        \<le> 1000 * (length ?o + length ?n) div (length ?o + length ?n)"
      by (rule div_le_mono)
    also have "\<dots> \<le> 1000"
      by (cases "length ?o + length ?n = 0") (simp, metis nonzero_mult_div_cancel_right order_refl)
    finally show ?thesis
      unfolding divisor .
  next
    case False
    then have "usize_add (length ?o) (length ?n) = 2 ^ 64 - 1"
      by (simp add: usize_add_def)
    moreover have "usize_mul (usize_add p q) 2000 \<le> 2 ^ 64 - 1"
      by (simp add: usize_mul_def)
    ultimately have "usize_mul (usize_add p q) 2000 div usize_add (length ?o) (length ?n)
        \<le> (2 ^ 64 - 1) div (2 ^ 64 - 1)"
      by (simp only: div_le_mono)
    then show ?thesis
      by simp
  qed
  then show ?thesis
    by (simp add: line_similarity_def per_mille_def Let_def p_def av_def q_def)
qed

section \<open>The matrices as a recursion over prefixes\<close>

fun best_at :: "(nat \<Rightarrow> nat \<Rightarrow> nat) \<Rightarrow> nat \<Rightarrow> nat \<Rightarrow> nat \<Rightarrow> nat \<Rightarrow> u64 \<times> u8" where
  "best_at sim m n 0 j = (0, 0)"
| "best_at sim m n (Suc i) 0 = (0, 0)"
| "best_at sim m n (Suc i) (Suc j) =
     (let above = fst (best_at sim m n i (Suc j));
          left = fst (best_at sim m n (Suc i) j);
          (best, direction) = (if left \<le> above then (above, 1) else (left, 2));
          paired = saturating_add
                     (saturating_add (fst (best_at sim m n i j))
                        (saturating_mul (word_of_nat (sim (Suc i) (Suc j)))
                           (word_of_nat (min m n) + 1))) 1
      in if eligible m n (sim (Suc i) (Suc j)) \<and> best \<le> paired then (paired, 3)
         else (best, direction))"

lemma best_at_0 [simp]: "best_at sim m n i 0 = (0, 0)"
  by (cases i) auto

definition tables_get :: "nat \<Rightarrow> alignment \<Rightarrow> nat \<times> nat \<Rightarrow> u64 \<times> u8" where
  "tables_get n tables p = (flat_get n (fst tables) p, flat_get n (snd tables) p)"

lemma align_cell_flat:
  "align_cell run lines (scores, directions) (Suc i, Suc j) =
     (let m = length (cr_deletions run); n = length (cr_additions run);
          above = flat_get n scores (i, Suc j);
          left = flat_get n scores (Suc i, j);
          (best, direction) = (if left \<le> above then (above, 1) else (left, 2));
          paired = saturating_add
                     (saturating_add (flat_get n scores (i, j))
                        (saturating_mul (word_of_nat (run_similarity run lines (Suc i) (Suc j)))
                           (word_of_nat (min m n) + 1))) 1;
          (best, direction) =
            (if eligible m n (run_similarity run lines (Suc i) (Suc j)) \<and> best \<le> paired
             then (paired, 3) else (best, direction))
      in (flat_put n scores (Suc i, Suc j) best, flat_put n directions (Suc i, Suc j) direction))"
  by (simp only: align_cell_def flat_get_def flat_put_def Let_def prod.case fst_conv snd_conv
      diff_Suc_1 add_Suc_right add_diff_cancel_right')

definition run_tables_ok :: "changed_run \<Rightarrow> alignment \<Rightarrow> bool" where
  "run_tables_ok run tables \<longleftrightarrow>
     length (fst tables) = (length (cr_deletions run) + 1) * (length (cr_additions run) + 1)
     \<and> length (snd tables) = (length (cr_deletions run) + 1) * (length (cr_additions run) + 1)"

interpretation align_table: table_fill
  "run_tables_ok run"
  "tables_get (length (cr_additions run))"
  "align_cell run lines"
  "\<lambda>p. best_at (run_similarity run lines) (length (cr_deletions run)) (length (cr_additions run))
         (fst p) (snd p)"
  "{(i, j). 0 < i \<and> i \<le> length (cr_deletions run) \<and> 0 < j \<and> j \<le> length (cr_additions run)}"
  "{(i, j). i \<le> length (cr_deletions run) \<and> j \<le> length (cr_additions run)}"
  upper_left
  for run :: changed_run and lines :: "diff_line list"
proof unfold_locales
  fix tables :: alignment and p :: "nat \<times> nat"
  let ?m = "length (cr_deletions run)" and ?n = "length (cr_additions run)"
  assume ok: "run_tables_ok run tables"
    and p: "p \<in> {(i, j). 0 < i \<and> i \<le> ?m \<and> 0 < j \<and> j \<le> ?n}"
  obtain scores directions where tables: "tables = (scores, directions)"
    by fastforce
  obtain i j where ij: "p = (Suc i, Suc j)" "Suc i \<le> ?m" "Suc j \<le> ?n"
    using p by (cases p) (auto simp: gr0_conv_Suc)
  have lengths: "length scores = (?m + 1) * (?n + 1)" "length directions = (?m + 1) * (?n + 1)"
    using ok by (simp_all only: run_tables_ok_def tables fst_conv snd_conv)
  show "run_tables_ok run (align_cell run lines tables p)"
    using lengths unfolding ij tables align_cell_flat Let_def run_tables_ok_def
    by (simp only: split_beta fst_conv snd_conv length_flat_put simp_thms)
  show "tables_get ?n (align_cell run lines tables p) q = tables_get ?n tables q"
    if "q \<in> {(i, j). i \<le> ?m \<and> j \<le> ?n}" and "q \<noteq> p" for q
    using that ij lengths unfolding ij tables align_cell_flat Let_def tables_get_def
    by (cases q) (auto simp: split_beta flat_get_put)
  show "tables_get ?n (align_cell run lines tables p) p
      = best_at (run_similarity run lines) ?m ?n (fst p) (snd p)"
    if known: "\<And>q. q \<in> upper_left p \<Longrightarrow>
      tables_get ?n tables q = best_at (run_similarity run lines) ?m ?n (fst q) (snd q)"
  proof -
    have "flat_get ?n scores q = fst (best_at (run_similarity run lines) ?m ?n (fst q) (snd q))"
      if "q \<in> {(i, Suc j), (Suc i, j), (i, j)}" for q
    proof -
      have "q \<in> upper_left p"
        using that by (auto simp: ij upper_left_def)
      from arg_cong [OF known [OF this], of fst] show ?thesis
        by (simp add: tables_get_def tables)
    qed
    then show ?thesis
      using ij lengths unfolding ij tables align_cell_flat Let_def tables_get_def
      by (simp add: split_beta flat_get_put Let_def)
  qed
qed auto

lemma align_tables_get:
  assumes "i \<le> length (cr_deletions run)" and "j \<le> length (cr_additions run)"
  shows "snd (align_tables run lines) ! (i * (length (cr_additions run) + 1) + j)
    = snd (best_at (run_similarity run lines) (length (cr_deletions run))
             (length (cr_additions run)) i j)"
proof -
  let ?m = "length (cr_deletions run)" and ?n = "length (cr_additions run)"
  let ?known = "{(i, j). i = 0 \<and> j \<le> ?n \<or> i \<le> ?m \<and> j = 0}"
  let ?ps = "List.product [1..<Suc ?m] [1..<Suc ?n]"
  let ?z = "(?m + 1) * (?n + 1)"
  let ?start = "(replicate ?z 0, replicate ?z 0) :: alignment"
  let ?cell = "\<lambda>p. best_at (run_similarity run lines) ?m ?n (fst p) (snd p)"
  have ok: "run_tables_ok run ?start"
    by (simp only: run_tables_ok_def fst_conv snd_conv length_replicate simp_thms)
  have inner: "set ?ps \<subseteq> {(i, j). 0 < i \<and> i \<le> ?m \<and> 0 < j \<and> j \<le> ?n}"
    by auto
  have order: "fill_order upper_left ?known ?ps"
    by (rule fill_order_up [of _ ?m]) simp_all
  have border: "tables_get ?n ?start q = ?cell q" if "q \<in> ?known" for q
    using that flat_get_replicate [of q ?m ?n "0 :: u64"] flat_get_replicate [of q ?m ?n "0 :: u8"]
    by (auto simp: tables_get_def)
  have grid: "?known \<subseteq> {(i, j). i \<le> ?m \<and> j \<le> ?n}"
    by auto
  have filled: "\<forall>q \<in> ?known \<union> set ?ps.
      tables_get ?n (foldl (align_cell run lines) ?start ?ps) q = ?cell q"
    using align_table.fold_fills [OF ok inner order border grid] by (rule conjunct2)
  have "(i, j) \<in> ?known \<union> set ?ps"
    using assms by (cases "i = 0"; cases "j = 0") auto
  then have "tables_get ?n (align_tables run lines) (i, j) = ?cell (i, j)"
    unfolding align_tables_def Let_def foldl_nested length_replicate by (rule bspec [OF filled])
  then show ?thesis
    by (simp only: tables_get_def flat_get_def fst_conv snd_conv prod_eq_iff)
qed

section \<open>Weights of alignments\<close>

text \<open>
  The recursion without the bound of 64 bits. The weight of a pair is its similarity times a
  scale that exceeds any number of pairs, plus one.
\<close>

fun opt_at :: "(nat \<Rightarrow> nat \<Rightarrow> nat) \<Rightarrow> nat \<Rightarrow> nat \<Rightarrow> nat \<Rightarrow> nat \<Rightarrow> nat" where
  "opt_at sim m n 0 j = 0"
| "opt_at sim m n (Suc i) 0 = 0"
| "opt_at sim m n (Suc i) (Suc j) =
     (let best = max (opt_at sim m n i (Suc j)) (opt_at sim m n (Suc i) j);
          paired = opt_at sim m n i j + sim (Suc i) (Suc j) * (min m n + 1) + 1
      in if eligible m n (sim (Suc i) (Suc j)) then max best paired else best)"

lemma opt_at_0 [simp]: "opt_at sim m n i 0 = 0"
  by (cases i) auto

definition weight_of :: "(nat \<Rightarrow> nat \<Rightarrow> nat) \<Rightarrow> nat \<Rightarrow> nat \<Rightarrow> (nat \<times> nat) list \<Rightarrow> nat" where
  "weight_of sim m n ps = (\<Sum>(a, b) \<leftarrow> ps. sim (Suc a) (Suc b) * (min m n + 1) + 1)"

definition aligned :: "(nat \<Rightarrow> nat \<Rightarrow> nat) \<Rightarrow> nat \<Rightarrow> nat \<Rightarrow> nat \<Rightarrow> nat \<Rightarrow> (nat \<times> nat) list \<Rightarrow> bool" where
  "aligned sim m n i j ps \<longleftrightarrow>
     increasing_pairs 0 0 i j ps \<and> (\<forall>(a, b) \<in> set ps. eligible m n (sim (Suc a) (Suc b)))"

lemma increasing_pairs_le: "increasing_pairs i j m n ps \<Longrightarrow> i \<le> m \<and> j \<le> n"
  by (induction i j m n ps rule: increasing_pairs.induct) auto

lemma increasing_pairs_snoc:
  "increasing_pairs i j m n (ps @ [(a, b)]) \<longleftrightarrow> increasing_pairs i j a b ps \<and> a < m \<and> b < n"
  by (induction i j m n ps rule: increasing_pairs.induct) (auto simp: Suc_le_eq dest: increasing_pairs_le)

lemma increasing_pairs_extend:
  "increasing_pairs i j m n ps \<Longrightarrow> m \<le> m' \<Longrightarrow> n \<le> n' \<Longrightarrow> increasing_pairs i j m' n' ps"
  by (induction i j m n ps rule: increasing_pairs.induct) auto

lemma aligned_snoc:
  "aligned sim m n i j (ps @ [(a, b)]) \<longleftrightarrow>
     aligned sim m n a b ps \<and> a < i \<and> b < j \<and> eligible m n (sim (Suc a) (Suc b))"
  by (auto simp: aligned_def increasing_pairs_snoc)

lemma aligned_extend:
  "aligned sim m n i j ps \<Longrightarrow> i \<le> i' \<Longrightarrow> j \<le> j' \<Longrightarrow> aligned sim m n i' j' ps"
  by (auto simp: aligned_def intro: increasing_pairs_extend)

lemma weight_of_snoc [simp]:
  "weight_of sim m n (ps @ [(a, b)])
   = weight_of sim m n ps + sim (Suc a) (Suc b) * (min m n + 1) + 1"
  by (simp add: weight_of_def)

lemma aligned_0: "aligned sim m n i j ps \<Longrightarrow> i = 0 \<or> j = 0 \<Longrightarrow> ps = []"
  by (cases ps rule: rev_cases) (auto simp: aligned_snoc)

text \<open>No alignment of two prefixes weighs more than the recursion says.\<close>

lemma weight_le_opt: "aligned sim m n i j ps \<Longrightarrow> weight_of sim m n ps \<le> opt_at sim m n i j"
proof (induction sim m n i j arbitrary: ps rule: opt_at.induct)
  case (1 sim m n j)
  then show ?case
    using aligned_0 [of sim m n 0 j ps] by (simp add: weight_of_def)
next
  case (2 sim m n i)
  then show ?case
    using aligned_0 [of sim m n "Suc i" 0 ps] by (simp add: weight_of_def)
next
  case (3 sim m n i j)
  show ?case
  proof (cases ps rule: rev_cases)
    case Nil
    then show ?thesis
      by (simp add: weight_of_def)
  next
    case (snoc qs q)
    obtain a b where q: "q = (a, b)"
      by fastforce
    have qs: "aligned sim m n a b qs" "a \<le> i" "b \<le> j" "eligible m n (sim (Suc a) (Suc b))"
      using "3.prems" unfolding snoc q by (simp_all add: aligned_snoc)
    consider "a = i \<and> b = j" | "a < i" | "b < j"
      using qs by linarith
    then show ?thesis
    proof cases
      case 1
      then have "weight_of sim m n qs \<le> opt_at sim m n i j"
        using "3.IH"(3) qs by auto
      with 1 qs show ?thesis
        by (simp add: snoc q Let_def)
    next
      case 2
      then have "aligned sim m n i (Suc j) ps"
        using qs by (simp add: snoc q aligned_snoc)
      then show ?thesis
        using "3.IH"(1) [of ps] by (auto simp: Let_def)
    next
      case 3
      then have "aligned sim m n (Suc i) j ps"
        using qs by (simp add: snoc q aligned_snoc)
      then show ?thesis
        using "3.IH"(2) [of ps] by (auto simp: Let_def)
    qed
  qed
qed

section \<open>No overflow below the comparison limit\<close>

lemma opt_at_bound:
  assumes "\<And>a b. sim a b \<le> 1000"
  shows "opt_at sim m n i j \<le> min i j * (1000 * (min m n + 1) + 1)"
  using assms
proof (induction sim m n i j rule: opt_at.induct)
  case (3 sim m n i j)
  let ?w = "1000 * (min m n + 1) + 1"
  have mono: "min i (Suc j) * ?w \<le> min (Suc i) (Suc j) * ?w"
    "min (Suc i) j * ?w \<le> min (Suc i) (Suc j) * ?w"
    by (intro mult_le_mono1; simp)+
  have "sim (Suc i) (Suc j) * (min m n + 1) + 1 \<le> ?w"
    by (intro add_mono mult_le_mono "3.prems" order_refl)
  moreover have "min (Suc i) (Suc j) * ?w = min i j * ?w + ?w"
    by simp
  ultimately have paired: "opt_at sim m n i j + sim (Suc i) (Suc j) * (min m n + 1) + 1
      \<le> min (Suc i) (Suc j) * ?w"
    using "3.IH"(3) "3.prems" by (simp only: add.assoc add_mono)
  have best: "max (opt_at sim m n i (Suc j)) (opt_at sim m n (Suc i) j) \<le> min (Suc i) (Suc j) * ?w"
    using "3.IH"(1,2) "3.prems" mono by (simp only: max.bounded_iff) (meson order_trans)
  show ?case
    using paired best by (simp only: opt_at.simps Let_def max.bounded_iff split: if_split) blast
qed simp_all

definition small :: "nat \<Rightarrow> nat \<Rightarrow> bool" where
  "small m n \<longleftrightarrow> m * n \<le> MAX_INTRA_LINE_COMPARISONS"

lemma small_min: "small m n \<Longrightarrow> min m n \<le> 1000"
proof (rule ccontr)
  assume "small m n" and "\<not> min m n \<le> 1000"
  then have "1001 * 1001 \<le> m * n"
    by (intro mult_le_mono) simp_all
  with \<open>small m n\<close> show False
    by (simp add: small_def MAX_INTRA_LINE_COMPARISONS_def)
qed

lemma opt_at_less:
  assumes "\<And>a b. sim a b \<le> 1000" and "small m n" and "i \<le> m" and "j \<le> n"
  shows "opt_at sim m n i j < 2 ^ 40"
proof -
  have "min i j \<le> 1000" and "min m n \<le> 1000"
    using small_min [OF assms(2)] assms(3,4) by linarith+
  then have "min i j * (1000 * (min m n + 1) + 1) \<le> 1000 * (1000 * (1000 + 1) + 1)"
    by (intro mult_le_mono add_mono) simp_all
  with opt_at_bound [of sim m n i j] assms(1) show ?thesis
    by simp
qed

definition pair_value :: "(nat \<Rightarrow> nat \<Rightarrow> nat) \<Rightarrow> nat \<Rightarrow> nat \<Rightarrow> nat \<Rightarrow> nat \<Rightarrow> u64 \<Rightarrow> u64" where
  "pair_value sim m n i j before =
     saturating_add
       (saturating_add before
          (saturating_mul (word_of_nat (sim (Suc i) (Suc j))) (word_of_nat (min m n) + 1))) 1"

lemma unat_pair_value:
  assumes "\<And>a b. sim a b \<le> 1000" and "small m n" and "unat before < 2 ^ 40"
  shows "unat (pair_value sim m n i j before)
    = unat before + sim (Suc i) (Suc j) * (min m n + 1) + 1"
proof -
  let ?s = "sim (Suc i) (Suc j)" and ?k = "min m n"
  have s: "?s \<le> 1000" and k: "?k \<le> 1000"
    using assms(1) small_min [OF assms(2)] by auto
  have "unat (word_of_nat ?s :: u64) = ?s" and "unat (word_of_nat ?k + 1 :: u64) = ?k + 1"
    using s k by (simp_all add: unat_word_ariths unat_of_nat)
  moreover have "?s * (?k + 1) \<le> 1000 * 1001"
    using s k by (intro mult_le_mono) simp_all
  ultimately show ?thesis
    using assms(3) by (simp only: pair_value_def unat_saturating_add unat_saturating_mul) simp
qed

lemma best_at_Suc:
  "best_at sim m n (Suc i) (Suc j) =
     (let above = fst (best_at sim m n i (Suc j));
          left = fst (best_at sim m n (Suc i) j);
          (best, direction) = (if left \<le> above then (above, 1) else (left, 2));
          paired = pair_value sim m n i j (fst (best_at sim m n i j))
      in if eligible m n (sim (Suc i) (Suc j)) \<and> best \<le> paired then (paired, 3)
         else (best, direction))"
  by (simp only: best_at.simps pair_value_def)

declare best_at.simps(3) [simp del]

lemma unat_best_at:
  assumes "\<And>a b. sim a b \<le> 1000" and "small m n" and "i \<le> m" and "j \<le> n"
  shows "unat (fst (best_at sim m n i j)) = opt_at sim m n i j"
  using assms
proof (induction sim m n i j rule: opt_at.induct)
  case (3 sim m n i j)
  have neighbours: "unat (fst (best_at sim m n i (Suc j))) = opt_at sim m n i (Suc j)"
    "unat (fst (best_at sim m n (Suc i) j)) = opt_at sim m n (Suc i) j"
    "unat (fst (best_at sim m n i j)) = opt_at sim m n i j"
    using "3.IH" "3.prems" by simp_all
  have "unat (fst (best_at sim m n i j)) < 2 ^ 40"
    using neighbours(3) opt_at_less [of sim m n i j] "3.prems" by simp
  then have "unat (pair_value sim m n i j (fst (best_at sim m n i j)))
      = opt_at sim m n i j + sim (Suc i) (Suc j) * (min m n + 1) + 1"
    using unat_pair_value [of sim m n] "3.prems" neighbours(3) by simp
  then show ?case
    using neighbours unfolding best_at_Suc opt_at.simps Let_def
    by (auto simp: word_le_nat_alt max_def not_le)
qed simp_all

section \<open>The traceback\<close>

lemma direction_cases:
  assumes "best_at sim m n (Suc i) (Suc j) = (score, d)"
  obtains (pair) "d = 3" "eligible m n (sim (Suc i) (Suc j))"
      "score = pair_value sim m n i j (fst (best_at sim m n i j))"
    | (up) "d = 1" "score = fst (best_at sim m n i (Suc j))"
    | (left) "d = 2" "score = fst (best_at sim m n (Suc i) j)"
  using assms unfolding best_at_Suc Let_def by (auto split: if_splits)

definition traced :: "(nat \<Rightarrow> nat \<Rightarrow> nat) \<Rightarrow> nat \<Rightarrow> nat \<Rightarrow> nat \<Rightarrow> nat \<Rightarrow> (nat \<times> nat) list \<Rightarrow> bool" where
  "traced sim m n i j ps \<longleftrightarrow>
     aligned sim m n i j ps \<and> (small m n \<longrightarrow> weight_of sim m n ps = opt_at sim m n i j)"

lemma traced_0: "i = 0 \<or> j = 0 \<Longrightarrow> traced sim m n i j []"
  by (auto simp: traced_def aligned_def weight_of_def)

lemma traced_step:
  assumes sim: "\<And>a b. sim a b \<le> 1000" and ij: "i < m" "j < n"
    and cell: "best_at sim m n (Suc i) (Suc j) = (score, d)"
  shows "d = 3 \<and> (\<forall>ps. traced sim m n i j ps \<longrightarrow> traced sim m n (Suc i) (Suc j) (ps @ [(i, j)]))
    \<or> d = 1 \<and> (\<forall>ps. traced sim m n i (Suc j) ps \<longrightarrow> traced sim m n (Suc i) (Suc j) ps)
    \<or> d = 2 \<and> (\<forall>ps. traced sim m n (Suc i) j ps \<longrightarrow> traced sim m n (Suc i) (Suc j) ps)"
proof -
  have total: "unat score = opt_at sim m n (Suc i) (Suc j)" if "small m n"
    using unat_best_at [of sim m n "Suc i" "Suc j"] sim that ij cell by simp
  note unat = unat_best_at [of sim m n, OF sim]
  from cell show ?thesis
  proof (cases rule: direction_cases)
    case pair
    have "opt_at sim m n i j + sim (Suc i) (Suc j) * (min m n + 1) + 1
        = opt_at sim m n (Suc i) (Suc j)" if "small m n"
      using total [OF that] unat_pair_value [of sim m n "fst (best_at sim m n i j)" i j]
        unat [of i j] opt_at_less [of sim m n i j] sim that ij unfolding pair(3) by simp
    then show ?thesis
      using pair(1,2) by (auto simp only: traced_def aligned_snoc weight_of_snoc lessI simp_thms)
  next
    case up
    then show ?thesis
      using total unat [of i "Suc j"] ij
      by (auto simp: traced_def simp del: opt_at.simps intro: aligned_extend)
  next
    case left
    then show ?thesis
      using total unat [of "Suc i" j] ij
      by (auto simp: traced_def simp del: opt_at.simps intro: aligned_extend)
  qed
qed

definition pairs_of :: "changed_run \<Rightarrow> (nat \<times> nat) list \<Rightarrow> (nat \<times> nat) list" where
  "pairs_of run ps = map (\<lambda>(a, b). (cr_deletions run ! a, cr_additions run ! b)) ps"

lemma run_similarity_le: "run_similarity run lines a b \<le> 1000"
  by (simp add: run_similarity_def line_similarity_le)

lemma traceback_sound:
  fixes run :: changed_run and lines :: "diff_line list"
  assumes "i \<le> length (cr_deletions run)" and "j \<le> length (cr_additions run)"
  defines "m \<equiv> length (cr_deletions run)" and "n \<equiv> length (cr_additions run)"
    and "sim \<equiv> run_similarity run lines"
  shows "\<exists>ps. traceback run (snd (align_tables run lines)) (n + 1) i j acc
    = Some (acc @ rev (pairs_of run ps)) \<and> traced sim m n i j ps"
  using assms(1,2)
proof (induction "i + j" arbitrary: i j acc rule: less_induct)
  case less
  let ?trace = "traceback run (snd (align_tables run lines)) (n + 1)"
  show ?case
  proof (cases "0 < i \<and> 0 < j")
    case False
    then have "?trace i j acc = Some (acc @ rev (pairs_of run []))"
      by (subst traceback.simps) (auto simp: pairs_of_def)
    moreover have "traced sim m n i j []"
      using False by (intro traced_0) simp
    ultimately show ?thesis
      by (intro exI conjI)
  next
    case True
    then obtain i' j' where ij: "i = Suc i'" "j = Suc j'"
      by (auto simp: gr0_conv_Suc)
    obtain score d where cell: "best_at sim m n (Suc i') (Suc j') = (score, d)"
      by fastforce
    have d: "snd (align_tables run lines) ! (i * (n + 1) + j) = d"
      using align_tables_get [of i run j lines] less.prems cell
      by (simp add: ij m_def n_def sim_def)
    have step: "?trace i j acc =
      (if d = 3 then ?trace i' j' (acc @ [(cr_deletions run ! i', cr_additions run ! j')])
       else if d = 1 then ?trace i' j acc else if d = 2 then ?trace i j' acc else None)"
      using True by (subst traceback.simps) (simp only: d if_True simp_thms, simp add: ij)
    have IH: "\<exists>ps. ?trace a b acc' = Some (acc' @ rev (pairs_of run ps)) \<and> traced sim m n a b ps"
      if "a \<le> i" "b \<le> j" "a + b < i + j" for a b acc'
      using less.hyps [of a b acc'] less.prems that by simp
    have "i' < m" and "j' < n"
      using less.prems by (simp_all add: ij m_def n_def)
    moreover have "sim a b \<le> 1000" for a b
      by (simp add: sim_def run_similarity_le)
    ultimately consider
        (pair) "d = 3" "\<And>ps. traced sim m n i' j' ps \<Longrightarrow> traced sim m n i j (ps @ [(i', j')])"
      | (up) "d = 1" "\<And>ps. traced sim m n i' j ps \<Longrightarrow> traced sim m n i j ps"
      | (left) "d = 2" "\<And>ps. traced sim m n i j' ps \<Longrightarrow> traced sim m n i j ps"
      using traced_step [of sim i' m j' n, OF _ _ _ cell] unfolding ij by blast
    then show ?thesis
    proof cases
      case pair
      obtain ps where "?trace i' j' (acc @ [(cr_deletions run ! i', cr_additions run ! j')])
          = Some (acc @ rev (pairs_of run (ps @ [(i', j')])))" "traced sim m n i' j' ps"
        using IH [of i' j' "acc @ [(cr_deletions run ! i', cr_additions run ! j')]"]
        by (auto simp: ij pairs_of_def)
      with pair show ?thesis
        unfolding step by auto
    next
      case up
      with IH [of i' j acc] show ?thesis
        unfolding step by (auto simp: ij)
    next
      case left
      with IH [of i j' acc] show ?thesis
        unfolding step by (auto simp: ij)
    qed
  qed
qed

lemma pair_run_spec:
  fixes run :: changed_run and lines :: "diff_line list"
  defines "m \<equiv> length (cr_deletions run)" and "n \<equiv> length (cr_additions run)"
  shows "\<exists>ps. pair_run run lines = Some (pairs_of run ps)
    \<and> traced (run_similarity run lines) m n m n ps"
  using traceback_sound [of m run n lines "[]"] by (auto simp: pair_run_def m_def n_def)

end
