(* ===== verification/Git_Intra_Line_Properties.thy ===== *)
theory Git_Intra_Line_Properties
  imports Git_Pairing
begin

text \<open>
  What annotating a hunk does: it always answers, it changes nothing but metadata, a degraded hunk
  has none, paired lines point at each other inside one replacement run and in order, and the bytes
  outside the reported ranges agree.
\<close>

section \<open>Runs of a hunk\<close>

definition changed_lines :: "changed_run \<Rightarrow> nat set" where
  "changed_lines run = set (cr_deletions run) \<union> set (cr_additions run)"

definition changed_run_ok :: "diff_line list \<Rightarrow> nat \<Rightarrow> changed_run \<Rightarrow> bool" where
  "changed_run_ok lines index run \<longleftrightarrow>
     sorted_wrt (<) (cr_deletions run) \<and> sorted_wrt (<) (cr_additions run)
     \<and> (\<forall>d \<in> set (cr_deletions run). d < index \<and> dl_kind (lines ! d) = Deletion)
     \<and> (\<forall>a \<in> set (cr_additions run). a < index \<and> dl_kind (lines ! a) = Addition)
     \<and> (\<forall>x \<in> changed_lines run. \<forall>y \<in> changed_lines run. \<forall>k. x < k \<and> k < y \<longrightarrow> dl_kind (lines ! k) \<noteq> Context)"

definition run_before :: "changed_run \<Rightarrow> changed_run \<Rightarrow> bool" where
  "run_before r s \<longleftrightarrow> (\<forall>x \<in> changed_lines r. \<forall>y \<in> changed_lines s. x < y)"

definition runs_ok :: "diff_line list \<Rightarrow> nat \<Rightarrow> changed_run list \<Rightarrow> bool" where
  "runs_ok lines index runs \<longleftrightarrow> list_all (changed_run_ok lines index) runs \<and> sorted_wrt run_before runs"

text \<open>The state of the loop: the runs closed so far and the one still open.\<close>

definition collecting :: "diff_line list \<Rightarrow> nat \<Rightarrow> changed_run list \<Rightarrow> changed_run \<Rightarrow> bool" where
  "collecting lines index runs current \<longleftrightarrow>
     runs_ok lines index (runs @ [current])
     \<and> (\<forall>x \<in> changed_lines current. \<forall>k. x < k \<and> k < index \<longrightarrow> dl_kind (lines ! k) \<noteq> Context)"

lemma changed_run_ok_less: "changed_run_ok lines index run \<Longrightarrow> x \<in> changed_lines run \<Longrightarrow> x < index"
  by (auto simp: changed_run_ok_def changed_lines_def)

lemma changed_run_ok_Suc: "changed_run_ok lines index run \<Longrightarrow> changed_run_ok lines (Suc index) run"
  by (auto simp: changed_run_ok_def less_Suc_eq)

lemma runs_ok_push:
  assumes "collecting lines index runs \<lparr>cr_deletions = ds, cr_additions = as\<rparr>"
  shows "runs_ok lines index (push_run runs ds as)"
  using assms by (auto simp: collecting_def runs_ok_def push_run_def sorted_wrt_append)

lemma collecting_context:
  assumes "collecting lines index runs \<lparr>cr_deletions = ds, cr_additions = as\<rparr>"
  shows "collecting lines (Suc index) (push_run runs ds as) \<lparr>cr_deletions = [], cr_additions = []\<rparr>"
  using runs_ok_push [OF assms]
  by (auto simp: collecting_def runs_ok_def sorted_wrt_append run_before_def changed_lines_def
      changed_run_ok_def list_all_iff less_Suc_eq)

lemma collecting_marker:
  assumes "collecting lines index runs current" and "dl_kind (lines ! index) \<noteq> Context"
  shows "collecting lines (Suc index) runs current"
  using assms by (auto simp: collecting_def runs_ok_def list_all_iff less_Suc_eq intro: changed_run_ok_Suc)

lemma collecting_push:
  assumes "collecting lines index runs \<lparr>cr_deletions = ds, cr_additions = as\<rparr>"
    and "if deletion then ds' = ds @ [index] \<and> as' = as else ds' = ds \<and> as' = as @ [index]"
    and "dl_kind (lines ! index) = (if deletion then Deletion else Addition)"
  shows "collecting lines (Suc index) runs \<lparr>cr_deletions = ds', cr_additions = as'\<rparr>"
proof -
  let ?cur = "\<lparr>cr_deletions = ds, cr_additions = as\<rparr>"
  let ?new = "\<lparr>cr_deletions = ds', cr_additions = as'\<rparr>"
  have new: "changed_lines ?new = insert index (changed_lines ?cur)"
    using assms(2) by (auto simp: changed_lines_def split: if_splits)
  have cur: "changed_run_ok lines index ?cur"
    using assms(1) by (simp add: collecting_def runs_ok_def)
  have tail: "dl_kind (lines ! k) \<noteq> Context" if "x \<in> changed_lines ?cur" "x < k" "k < index" for x k
    using assms(1) that by (auto simp: collecting_def)
  have less: "x < index" if "x \<in> changed_lines ?cur" for x
    using changed_run_ok_less [OF cur that] .
  have between: "dl_kind (lines ! k) \<noteq> Context"
    if "x \<in> changed_lines ?new" "y \<in> changed_lines ?new" "x < k" "k < y" for x y k
  proof -
    have "k < index" and "x \<noteq> index"
      using that less by (auto simp: new dest: less_trans)
    then show ?thesis
      using that tail by (auto simp: new)
  qed
  have "changed_run_ok lines (Suc index) ?new"
    unfolding changed_run_ok_def
  proof (intro conjI)
    show "sorted_wrt (<) (cr_deletions ?new)" and "sorted_wrt (<) (cr_additions ?new)"
      and "\<forall>d \<in> set (cr_deletions ?new). d < Suc index \<and> dl_kind (lines ! d) = Deletion"
      and "\<forall>a \<in> set (cr_additions ?new). a < Suc index \<and> dl_kind (lines ! a) = Addition"
      using cur assms(2,3) by (auto simp: changed_run_ok_def sorted_wrt_append split: if_splits)
  qed (use between in blast)
  moreover have "list_all (changed_run_ok lines (Suc index)) runs"
    using assms(1) by (auto simp: collecting_def runs_ok_def list_all_iff intro: changed_run_ok_Suc)
  moreover have "sorted_wrt run_before (runs @ [?new])"
  proof -
    have "run_before r ?new" if "r \<in> set runs" for r
    proof -
      have "run_before r ?cur" and "changed_run_ok lines index r"
        using assms(1) that
        by (auto simp: collecting_def runs_ok_def sorted_wrt_append list_all_iff)
      then show ?thesis
        using changed_run_ok_less by (auto simp: run_before_def new)
    qed
    then show ?thesis
      using assms(1) by (auto simp: collecting_def runs_ok_def sorted_wrt_append)
  qed
  moreover have "dl_kind (lines ! k) \<noteq> Context"
    if "x \<in> changed_lines ?new" "x < k" "k < Suc index" for x k
    using that tail [of x k] assms(3) less by (cases "k = index") (auto simp: new split: if_splits)
  ultimately show ?thesis
    by (simp add: collecting_def runs_ok_def)
qed

lemma changed_runs_from_ok:
  assumes "collecting lines index runs \<lparr>cr_deletions = ds, cr_additions = as\<rparr>"
    and "rest = drop index lines" and "index \<le> length lines"
  shows "runs_ok lines (length lines) (changed_runs_from index rest runs ds as)"
  using assms
proof (induction index rest runs ds as rule: changed_runs_from.induct)
  case (1 index runs ds as)
  then have "index = length lines"
    by simp
  with 1 show ?case
    using runs_ok_push by auto
next
  case (2 index line rest runs ds as)
  have line: "line = lines ! index" "index < length lines" "rest = drop (Suc index) lines"
    using "2.prems"(2,3) by (metis Cons_nth_drop_Suc drop_all list.inject list.simps(3) not_le)+
  show ?case
  proof (cases "dl_kind line")
    case Context
    then show ?thesis
      using "2.IH" line collecting_context [OF "2.prems"(1)] by simp
  next
    case Addition
    then show ?thesis
      using "2.IH" line collecting_push [OF "2.prems"(1), of False ds "as @ [index]"] by simp
  next
    case Deletion
    then show ?thesis
      using "2.IH" line collecting_push [OF "2.prems"(1), of True "ds @ [index]" as] by simp
  qed (use "2.IH" line collecting_marker [OF "2.prems"(1)] in simp_all)
qed

lemma changed_runs_ok: "runs_ok lines (length lines) (changed_runs lines)"
proof -
  have "collecting lines 0 [] \<lparr>cr_deletions = [], cr_additions = []\<rparr>"
    by (simp add: collecting_def runs_ok_def changed_run_ok_def changed_lines_def)
  then show ?thesis
    unfolding changed_runs_def by (rule changed_runs_from_ok) simp_all
qed

lemma pairable_runs_ok: "runs_ok lines (length lines) (pairable_runs lines)"
  using changed_runs_ok [of lines]
  by (auto simp: runs_ok_def pairable_runs_def list_all_iff intro: sorted_wrt_filter)

section \<open>The pairs of a hunk\<close>

definition pair_less :: "nat \<times> nat \<Rightarrow> nat \<times> nat \<Rightarrow> bool" where
  "pair_less p q \<longleftrightarrow> fst p < fst q \<and> snd p < snd q"

text \<open>A deletion and an addition of one replacement run: no context line stands between them.\<close>

definition pair_ok :: "diff_line list \<Rightarrow> nat \<times> nat \<Rightarrow> bool" where
  "pair_ok lines p \<longleftrightarrow>
     fst p < length lines \<and> dl_kind (lines ! fst p) = Deletion
     \<and> snd p < length lines \<and> dl_kind (lines ! snd p) = Addition
     \<and> (\<forall>k. min (fst p) (snd p) < k \<and> k < max (fst p) (snd p) \<longrightarrow> dl_kind (lines ! k) \<noteq> Context)"

lemma increasing_pairs_bounds:
  "increasing_pairs i j m n ps \<Longrightarrow> p \<in> set ps \<Longrightarrow> i \<le> fst p \<and> fst p < m \<and> j \<le> snd p \<and> snd p < n"
  by (induction i j m n ps rule: increasing_pairs.induct) auto

lemma increasing_pairs_sorted: "increasing_pairs i j m n ps \<Longrightarrow> sorted_wrt pair_less ps"
  by (induction i j m n ps rule: increasing_pairs.induct)
    (auto simp: pair_less_def Suc_le_eq dest!: increasing_pairs_bounds)

lemma run_pairs_ok:
  assumes "changed_run_ok lines (length lines) run" and "pair_run run lines = Some ps"
  shows "sorted_wrt pair_less ps" and "\<forall>p \<in> set ps. pair_ok lines p"
    and "\<forall>p \<in> set ps. fst p \<in> changed_lines run \<and> snd p \<in> changed_lines run"
proof -
  let ?m = "length (cr_deletions run)" and ?n = "length (cr_additions run)"
  obtain qs where ps: "ps = pairs_of run qs" and inc: "increasing_pairs 0 0 ?m ?n qs"
    using pair_run_spec [of run lines] assms(2) by (auto simp: traced_def aligned_def)
  have bounds: "fst q < ?m" "snd q < ?n" if "q \<in> set qs" for q
    using increasing_pairs_bounds [OF inc that] by auto
  have mem: "cr_deletions run ! fst q \<in> set (cr_deletions run)"
    "cr_additions run ! snd q \<in> set (cr_additions run)" if "q \<in> set qs" for q
    using bounds [OF that] by auto
  have elem: "\<exists>q \<in> set qs. p = (cr_deletions run ! fst q, cr_additions run ! snd q)"
    if "p \<in> set ps" for p
    using that by (force simp: ps pairs_of_def)
  show "\<forall>p \<in> set ps. fst p \<in> changed_lines run \<and> snd p \<in> changed_lines run"
    using elem mem by (fastforce simp: changed_lines_def)
  show "\<forall>p \<in> set ps. pair_ok lines p"
  proof
    fix p
    assume "p \<in> set ps"
    from elem [OF this] mem have "fst p \<in> set (cr_deletions run)" "snd p \<in> set (cr_additions run)"
      by auto
    moreover have "dl_kind (lines ! k) \<noteq> Context"
      if "min (fst p) (snd p) < k" "k < max (fst p) (snd p)" for k
      using assms(1) that calculation unfolding changed_run_ok_def changed_lines_def
      by (cases "fst p < snd p") (simp, blast, simp, blast)
    ultimately show "pair_ok lines p"
      using assms(1) unfolding pair_ok_def changed_run_ok_def by auto
  qed
  have "pair_less (cr_deletions run ! fst p, cr_additions run ! snd p)
      (cr_deletions run ! fst q, cr_additions run ! snd q)"
    if "p \<in> set qs" "q \<in> set qs" "pair_less p q" for p q
    using assms(1) that bounds [OF that(1)] bounds [OF that(2)]
    by (auto simp: changed_run_ok_def pair_less_def sorted_wrt_nth_less)
  then show "sorted_wrt pair_less ps"
    unfolding ps pairs_of_def sorted_wrt_map split_beta
    by (rule sorted_wrt_mono_rel [OF _ increasing_pairs_sorted [OF inc]])
qed

lemma pair_runs_total: "\<exists>ps. pair_runs lines runs = Some ps"
proof (induction runs)
  case (Cons run runs)
  then show ?case
    using pair_run_spec [of run lines] by auto
qed simp

lemma pair_runs_ok:
  assumes "runs_ok lines (length lines) runs" and "pair_runs lines runs = Some ps"
  shows "sorted_wrt pair_less ps \<and> (\<forall>p \<in> set ps. pair_ok lines p)
    \<and> (\<forall>p \<in> set ps. \<exists>run \<in> set runs. fst p \<in> changed_lines run \<and> snd p \<in> changed_lines run)"
  using assms
proof (induction runs arbitrary: ps)
  case (Cons run runs)
  from Cons.prems(2) obtain here rest where
    ps: "ps = here @ rest" "pair_run run lines = Some here" "pair_runs lines runs = Some rest"
    by (auto split: option.splits)
  have run: "changed_run_ok lines (length lines) run" and before: "\<forall>r \<in> set runs. run_before run r"
    using Cons.prems(1) by (auto simp: runs_ok_def)
  note here = run_pairs_ok [OF run ps(2)]
  have rest: "sorted_wrt pair_less rest \<and> (\<forall>p \<in> set rest. pair_ok lines p)
    \<and> (\<forall>p \<in> set rest. \<exists>run \<in> set runs. fst p \<in> changed_lines run \<and> snd p \<in> changed_lines run)"
    using Cons.IH [OF _ ps(3)] Cons.prems(1) by (simp add: runs_ok_def)
  have "pair_less p q" if "p \<in> set here" "q \<in> set rest" for p q
    using here(3) rest before that by (fastforce simp: pair_less_def run_before_def)
  then show ?case
    using here rest by (auto simp: ps(1) sorted_wrt_append)
qed simp

section \<open>Ranges of the pairs\<close>

text \<open>Both sides have well-formed ranges, and outside them the same bytes.\<close>

definition same_outside :: "string \<Rightarrow> intra_line_range list \<Rightarrow> string \<Rightarrow> intra_line_range list \<Rightarrow> bool" where
  "same_outside old old_ranges new new_ranges \<longleftrightarrow>
     ranges_ok 0 (length old) old_ranges \<and> ranges_ok 0 (length new) new_ranges
     \<and> kept_bytes old 0 old_ranges = kept_bytes new 0 new_ranges"

lemma full_range_ok: "same_outside old (full_range old) new (full_range new)"
  by (simp add: same_outside_def full_range_def slice_of_def)

lemma changed_token_ranges_ok:
  assumes "changed_token_ranges old (tokenize old) new (tokenize new) = (old_ranges, new_ranges)"
  shows "same_outside old old_ranges new new_ranges"
  using changed_token_ranges_spec [OF tokenize_chain tokenize_chain assms]
  by (auto simp: same_outside_def)

lemma annotate_pairs_Cons:
  assumes "annotate_pairs lines ((d, a) # pairs) comparisons = Some annotations"
  obtains old_ranges new_ranges rest comparisons' where
    "annotations = (d, a, old_ranges, new_ranges) # rest"
    "annotate_pairs lines pairs comparisons' = Some rest"
    "same_outside (dl_content (lines ! d)) old_ranges (dl_content (lines ! a)) new_ranges"
proof -
  let ?old = "dl_content (lines ! d)" and ?new = "dl_content (lines ! a)"
  obtain old_ranges new_ranges where
    ranges: "changed_token_ranges ?old (tokenize ?old) ?new (tokenize ?new) = (old_ranges, new_ranges)"
    by fastforce
  show thesis
    using assms that full_range_ok changed_token_ranges_ok [OF ranges] ranges
    by (auto simp: Let_def split: if_splits)
qed

lemma annotate_pairs_ok:
  assumes "annotate_pairs lines pairs comparisons = Some annotations"
  shows "map (\<lambda>(d, a, _). (d, a)) annotations = pairs
    \<and> (\<forall>(d, a, old_ranges, new_ranges) \<in> set annotations.
        same_outside (dl_content (lines ! d)) old_ranges (dl_content (lines ! a)) new_ranges)"
  using assms
proof (induction pairs arbitrary: comparisons annotations)
  case (Cons p pairs)
  obtain d a where p: "p = (d, a)"
    by fastforce
  from Cons.prems [unfolded p] show ?case
    by (rule annotate_pairs_Cons) (use Cons.IH in \<open>fastforce simp: p\<close>)
qed simp

section \<open>Applying the annotations\<close>

lemma length_apply_annotations [simp]:
  "length (foldl apply_annotation lines annotations) = length lines"
  by (induction annotations arbitrary: lines)
    (auto simp: apply_annotation_def Let_def split: prod.splits)

lemma apply_annotation_nth:
  assumes "d < length lines" and "a < length lines" and "d \<noteq> a"
  shows "apply_annotation lines (d, a, old_ranges, new_ranges) ! i =
    (if i = d then set_annotation a old_ranges (lines ! d)
     else if i = a then set_annotation d new_ranges (lines ! a) else lines ! i)"
  using assms by (auto simp: apply_annotation_def Let_def nth_list_update)

definition annotation_fits :: "nat \<Rightarrow> annotation \<Rightarrow> bool" where
  "annotation_fits n x \<longleftrightarrow> (case x of (d, a, _) \<Rightarrow> d < n \<and> a < n \<and> d \<noteq> a)"

definition annotation_lines :: "annotation \<Rightarrow> nat set" where
  "annotation_lines x = (case x of (d, a, _) \<Rightarrow> {d, a})"

definition annotations_apart :: "annotation \<Rightarrow> annotation \<Rightarrow> bool" where
  "annotations_apart x y \<longleftrightarrow> annotation_lines x \<inter> annotation_lines y = {}"

lemma length_apply_annotation [simp]: "length (apply_annotation lines x) = length lines"
  using length_apply_annotations [of lines "[x]"] by simp

lemma apply_annotations_frame:
  assumes "\<forall>x \<in> set annotations. annotation_fits (length lines) x \<and> i \<notin> annotation_lines x"
  shows "foldl apply_annotation lines annotations ! i = lines ! i"
  using assms
proof (induction annotations arbitrary: lines)
  case (Cons x annotations)
  have "apply_annotation lines x ! i = lines ! i"
    using Cons.prems apply_annotation_nth [of "fst x" lines "fst (snd x)"]
    by (cases x) (auto simp: annotation_fits_def annotation_lines_def)
  with Cons show ?case
    by simp
qed simp

lemma apply_annotations_nth:
  assumes "sorted_wrt annotations_apart annotations"
    and "\<forall>x \<in> set annotations. annotation_fits (length lines) x"
    and "(d, a, old_ranges, new_ranges) \<in> set annotations"
  shows "foldl apply_annotation lines annotations ! d = set_annotation a old_ranges (lines ! d)
    \<and> foldl apply_annotation lines annotations ! a = set_annotation d new_ranges (lines ! a)"
  using assms
proof (induction annotations arbitrary: lines)
  case (Cons x annotations)
  let ?here = "(d, a, old_ranges, new_ranges)"
  show ?case
  proof (cases "x = ?here")
    case True
    have "\<forall>y \<in> set annotations. annotation_fits (length lines) y \<and> d \<notin> annotation_lines y
        \<and> a \<notin> annotation_lines y"
      using Cons.prems True by (auto simp: annotations_apart_def annotation_lines_def)
    then show ?thesis
      using True Cons.prems(2) apply_annotation_nth [of d lines a old_ranges new_ranges]
        apply_annotations_frame [of annotations "apply_annotation lines x"]
      by (auto simp: annotation_fits_def)
  next
    case False
    then have mem: "?here \<in> set annotations"
      using Cons.prems(3) by auto
    then have "annotations_apart x ?here" "annotation_fits (length lines) x"
      using Cons.prems(1,2) by auto
    then have "apply_annotation lines x ! d = lines ! d" "apply_annotation lines x ! a = lines ! a"
      using apply_annotations_frame [of "[x]" lines]
      by (auto simp: annotations_apart_def annotation_lines_def)
    then show ?thesis
      using Cons.IH [of "apply_annotation lines x"] Cons.prems(1,2) mem by simp
  qed
qed simp

lemma pair_ok_apart:
  assumes "pair_ok lines p" and "pair_ok lines q" and "pair_less p q"
  shows "{fst p, snd p} \<inter> {fst q, snd q} = {}"
  using assms by (auto simp: pair_ok_def pair_less_def)

lemma annotations_of_pairs:
  assumes "sorted_wrt pair_less (map (\<lambda>(d, a, _). (d, a)) annotations)"
    and "\<forall>x \<in> set annotations. pair_ok lines ((\<lambda>(d, a, _). (d, a)) x)"
  shows "sorted_wrt annotations_apart annotations"
    and "\<forall>x \<in> set annotations. annotation_fits (length lines) x"
proof -
  have "annotations_apart x y"
    if "x \<in> set annotations" "y \<in> set annotations"
      "pair_less ((\<lambda>(d, a, _). (d, a)) x) ((\<lambda>(d, a, _). (d, a)) y)" for x y
    using pair_ok_apart [OF bspec [OF assms(2) that(1)] bspec [OF assms(2) that(2)] that(3)]
    by (cases x; cases y) (auto simp: annotations_apart_def annotation_lines_def)
  then show "sorted_wrt annotations_apart annotations"
    by (rule sorted_wrt_mono_rel [OF _ assms(1) [unfolded sorted_wrt_map]])
  show "\<forall>x \<in> set annotations. annotation_fits (length lines) x"
    using assms(2) by (fastforce simp: annotation_fits_def pair_ok_def)
qed

section \<open>Annotating a hunk\<close>

definition strip_metadata :: "hunk \<Rightarrow> hunk" where
  "strip_metadata hunk =
     hunk\<lparr>h_intra_line_degradation := None, h_lines := map clear_line (h_lines hunk)\<rparr>"

definition annotations_ok :: "diff_line list \<Rightarrow> annotation list \<Rightarrow> bool" where
  "annotations_ok lines annotations \<longleftrightarrow>
     sorted_wrt pair_less (map (\<lambda>(d, a, _). (d, a)) annotations)
     \<and> (\<forall>(d, a, old_ranges, new_ranges) \<in> set annotations.
          pair_ok lines (d, a)
          \<and> same_outside (dl_content (lines ! d)) old_ranges (dl_content (lines ! a)) new_ranges)"

lemma annotations_ok_apart:
  assumes "annotations_ok lines annotations"
  shows "sorted_wrt annotations_apart annotations"
    and "\<forall>x \<in> set annotations. annotation_fits (length lines) x"
proof -
  have "\<forall>x \<in> set annotations. pair_ok lines ((\<lambda>(d, a, _). (d, a)) x)"
    and "sorted_wrt pair_less (map (\<lambda>(d, a, _). (d, a)) annotations)"
    using assms unfolding annotations_ok_def by fastforce+
  then show "sorted_wrt annotations_apart annotations"
    and "\<forall>x \<in> set annotations. annotation_fits (length lines) x"
    using annotations_of_pairs by blast+
qed

lemma annotations_ok_pairs:
  assumes "pair_runs lines (pairable_runs lines) = Some pairs"
    and "annotate_pairs lines pairs comparisons = Some annotations"
  shows "annotations_ok lines annotations"
proof -
  have pairs: "map (\<lambda>(d, a, _). (d, a)) annotations = pairs"
    and same: "\<forall>(d, a, old_ranges, new_ranges) \<in> set annotations.
        same_outside (dl_content (lines ! d)) old_ranges (dl_content (lines ! a)) new_ranges"
    using annotate_pairs_ok [OF assms(2)] by auto
  have "sorted_wrt pair_less pairs" and "\<forall>p \<in> set pairs. pair_ok lines p"
    using pair_runs_ok [OF pairable_runs_ok assms(1)] by auto
  with pairs same show ?thesis
    unfolding annotations_ok_def by fastforce
qed

lemma annotate_spec:
  obtains hunk' annotations where "annotate hunk = Some hunk'"
    "hunk' = hunk\<lparr>h_intra_line_degradation := h_intra_line_degradation hunk',
       h_lines := foldl apply_annotation (map clear_line (h_lines hunk)) annotations\<rparr>"
    "h_intra_line_degradation hunk' = None \<or> annotations = []"
    "annotations_ok (map clear_line (h_lines hunk)) annotations"
proof -
  let ?lines = "map clear_line (h_lines hunk)"
  have none: "annotations_ok ?lines []"
    by (simp add: annotations_ok_def)
  obtain pairs where pairs: "pair_runs ?lines (pairable_runs ?lines) = Some pairs"
    using pair_runs_total by blast
  let ?bare = "\<lambda>d. hunk\<lparr>h_intra_line_degradation := d, h_lines := ?lines\<rparr>"
  have "annotate hunk =
    (if pairable_runs ?lines = [] then Some (?bare None)
     else if list_ex (\<lambda>run. list_ex (\<lambda>index. line_too_long (dl_content (?lines ! index)))
                        (cr_deletions run @ cr_additions run)) (pairable_runs ?lines)
     then Some (?bare (Some (LineTooLong MAX_INTRA_LINE_BYTES)))
     else case charge_runs ?lines (pairable_runs ?lines) 0 of
       None \<Rightarrow> Some (?bare (Some (PairingTooLarge MAX_INTRA_LINE_COMPARISONS)))
     | Some comparisons \<Rightarrow>
         (case annotate_pairs ?lines pairs comparisons of
            None \<Rightarrow> Some (?bare (Some (PairingTooLarge MAX_INTRA_LINE_COMPARISONS)))
          | Some annotations \<Rightarrow>
              Some (hunk\<lparr>h_intra_line_degradation := None,
                h_lines := foldl apply_annotation ?lines annotations\<rparr>)))"
    using pairs
    by (cases hunk) (simp add: annotate_def Let_def degrade_pairing_def cong: option.case_cong if_cong)
  then consider (bare) d where
      "annotate hunk = Some (hunk\<lparr>h_intra_line_degradation := d, h_lines := ?lines\<rparr>)"
    | (paired) comparisons annotations where
      "annotate_pairs ?lines pairs comparisons = Some annotations"
      "annotate hunk = Some (hunk\<lparr>h_intra_line_degradation := None,
         h_lines := foldl apply_annotation ?lines annotations\<rparr>)"
    by (fastforce split: if_splits option.splits)
  then show thesis
  proof cases
    case bare
    then show thesis
      using that [of _ "[]"] none by simp
  next
    case paired
    then show thesis
      using that [of _ annotations] annotations_ok_pairs [OF pairs] by simp
  qed
qed

lemma annotated_line:
  assumes "annotations_ok lines annotations"
    and "lines' = foldl apply_annotation lines annotations"
  obtains (bare) "lines' ! i = lines ! i" "\<forall>x \<in> set annotations. i \<notin> annotation_lines x"
    | (deletion) a old_ranges new_ranges where "(i, a, old_ranges, new_ranges) \<in> set annotations"
    | (addition) d old_ranges new_ranges where "(d, i, old_ranges, new_ranges) \<in> set annotations"
proof -
  show thesis
    using annotations_ok_apart(2) [OF assms(1)] apply_annotations_frame [of annotations lines i] that assms(2)
    by (fastforce simp: annotation_lines_def)
qed

lemma annotated_pair:
  assumes "annotations_ok lines annotations"
    and "(d, a, old_ranges, new_ranges) \<in> set annotations"
  shows "foldl apply_annotation lines annotations ! d = set_annotation a old_ranges (lines ! d)"
    and "foldl apply_annotation lines annotations ! a = set_annotation d new_ranges (lines ! a)"
    and "pair_ok lines (d, a)"
    and "same_outside (dl_content (lines ! d)) old_ranges (dl_content (lines ! a)) new_ranges"
proof -
  show "foldl apply_annotation lines annotations ! d = set_annotation a old_ranges (lines ! d)"
    and "foldl apply_annotation lines annotations ! a = set_annotation d new_ranges (lines ! a)"
    using apply_annotations_nth [OF annotations_ok_apart [OF assms(1)] assms(2)] by auto
  show "pair_ok lines (d, a)"
    and "same_outside (dl_content (lines ! d)) old_ranges (dl_content (lines ! a)) new_ranges"
    using assms by (auto simp: annotations_ok_def)
qed

lemma clear_line_apply: "map clear_line (foldl apply_annotation lines annotations) = map clear_line lines"
proof (induction annotations arbitrary: lines)
  case (Cons x annotations)
  have "map clear_line (lines[i := set_annotation j rs (lines ! i)]) = map clear_line lines"
    for lines i j rs
    by (cases "i < length lines") (simp_all add: map_update clear_line_def set_annotation_def
        list_update_same_conv list_update_beyond)
  then have "map clear_line (apply_annotation lines x) = map clear_line lines"
    by (simp add: apply_annotation_def Let_def split: prod.splits)
  with Cons show ?case
    by simp
qed simp

section \<open>Properties\<close>

definition sample_diff_line :: "diff_line_kind \<Rightarrow> string \<Rightarrow> diff_line" where
  "sample_diff_line kind content =
     \<lparr>dl_kind = kind, dl_old_line_number = Some 1, dl_new_line_number = Some 1, dl_content = content,
      dl_paired_line_index = None, dl_intra_line_ranges = None\<rparr>"

definition sample_changed_hunk :: hunk where
  "sample_changed_hunk =
     \<lparr>h_old_start = 1, h_old_lines = 2, h_new_start = 1, h_new_lines = 2, h_header = ''@@'',
      h_intra_line_degradation = None,
      h_lines = [sample_diff_line Context ''a'', sample_diff_line Deletion ''x=1;'',
        sample_diff_line Addition ''x=22;'']\<rparr>"

definition sample_range :: "nat \<Rightarrow> nat \<Rightarrow> intra_line_range" where
  "sample_range a b = \<lparr>range_start = a, range_end = b\<rparr>"

definition sample_annotated_hunk :: hunk where
  "sample_annotated_hunk = sample_changed_hunk
     \<lparr>h_lines := [sample_diff_line Context ''a'',
        set_annotation 2 [sample_range 2 3] (sample_diff_line Deletion ''x=1;''),
        set_annotation 1 [sample_range 2 4] (sample_diff_line Addition ''x=22;'')]\<rparr>"

lemma sample_annotate: "annotate sample_changed_hunk = Some sample_annotated_hunk"
  by code_simp

definition sample_two_hunk :: hunk where
  "sample_two_hunk = sample_changed_hunk
     \<lparr>h_lines := [sample_diff_line Deletion ''a1'', sample_diff_line Deletion ''b1'',
        sample_diff_line Addition ''a2'', sample_diff_line Addition ''b2'']\<rparr>"

definition sample_two_annotated :: hunk where
  "sample_two_annotated = sample_changed_hunk
     \<lparr>h_lines := [set_annotation 2 [sample_range 0 2] (sample_diff_line Deletion ''a1''),
        set_annotation 3 [sample_range 0 2] (sample_diff_line Deletion ''b1''),
        set_annotation 0 [sample_range 0 2] (sample_diff_line Addition ''a2''),
        set_annotation 1 [sample_range 0 2] (sample_diff_line Addition ''b2'')]\<rparr>"

lemma sample_two_annotate: "annotate sample_two_hunk = Some sample_two_annotated"
  by code_simp

lemma same_outside_sym:
  "same_outside old old_ranges new new_ranges \<longleftrightarrow> same_outside new new_ranges old old_ranges"
  by (auto simp: same_outside_def)

lemma set_annotation_simps [simp]:
  "dl_kind (set_annotation j ranges line) = dl_kind line"
  "dl_content (set_annotation j ranges line) = dl_content line"
  "dl_paired_line_index (set_annotation j ranges line) = Some j"
  "dl_intra_line_ranges (set_annotation j ranges line) = Some ranges"
  by (simp_all add: set_annotation_def)

lemma clear_line_simps [simp]:
  "dl_kind (clear_line line) = dl_kind line" "dl_content (clear_line line) = dl_content line"
  "dl_paired_line_index (clear_line line) = None" "dl_intra_line_ranges (clear_line line) = None"
  by (simp_all add: clear_line_def)

lemma annotated_kinds:
  assumes "map clear_line lines' = map clear_line lines" and "k < length lines"
  shows "dl_kind (lines' ! k) = dl_kind (lines ! k)" and "dl_content (lines' ! k) = dl_content (lines ! k)"
proof -
  have "length lines' = length lines"
    using map_eq_imp_length_eq [OF assms(1)] .
  then have "clear_line (lines' ! k) = clear_line (lines ! k)"
    using assms by (metis nth_map)
  then show "dl_kind (lines' ! k) = dl_kind (lines ! k)"
    and "dl_content (lines' ! k) = dl_content (lines ! k)"
    by (metis clear_line_simps(1), metis clear_line_simps(2))
qed

lemma pair_ok_cong:
  assumes "map clear_line lines' = map clear_line lines" and "pair_ok lines p"
  shows "pair_ok lines' p"
proof -
  have "length lines' = length lines"
    using map_eq_imp_length_eq [OF assms(1)] .
  moreover have "dl_kind (lines' ! k) = dl_kind (lines ! k)" if "k \<le> max (fst p) (snd p)" for k
    using annotated_kinds(1) [OF assms(1), of k] that assms(2) by (auto simp: pair_ok_def max_def split: if_splits)
  ultimately show ?thesis
    using assms(2) by (simp add: pair_ok_def)
qed

text \<open>What a hunk's metadata owes to its annotations.\<close>

definition pair_shown ::
  "diff_line list \<Rightarrow> nat \<Rightarrow> nat \<Rightarrow> intra_line_range list \<Rightarrow> intra_line_range list \<Rightarrow> bool" where
  "pair_shown lines d a old_ranges new_ranges \<longleftrightarrow>
     pair_ok lines (d, a)
     \<and> dl_paired_line_index (lines ! d) = Some a \<and> dl_paired_line_index (lines ! a) = Some d
     \<and> dl_intra_line_ranges (lines ! d) = Some old_ranges
     \<and> dl_intra_line_ranges (lines ! a) = Some new_ranges
     \<and> same_outside (dl_content (lines ! d)) old_ranges (dl_content (lines ! a)) new_ranges"

lemma annotated_hunk:
  assumes "annotate hunk = Some hunk'"
  obtains annotations where
    "sorted_wrt pair_less (map (\<lambda>(d, a, _). (d, a)) annotations)"
    "\<And>i j. i < length (h_lines hunk') \<Longrightarrow> dl_paired_line_index (h_lines hunk' ! i) = Some j \<Longrightarrow>
      \<exists>old_ranges new_ranges. (i, j, old_ranges, new_ranges) \<in> set annotations
        \<or> (j, i, old_ranges, new_ranges) \<in> set annotations"
    "\<And>d a old_ranges new_ranges. (d, a, old_ranges, new_ranges) \<in> set annotations \<Longrightarrow>
      pair_shown (h_lines hunk') d a old_ranges new_ranges"
proof -
  let ?lines = "map clear_line (h_lines hunk)"
  from annotate_spec [of hunk] obtain hunk'' annotations where spec: "annotate hunk = Some hunk''"
    "hunk'' = hunk\<lparr>h_intra_line_degradation := h_intra_line_degradation hunk'',
       h_lines := foldl apply_annotation ?lines annotations\<rparr>"
    and ok: "annotations_ok ?lines annotations"
    by blast
  have lines: "h_lines hunk' = foldl apply_annotation ?lines annotations"
    using arg_cong [OF spec(2), of h_lines] spec(1) assms by simp
  have clear: "map clear_line (h_lines hunk') = map clear_line ?lines"
    unfolding lines by (rule clear_line_apply)
  show thesis
  proof (rule that)
    show "sorted_wrt pair_less (map (\<lambda>(d, a, _). (d, a)) annotations)"
      using ok by (simp add: annotations_ok_def)
  next
    fix i j
    assume i: "i < length (h_lines hunk')" "dl_paired_line_index (h_lines hunk' ! i) = Some j"
    from ok lines show "\<exists>old_ranges new_ranges. (i, j, old_ranges, new_ranges) \<in> set annotations
        \<or> (j, i, old_ranges, new_ranges) \<in> set annotations"
    proof (cases rule: annotated_line [of _ _ _ i])
      case bare
      then show ?thesis
        using i by (simp add: lines)
    next
      case (deletion a old_ranges new_ranges)
      then show ?thesis
        using i annotated_pair(1) [OF ok deletion] by (auto simp: lines)
    next
      case (addition d old_ranges new_ranges)
      then show ?thesis
        using i annotated_pair(2) [OF ok addition] by (auto simp: lines)
    qed
  next
    fix d a old_ranges new_ranges
    assume mem: "(d, a, old_ranges, new_ranges) \<in> set annotations"
    note pair = annotated_pair [OF ok mem]
    show "pair_shown (h_lines hunk') d a old_ranges new_ranges"
      using pair_ok_cong [OF clear pair(3)] pair by (simp add: pair_shown_def lines)
  qed
qed

text \<open>
  C31: Annotating a hunk always answers (the traceback never reaches its \<open>unreachable!\<close>), leaves
  every line and every other field of the hunk as it was, and a hunk that is reported as degraded
  carries no pair and no range.
\<close>

theorem annotate_touches_only_metadata:
  "\<exists>hunk'. annotate hunk = Some hunk' \<and> strip_metadata hunk' = strip_metadata hunk
     \<and> (h_intra_line_degradation hunk' = None \<or> h_lines hunk' = map clear_line (h_lines hunk))"
proof -
  from annotate_spec [of hunk] obtain hunk' annotations where spec: "annotate hunk = Some hunk'"
    "hunk' = hunk\<lparr>h_intra_line_degradation := h_intra_line_degradation hunk',
       h_lines := foldl apply_annotation (map clear_line (h_lines hunk)) annotations\<rparr>"
    "h_intra_line_degradation hunk' = None \<or> annotations = []"
    by blast
  have lines: "h_lines hunk' = foldl apply_annotation (map clear_line (h_lines hunk)) annotations"
    using arg_cong [OF spec(2), of h_lines] by simp
  have "map clear_line (h_lines hunk') = map clear_line (h_lines hunk)"
    unfolding lines clear_line_apply by (simp add: clear_line_def)
  then have "strip_metadata hunk' = strip_metadata hunk"
    unfolding strip_metadata_def by (subst spec(2)) (simp add: hunk.equality)
  with spec lines show ?thesis
    by auto
qed

text \<open>
  C30: A line that annotating a hunk pairs is a deletion or an addition, its partner is of the other
  kind and points back, no context line stands between them, both carry ranges, in order,
  non-empty, apart from each other and inside the line, and the bytes outside the ranges of the
  one are the bytes outside the ranges of the other.
\<close>

theorem annotated_pairs_mirror:
  assumes "annotate hunk = Some hunk'" and "i < length (h_lines hunk')"
    and "dl_paired_line_index (h_lines hunk' ! i) = Some j"
  shows "j < length (h_lines hunk') \<and> dl_paired_line_index (h_lines hunk' ! j) = Some i
    \<and> (dl_kind (h_lines hunk' ! i), dl_kind (h_lines hunk' ! j))
        \<in> {(Deletion, Addition), (Addition, Deletion)}
    \<and> (\<forall>k. min i j < k \<and> k < max i j \<longrightarrow> dl_kind (h_lines hunk' ! k) \<noteq> Context)
    \<and> (\<exists>ranges ranges'. dl_intra_line_ranges (h_lines hunk' ! i) = Some ranges
        \<and> dl_intra_line_ranges (h_lines hunk' ! j) = Some ranges'
        \<and> same_outside (dl_content (h_lines hunk' ! i)) ranges
            (dl_content (h_lines hunk' ! j)) ranges')"
  using assms(1)
proof (rule annotated_hunk)
  fix annotations :: "annotation list"
  assume found: "\<And>i j. i < length (h_lines hunk') \<Longrightarrow>
      dl_paired_line_index (h_lines hunk' ! i) = Some j \<Longrightarrow>
      \<exists>old_ranges new_ranges. (i, j, old_ranges, new_ranges) \<in> set annotations
        \<or> (j, i, old_ranges, new_ranges) \<in> set annotations"
    and facts: "\<And>d a old_ranges new_ranges. (d, a, old_ranges, new_ranges) \<in> set annotations \<Longrightarrow>
      pair_shown (h_lines hunk') d a old_ranges new_ranges"
  from found [OF assms(2,3)] obtain old_ranges new_ranges where
    "(i, j, old_ranges, new_ranges) \<in> set annotations
      \<or> (j, i, old_ranges, new_ranges) \<in> set annotations"
    by blast
  then show ?thesis
    using facts [of i j old_ranges new_ranges] facts [of j i old_ranges new_ranges]
    by (auto simp: pair_shown_def pair_ok_def min.commute max.commute same_outside_sym)
qed

theorem annotated_pairs_mirror_witness:
  "dl_paired_line_index (h_lines sample_annotated_hunk ! 2) = Some 1
   \<and> same_outside ''x=1;'' [sample_range 2 3] ''x=22;'' [sample_range 2 4]"
  using annotated_pairs_mirror [OF sample_annotate, of 1 2]
  by (simp add: sample_annotated_hunk_def sample_diff_line_def)

text \<open>
  The pairs of a hunk never cross: of two paired deletions the earlier one has the earlier
  partner.
\<close>

theorem annotated_pairs_never_cross:
  assumes "annotate hunk = Some hunk'" and "i < i'" and "i' < length (h_lines hunk')"
    and "dl_kind (h_lines hunk' ! i) = Deletion" and "dl_kind (h_lines hunk' ! i') = Deletion"
    and "dl_paired_line_index (h_lines hunk' ! i) = Some j"
    and "dl_paired_line_index (h_lines hunk' ! i') = Some j'"
  shows "j < j'"
  using assms(1)
proof (rule annotated_hunk)
  fix annotations :: "annotation list"
  assume sorted: "sorted_wrt pair_less (map (\<lambda>(d, a, _). (d, a)) annotations)"
    and found: "\<And>i j. i < length (h_lines hunk') \<Longrightarrow>
      dl_paired_line_index (h_lines hunk' ! i) = Some j \<Longrightarrow>
      \<exists>old_ranges new_ranges. (i, j, old_ranges, new_ranges) \<in> set annotations
        \<or> (j, i, old_ranges, new_ranges) \<in> set annotations"
    and facts: "\<And>d a old_ranges new_ranges. (d, a, old_ranges, new_ranges) \<in> set annotations \<Longrightarrow>
      pair_shown (h_lines hunk') d a old_ranges new_ranges"
  have mem: "(d, a) \<in> set (map (\<lambda>(d, a, _). (d, a)) annotations)"
    if "d < length (h_lines hunk')" "dl_paired_line_index (h_lines hunk' ! d) = Some a"
      "dl_kind (h_lines hunk' ! d) = Deletion" for d a
  proof -
    from found [OF that(1,2)] obtain old_ranges new_ranges where
      "(d, a, old_ranges, new_ranges) \<in> set annotations
        \<or> (a, d, old_ranges, new_ranges) \<in> set annotations"
      by blast
    moreover have "\<not> pair_shown (h_lines hunk') a d old_ranges new_ranges"
      using that(3) by (simp add: pair_shown_def pair_ok_def)
    ultimately have "(d, a, old_ranges, new_ranges) \<in> set annotations"
      using facts by blast
    then show ?thesis
      by force
  qed
  have "(i, j) \<in> set (map (\<lambda>(d, a, _). (d, a)) annotations)"
    and "(i', j') \<in> set (map (\<lambda>(d, a, _). (d, a)) annotations)"
    using mem assms by auto
  then show "j < j'"
    using sorted assms(2) unfolding sorted_wrt_iff_nth_less in_set_conv_nth pair_less_def
    by (metis fst_conv linorder_neqE_nat order.asym order.irrefl snd_conv)
qed

theorem annotated_pairs_never_cross_witness:
  "dl_paired_line_index (h_lines sample_two_annotated ! 0) = Some 2
   \<and> dl_paired_line_index (h_lines sample_two_annotated ! 1) = Some 3 \<and> (2 :: nat) < 3"
  using annotated_pairs_never_cross [OF sample_two_annotate, of 0 1 2 3]
  by (simp add: sample_two_annotated_def sample_diff_line_def)

section \<open>The preflight and the optimum\<close>

lemma usize_add_small: "usize_add a b \<le> 1000000 \<Longrightarrow> a \<le> 1000000 \<and> b \<le> 1000000"
  by (simp add: usize_add_def min_def split: if_splits)

lemma usize_mul_small: "usize_mul a b \<le> 1000000 \<Longrightarrow> a * b \<le> 1000000"
  by (simp add: usize_mul_def min_def split: if_splits)

lemma run_cost_small:
  assumes "\<not> too_many_comparisons (run_cost lines run comparisons)"
  shows "small (length (cr_deletions run)) (length (cr_additions run))"
proof -
  have "run_cost lines run comparisons \<le> 1000000"
    using assms by (simp add: too_many_comparisons_def MAX_INTRA_LINE_COMPARISONS_def)
  then have "usize_mul (length (cr_deletions run)) (length (cr_additions run)) \<le> 1000000"
    unfolding run_cost_def Let_def using usize_add_small by blast
  then show ?thesis
    by (simp add: small_def MAX_INTRA_LINE_COMPARISONS_def usize_mul_small)
qed

lemma charge_runs_small:
  assumes "charge_runs lines runs comparisons = Some charged" and "run \<in> set runs"
  shows "small (length (cr_deletions run)) (length (cr_additions run))"
  using assms
  by (induction runs arbitrary: comparisons) (auto simp: Let_def run_cost_small split: if_splits)

definition total_similarity :: "changed_run \<Rightarrow> diff_line list \<Rightarrow> (nat \<times> nat) list \<Rightarrow> nat" where
  "total_similarity run lines ps = (\<Sum>(a, b) \<leftarrow> ps. run_similarity run lines (Suc a) (Suc b))"

text \<open>A pairing of a run: in order on both sides, and every pair eligible.\<close>

definition pairing :: "changed_run \<Rightarrow> diff_line list \<Rightarrow> (nat \<times> nat) list \<Rightarrow> bool" where
  "pairing run lines ps \<longleftrightarrow>
     aligned (run_similarity run lines) (length (cr_deletions run)) (length (cr_additions run))
       (length (cr_deletions run)) (length (cr_additions run)) ps"

lemma weight_of_total:
  "weight_of (run_similarity run lines) m n ps = (min m n + 1) * total_similarity run lines ps + length ps"
  by (induction ps) (auto simp: weight_of_def total_similarity_def algebra_simps)

lemma increasing_pairs_length: "increasing_pairs i j m n ps \<Longrightarrow> length ps \<le> min (m - i) (n - j)"
  by (induction i j m n ps rule: increasing_pairs.induct) auto

lemma pairing_length:
  "pairing run lines ps \<Longrightarrow> length ps \<le> min (length (cr_deletions run)) (length (cr_additions run))"
  using increasing_pairs_length [of 0 0] by (fastforce simp: pairing_def aligned_def)

lemma weight_lex:
  fixes k s t c e :: nat
  assumes "(k + 1) * s + c \<le> (k + 1) * t + e" and "e \<le> k"
  shows "s < t \<or> s = t \<and> c \<le> e"
proof (rule ccontr)
  assume neg: "\<not> ?thesis"
  then have "t < s \<or> s = t \<and> e < c"
    by auto
  moreover have "(k + 1) * (t + 1) \<le> (k + 1) * s" if "t < s"
    using that by (intro mult_le_mono2) simp
  ultimately show False
    using assms by auto
qed

text \<open>
  C28: Once the preflight of a hunk accepted its runs, the pairs that a run reports are a pairing of
  its lines, in order and of eligible pairs only, and no other such pairing has a greater total
  similarity, or the same and more pairs. The 64-bit scores do not saturate on the way.
\<close>

theorem run_pairs_are_optimal:
  assumes "charge_runs lines runs comparisons = Some charged" and "run \<in> set runs"
  shows "\<exists>ps. pair_run run lines = Some (pairs_of run ps) \<and> pairing run lines ps
    \<and> (\<forall>qs. pairing run lines qs \<longrightarrow>
        total_similarity run lines qs < total_similarity run lines ps
        \<or> total_similarity run lines qs = total_similarity run lines ps \<and> length qs \<le> length ps)"
proof -
  let ?m = "length (cr_deletions run)" and ?n = "length (cr_additions run)"
  let ?sim = "run_similarity run lines"
  obtain ps where ps: "pair_run run lines = Some (pairs_of run ps)" "traced ?sim ?m ?n ?m ?n ps"
    using pair_run_spec [of run lines] by blast
  then have aligned: "pairing run lines ps"
    and best: "weight_of ?sim ?m ?n ps = opt_at ?sim ?m ?n ?m ?n"
    using charge_runs_small [OF assms] by (auto simp: traced_def pairing_def)
  have "weight_of ?sim ?m ?n qs \<le> weight_of ?sim ?m ?n ps" if "pairing run lines qs" for qs
    using that weight_le_opt unfolding best pairing_def by blast
  then have "total_similarity run lines qs < total_similarity run lines ps
      \<or> total_similarity run lines qs = total_similarity run lines ps \<and> length qs \<le> length ps"
    if "pairing run lines qs" for qs
    using that pairing_length [OF aligned] unfolding weight_of_total by (intro weight_lex) auto
  with ps(1) aligned show ?thesis
    by blast
qed

theorem run_pairs_are_optimal_witness:
  "\<exists>ps. pair_run \<lparr>cr_deletions = [0, 1], cr_additions = [2, 3]\<rparr> (h_lines sample_two_hunk)
     = Some (pairs_of \<lparr>cr_deletions = [0, 1], cr_additions = [2, 3]\<rparr> ps)
     \<and> pairing \<lparr>cr_deletions = [0, 1], cr_additions = [2, 3]\<rparr> (h_lines sample_two_hunk) ps"
proof -
  have "charge_runs (h_lines sample_two_hunk) [\<lparr>cr_deletions = [0, 1], cr_additions = [2, 3]\<rparr>] 0
      = Some 36"
    by code_simp
  from run_pairs_are_optimal [OF this list.set_intros(1)] show ?thesis
    by blast
qed

text \<open>
  C29: The ranges of two paired lines come from a longest common subsequence of their tokens: the
  tokens partition each line, the bytes outside the ranges are, on both sides, the concatenation of
  one common subsequence of the two token sequences, and no common subsequence is longer. The
  16-bit lengths of the matrix do not saturate for lines within the limit.
\<close>

theorem token_ranges_are_longest_common:
  assumes "changed_token_ranges old (tokenize old) new (tokenize new) = (old_ranges, new_ranges)"
    and "\<not> line_too_long old"
  shows "concat (texts old (tokenize old)) = old \<and> concat (texts new (tokenize new)) = new
    \<and> (\<exists>kept. kept_bytes old 0 old_ranges = concat kept \<and> kept_bytes new 0 new_ranges = concat kept
        \<and> subseq kept (texts old (tokenize old)) \<and> subseq kept (texts new (tokenize new))
        \<and> (\<forall>other. subseq other (texts old (tokenize old)) \<and> subseq other (texts new (tokenize new))
             \<longrightarrow> length other \<le> length kept))"
proof -
  have "length (tokenize old) < 65535"
    using length_tokenize [of old] assms(2) by (simp add: line_too_long_def MAX_INTRA_LINE_BYTES_def)
  with changed_token_ranges_spec(3) [OF tokenize_chain tokenize_chain assms(1)] obtain kept where
    "kept_bytes old 0 old_ranges = concat kept" "kept_bytes new 0 new_ranges = concat kept"
    "subseq kept (texts old (tokenize old))" "subseq kept (texts new (tokenize new))"
    "length kept = lcs_len (texts old (tokenize old)) (texts new (tokenize new))"
    by auto
  then show ?thesis
    using concat_texts subseq_le_lcs_len by metis
qed

theorem token_ranges_are_longest_common_witness:
  "\<exists>kept. kept_bytes ''x=1;'' 0 [sample_range 2 3] = concat kept
     \<and> kept_bytes ''x=22;'' 0 [sample_range 2 4] = concat kept"
proof -
  have "changed_token_ranges ''x=1;'' (tokenize ''x=1;'') ''x=22;'' (tokenize ''x=22;'')
      = ([sample_range 2 3], [sample_range 2 4])" and "\<not> line_too_long ''x=1;''"
    by code_simp+
  from token_ranges_are_longest_common [OF this] show ?thesis
    by blast
qed

end
