(* ===== verification/Spec2Isabelle.thy ===== *)
theory Spec2Isabelle
  imports Policy_Properties Run_Properties Path_Boundary_Properties Integration_Properties
    Approval_Matcher Approval_Gate Canonical_Properties Scheduler_Theorems Git_Hunk_Properties Git_Intra_Line_Properties
begin

text \<open>
  A verification of Harkness: the runtime (the crate \<open>crates/harkness-runtime\<close>), which decides
  whether an agent's tool call may run, records it and schedules it, and the hunk staging of the
  crate \<open>crates/harkness-git\<close>, which writes the user's choice of hunks and lines into the index.

  \<^bold>\<open>The program.\<close> An agent run asks for tool calls. Each call is classified
  (\<open>trust.rs\<close>, \<open>tool/descriptor.rs\<close>), the policy engine answers allow, ask or deny from its
  compiled-in defaults, a user file and a repository file (\<open>policy.rs\<close>, \<open>policy/integration.rs\<close>).
  An ask becomes an approval request (\<open>approval/record.rs\<close>) that a human decides; a caller parks on
  the approval gate meanwhile (\<open>approval/gate.rs\<close>); granted requests are matched against later
  calls (\<open>approval/matcher.rs\<close>) and the matching grants go back into the policy engine. Tasks, runs,
  steps and tool calls are records with a lifecycle (\<open>domain/state.rs\<close>, \<open>domain/record.rs\<close>), stored in
  a wire form that is validated on the way in (\<open>domain/wire.rs\<close>). Admitted calls are queued per
  workspace and dispatched under a process limit by the scheduler (\<open>schedule/\<close>).
  Beside the runtime, a reviewer stages, unstages and discards hunks or single lines
  (\<open>harkness-git/src/hunk.rs\<close>): the selection is checked against a fresh diff
  (\<open>harkness-git/src/diff.rs\<close>), rendered as one patch, dry-run and handed to \<open>git apply\<close>.

  \<^bold>\<open>The theories.\<close>

  \<^item> \<open>Prelude\<close>: results as sums with \<open>res_bind\<close> for the question mark operator, checked and
    wrapping word arithmetic, the white space of \<open>trim\<close>, sorted association lists for \<open>BTreeMap\<close>,
    the clock interface, identifiers.
  \<^item> \<open>Tool_Contract\<close>: risk levels with their order, identifiers and versions, environment names,
    timeouts and descriptors. \<open>Trust\<close>: workspace trust, the child environment, request flags and
    the classification of a request. \<open>Path_Boundary\<close>: path containment and command specifications
    (\<open>trust.rs\<close>, \<open>harkness-git/src/path.rs\<close>) over a map of the filesystem.
    \<open>Path_Boundary_Properties\<close>: a contained path lands inside a root, plain paths are contained,
    and how a link to a dangling link escapes on any filesystem that has one.
  \<^item> \<open>Rust_Text\<close>: the part of Rust's \<open>str\<close> the code relies on, UTF-8 validation above all.
  \<^item> \<open>Integration_Identity\<close>, \<open>Integration_Trust\<close>: the identity of an external subject with its builders,
    digests and stored form (\<open>integration/subject.rs\<close>), and the trust grants about one: states,
    the check of a grant against what is observed, revoking, invalidating and granting again, and
    the versioned row (\<open>integration/state.rs\<close>, \<open>record.rs\<close>, \<open>wire.rs\<close>). \<open>Integration_Properties\<close>: exactly
    the well-formed records can be built, a valid check pins the evidence of the subject's kind, the
    reason reported is the first of the published precedence, rows are read back unchanged and
    exactly which records have no row, and granting again settles a drift.
  \<^item> \<open>External_Policy\<close> and \<open>Policy\<close>: external capabilities, identity shapes, policy files and their
    loading, and \<open>evaluate\<close>. \<open>Policy_Properties\<close>: layers only tighten, forced pushes and failed loads
    are denied, an allow above observation needs a matching grant, and exactly which decisions
    fail their own validation.
  \<^item> \<open>Run_State\<close>, \<open>Run_Record\<close>, \<open>Run_Wire\<close>: states and edges, the records with every operation, the
    wire form. \<open>Run_Invariant\<close>, \<open>Run_Properties\<close>: the lifecycle invariant, exactly which of the
    records the operations can build are read back unchanged (all but a run that retries itself and
    a call parked after policy allowed it), that terminal records are frozen, that a call that
    started with a decision passed it, that a run resumes only by a decision.
  \<^item> \<open>Approval_Record\<close>, \<open>Approval_Lifecycle\<close>: approval requests, their decisions and the check of a
    stored row; round trips, finality and scope ceilings. \<open>Approval_Matcher\<close>: grants, matching and
    identity drift; an allowed dangerous call traces back to a human decision for exactly this call.
    \<open>Approval_Canonical\<close>, \<open>Canonical_Properties\<close>: the canonical JSON encoding behind an input hash
    (\<open>approval/canonical.rs\<close>); one text per value, refusals that point at the number refused, and
    so an exact-call grant covers only its own input.
    \<open>Approval_Gate\<close>: the gate as a step relation over tickets, where a resolver stores its answer
    and notifies later, in two steps; no wake-up is lost.
  \<^item> \<open>Scheduler\<close>: the scheduler's state and its atomic sections, interleaved over any number of
    threads. \<open>Scheduler_Invariant\<close>, \<open>Scheduler_Accounting\<close>: sums over threads and workspaces, and the
    balance of one section for dispatch numbers and claims. \<open>Scheduler_Safety\<close>: bounds, process
    slots, workers and parked submitters. \<open>Scheduler_Progress\<close>: mapped workspaces, offers, sweeps and
    tickets. \<open>Scheduler_Properties\<close>: the invariant of every reachable state.
    \<open>Scheduler_Theorems\<close>: a mutation runs alone, the bounds, one claim per call, no runnable head is
    forgotten, no deadlock, every number drawn is a refusal or a ticket with one report, and
    admission is first in, first out and greedy.
  \<^item> \<open>Git_Diff\<close>: diffs as the crate represents them (files, hunks, lines, identities of hunks).
    \<open>Git_Patch\<close>: line groups, the projection of a hunk onto the selected lines, the rendering of
    a hunk and of a file, quoted paths. \<open>Git_Hunk\<close>: preparing and revalidating a selection, the
    guards on files, coordinates and overlaps, staging, unstaging and discarding over the answers of git.
    \<open>Git_Patch_Properties\<close>, \<open>Git_Apply\<close>, \<open>Git_Selection\<close>, \<open>Git_Hunk_Properties\<close>: what a unified
    patch does to a sequence of lines; a rendered hunk has the sides the selection asks for,
    staging and unstaging meet, an accepted batch applies as a whole, prepared lines are those of
    the fresh diff, and a command writes one checked patch or nothing.
  \<^item> \<open>Git_Intra_Line\<close>: the pairing of replaced lines and the byte ranges that differ inside a pair
    (\<open>harkness-git/src/intra_line.rs\<close>), with the flat matrices the code fills. \<open>Table_Fill\<close>: the
    interface of a table filled cell by cell, interpreted for both matrices. \<open>Git_Token_Diff\<close>,
    \<open>Git_Pairing\<close>, \<open>Git_Intra_Line_Properties\<close>: the ranges leave a longest common subsequence of
    the tokens, the pairs of a run are an optimal pairing, paired lines mirror each other, and
    annotating a hunk always answers and touches nothing but metadata.

  \<^bold>\<open>Correspondence.\<close> Structs are records, enums datatypes; a method of \<open>T\<close> is a definition \<open>T_name\<close>
  where the bare name is ambiguous. \<open>Result\<close> is a sum with the error on the left, so every early
  return is a branch. Unsigned integers are words of their width; additions the code checks are
  checked, and those it wraps wrap. A shared mutable workspace is an address into a heap, since the
  code keeps it alive by reference counting after the map forgets it. Strings are character lists,
  paths among them. A mutex section is one atomic step; a thread is the list of sections it still
  has to execute.

  \<^bold>\<open>Parameters.\<close> The clock (an order on instants and a test for the offset), the parsers of
  serde\_json and semver, canonicalisation of paths and the answers of the filesystem, the store's
  answer for a recorded call, and the tool registry are arguments of the definitions that use them.
  \<open>time_laws\<close> is the hypothesis about the clock: instants are linearly ordered by a key. The
  canonical encoding takes the three readings of a JSON number and the text Rust's \<open>Debug\<close> gives a
  double (\<open>debug_f64_law\<close>: it reads back as that double and is not an integer); the digest is a
  function of the bytes absorbed. The \<open>semver\<close> crate is the four answers a version check asks of it.
  The text of a grant's time is a partial function and its parser (\<open>rfc3339_laws\<close>: a UTC time is
  read back from the text it has); it refuses the years RFC 3339 has no digits for.
  libgit2 and the git executable are the record \<open>git_env\<close>
  of their answers, and a cancellation token is the list of its polls. For path containment the
  filesystem is a map from locations to nodes, and canonicalising follows it as POSIX does.

  \<^bold>\<open>Bounds.\<close> No model uses fuel: every recursion is structural, or, for the admission loop, ends
  because the queue shrinks. The scheduler is followed up to the last value of its 64-bit dispatch
  counter, before it would wrap. Line numbers of a hunk are 32-bit words with the saturating
  additions of the code; the drift between the two sides of a patch is an integer, as no sum of
  32-bit differences over a diff that fits in memory leaves the 64 bits of the code.

  \<^bold>\<open>Locks.\<close> In the scheduler the mutex of each workspace and the mutex of the map of workspaces
  are resources of the state: a submitter keeps the map locked while
  it blocks on the workspace it found, and the sweep that forgets idle workspaces keeps it over the
  whole map. What callers observe (tickets returned, submissions refused, outcomes reported) is
  logged, so that a lost ticket would show.

  \<^bold>\<open>Over-approximations.\<close> In the scheduler, registering with a workspace and waiting for room are
  two sections, and idle workspaces are forgotten entry by entry; both admit more interleavings
  than the locks of the code do. A parked submitter may look at the queue at any time, which covers
  notification and the poll interval alike.

  \<^bold>\<open>Not modelled.\<close> The text forms of serde and the strict duplicates of the wire structs; random
  identifiers; writing policy files; thread handles, deadlines and the numbers a cancellation or a
  shutdown reports; the executor, the store, the coordinator and the agent registry, which drive
  processes and a database around the parts modelled here; of the Git crate, everything but hunk
  staging, intra-line ranges and the diff they read; and the other crates (catalog, context index,
  providers, protocol clients, recipes, command line and desktop application), which are glue around
  processes, files, databases and sockets.
\<close>

end
